(* ===== verification/Prelude.thy ===== *)
theory Prelude
  imports Main "HOL-Library.Word" "HOL-Library.Sublist"
begin

text \<open>
  Shared vocabulary of the development: the C++ library behaviour the server's
  sources rely on (signed \<open>char\<close>, ASCII case folding as done by \<open>utflower\<close> and
  \<open>lexcmpi\<close>, and \<open>std::stoi\<close> with its two exceptions), generic lemmas on lists
  and maps shared by the component theories, and the named collection
  \<open>model_simps\<close> into which every component puts the equations a witness needs.
\<close>

named_theorems model_simps "equations that evaluate the model on concrete inputs"

section \<open>Exceptions of the C++ library that the sources let escape\<close>

text \<open>\<open>std::invalid_argument\<close>, \<open>std::out_of_range\<close>, and \<open>boost::bad_lexical_cast\<close>.\<close>

datatype cpp_exc = Invalid_argument | Out_of_range | Bad_lexical_cast

section \<open>Characters\<close>

text \<open>
  The sources read bytes as plain \<open>char\<close>, which is signed on the server's
  platforms: a byte of 128 or more is a negative \<open>int\<close> when passed to
  \<open>is_char(int)\<close>. \<open>signed_char\<close> is that integer value.
\<close>

definition signed_char :: "char \<Rightarrow> int" where
  "signed_char c = (if of_char c < (128::nat) then int (of_char c) else int (of_char c) - 256)"

definition ascii_lower :: "char \<Rightarrow> char" where
  "ascii_lower c =
     (let n = (of_char c :: nat) in if 65 \<le> n \<and> n \<le> 90 then char_of (n + 32) else c)"

text \<open>\<open>utflower\<close> (core library): lower-cases a string; on ASCII it is \<open>ascii_lower\<close>.\<close>

definition utflower :: "string \<Rightarrow> string" where
  "utflower s = map ascii_lower s"

text \<open>\<open>lexcmpi(a, b) == 0\<close> (core library): case-insensitive equality.\<close>

definition lexcmpi_eq :: "string \<Rightarrow> string \<Rightarrow> bool" where
  "lexcmpi_eq a b \<longleftrightarrow> utflower a = utflower b"

definition is_space :: "char \<Rightarrow> bool" where
  "is_space c \<longleftrightarrow> c \<in> set [CHR '' '', CHR 0x09, CHR 0x0A, CHR 0x0B, CHR 0x0C, CHR 0x0D]"

definition is_digit :: "char \<Rightarrow> bool" where
  "is_digit c \<longleftrightarrow> (let n = (of_char c :: nat) in 48 \<le> n \<and> n \<le> 57)"

definition digit_val :: "char \<Rightarrow> int" where
  "digit_val c = int (of_char c) - 48"

fun digits_value :: "int \<Rightarrow> string \<Rightarrow> int" where
  "digits_value acc [] = acc"
| "digits_value acc (c # cs) = digits_value (acc * 10 + digit_val c) cs"

section \<open>std::stoi\<close>

text \<open>
  \<open>std::stoi(s)\<close>: skip leading white space, an optional sign, then the longest
  run of decimal digits; no digit raises \<open>std::invalid_argument\<close>, a value outside
  the 32-bit \<open>int\<close> range raises \<open>std::out_of_range\<close>; whatever follows the
  digits is ignored.
\<close>

definition int_min :: int where "int_min = - (2 ^ 31)"
definition int_max :: int where "int_max = 2 ^ 31 - 1"

definition split_sign :: "string \<Rightarrow> bool \<times> string" where
  "split_sign s = (case s of
      c # r \<Rightarrow> (if c = CHR ''-'' then (True, r) else if c = CHR ''+'' then (False, r) else (False, s))
    | [] \<Rightarrow> (False, []))"

definition stoi :: "string \<Rightarrow> cpp_exc + int" where
  "stoi s =
     (let (neg, r) = split_sign (dropWhile is_space s);
          ds = takeWhile is_digit r;
          v = digits_value 0 ds;
          v' = (if neg then - v else v)
      in if ds = [] then Inl Invalid_argument
         else if v' < int_min \<or> int_max < v' then Inl Out_of_range
         else Inr v')"

text \<open>\<open>std::to_string\<close> of an unsigned value: its decimal digits.\<close>

fun nat_to_string :: "nat \<Rightarrow> string" where
  "nat_to_string n =
     (if n < 10 then [char_of (48 + n)] else nat_to_string (n div 10) @ [char_of (48 + n mod 10)])"

section \<open>Lists updated at their last element\<close>

text \<open>
  \<open>v.back().f(...)\<close> on a \<open>std::vector\<close>: the function applied to the last
  element. On an empty vector the C++ is undefined; the model leaves the list
  unchanged there, and the component theories prove that the code never gets there.
\<close>

fun upd_last :: "('a \<Rightarrow> 'a) \<Rightarrow> 'a list \<Rightarrow> 'a list" where
  "upd_last f [] = []"
| "upd_last f [x] = [f x]"
| "upd_last f (x # y # ys) = x # upd_last f (y # ys)"

lemma upd_last_append [simp]: "upd_last f (xs @ [x]) = xs @ [f x]"
  by (induction xs rule: induct_list012) auto

lemma upd_last_length [simp]: "length (upd_last f xs) = length xs"
  by (induction f xs rule: upd_last.induct) auto

lemma upd_last_Nil_iff [simp]: "upd_last f xs = [] \<longleftrightarrow> xs = []"
  by (cases xs rule: rev_cases) auto

section \<open>std::unordered_map::insert\<close>

text \<open>\<open>m.insert({k, v})\<close> stores \<open>v\<close> only when \<open>k\<close> is not yet a key.\<close>

definition map_insert :: "('k \<rightharpoonup> 'v) \<Rightarrow> 'k \<Rightarrow> 'v \<Rightarrow> ('k \<rightharpoonup> 'v)" where
  "map_insert m k v = (case m k of None \<Rightarrow> m(k \<mapsto> v) | Some _ \<Rightarrow> m)"

text \<open>\<open>m[k]\<close> on a map of strings: the value, after inserting an empty one if the key is absent.\<close>

definition subscript :: "('k \<rightharpoonup> string) \<Rightarrow> 'k \<Rightarrow> ('k \<rightharpoonup> string) \<times> string" where
  "subscript m k = (case m k of Some v \<Rightarrow> (m, v) | None \<Rightarrow> (m(k \<mapsto> []), []))"

section \<open>Shared lemmas\<close>

lemma map_insert_apply [simp]:
  "map_insert m k v x = (if x = k \<and> m k = None then Some v else m x)"
  by (auto simp: map_insert_def split: option.splits)

lemma dom_map_insert [simp]: "dom (map_insert m k v) = insert k (dom m)"
  by (auto simp: map_insert_def split: option.splits)

lemma ran_map_insert: "ran (map_insert m k v) \<subseteq> insert v (ran m)"
  by (auto simp: map_insert_def ran_def split: option.splits)

lemma eq_char_of_iff: "c = char_of n \<longleftrightarrow> take_bit 8 n = of_char c"
  by (metis char_of_eq_iff)

lemma utflower_append [simp]: "utflower (a @ b) = utflower a @ utflower b"
  by (simp add: utflower_def)

lemma lexcmpi_eq_refl [simp]: "lexcmpi_eq a a"
  by (simp add: lexcmpi_eq_def)

lemma dropWhile_Cons_shorter: "dropWhile P xs = y # ys \<Longrightarrow> length ys < length xs"
  by (metis length_Cons length_dropWhile_le less_eq_Suc_le)

lemma takeWhile_all_append:
  "list_all P xs \<Longrightarrow> (ys = [] \<or> \<not> P (hd ys)) \<Longrightarrow> takeWhile P (xs @ ys) = xs"
  by (induction xs) (auto simp: takeWhile_eq_Nil_iff neq_Nil_conv)

lemma dropWhile_all_append:
  "list_all P xs \<Longrightarrow> (ys = [] \<or> \<not> P (hd ys)) \<Longrightarrow> dropWhile P (xs @ ys) = ys"
proof (induction xs)
  case Nil then show ?case by (cases ys) auto
qed auto

lemma subseq_append_self: "subseq xs (xs @ ys)"
  by (induction xs) auto

lemma subseq_append_left: "subseq (xs @ ys) zs \<Longrightarrow> subseq xs zs"
  using subseq_append_self subseq_order.order_trans by blast

lemma length_filter_update:
  "i < length xs \<Longrightarrow>
   length (filter P (xs[i := y])) + (if P (xs ! i) then 1 else 0) = length (filter P xs) + (if P y then 1 else 0)"
proof (induction xs arbitrary: i)
  case (Cons x xs)
  then show ?case by (cases i) auto
qed simp

lemma stoi_range: "stoi s = Inr v \<Longrightarrow> int_min \<le> v \<and> v \<le> int_max"
  by (auto simp: stoi_def Let_def split: prod.splits if_splits)

lemma stoi_Nil [simp]: "stoi [] = Inl Invalid_argument"
  by (simp add: stoi_def split_sign_def)

lemma digits_value_append: "digits_value acc (xs @ ys) = digits_value (digits_value acc xs) ys"
  by (induction acc xs rule: digits_value.induct) simp_all

lemma digit_char_of: "d < 10 \<Longrightarrow> is_digit (char_of (48 + d)) \<and> digit_val (char_of (48 + d)) = int d"
  by (simp add: is_digit_def digit_val_def)

declare nat_to_string.simps [simp del]

lemma nat_to_string_digits: "list_all is_digit (nat_to_string n) \<and> digits_value 0 (nat_to_string n) = int n"
proof (induction n rule: nat_to_string.induct)
  case (1 n)
  show ?case
  proof (cases "n < 10")
    case True
    then show ?thesis by (simp add: nat_to_string.simps digit_char_of)
  next
    case False
    have "n mod 10 < 10" by simp
    then have d: "is_digit (char_of (48 + n mod 10)) \<and> digit_val (char_of (48 + n mod 10)) = int (n mod 10)"
      by (rule digit_char_of)
    have "n div 10 * 10 + n mod 10 = n" by simp
    then have "int (n div 10) * 10 + int (n mod 10) = int n" by (metis of_nat_add of_nat_mult of_nat_numeral)
    then show ?thesis using 1 False d by (simp add: nat_to_string.simps digits_value_append)
  qed
qed

lemma nat_to_string_Cons: "\<exists>d ds. nat_to_string n = d # ds"
proof -
  have "nat_to_string n \<noteq> []" by (subst nat_to_string.simps) simp
  then show ?thesis by (simp add: neq_Nil_conv)
qed

lemma stoi_nat_to_string: "int n \<le> int_max \<Longrightarrow> stoi (nat_to_string n) = Inr (int n)"
proof -
  assume b: "int n \<le> int_max"
  obtain d ds where e: "nat_to_string n = d # ds" using nat_to_string_Cons by blast
  have dig: "list_all is_digit (d # ds)" and v: "digits_value 0 (d # ds) = int n"
    using nat_to_string_digits [of n] e by simp_all
  then have "is_digit d" by simp
  then have "\<not> is_space d" "d \<noteq> CHR ''-''" "d \<noteq> CHR ''+''"
    by (auto simp: is_digit_def is_space_def)
  then have s: "split_sign (dropWhile is_space (d # ds)) = (False, d # ds)" by (simp add: split_sign_def)
  have t: "takeWhile is_digit (d # ds) = d # ds" using dig by (simp add: list_all_iff)
  have "int_min \<le> int n" by (simp add: int_min_def)
  then show ?thesis using e v b s t by (simp add: stoi_def)
qed

declare signed_char_def [model_simps] ascii_lower_def [model_simps] utflower_def [model_simps]
  lexcmpi_eq_def [model_simps] is_space_def [model_simps] is_digit_def [model_simps]
  digit_val_def [model_simps] stoi_def [model_simps] split_sign_def [model_simps]
  int_min_def [model_simps] int_max_def [model_simps] char_of_eq_iff [model_simps]
  eq_char_of_iff [model_simps] nat_to_string.simps [model_simps] subscript_def [model_simps]

end
