(* ===== verification/Cookie.thy ===== *)
theory Cookie
  imports Prelude Complex_Main
begin

text \<open>
  The cookie record of \<open>src/HTTP/cookie.h\<close> and its operations of
  \<open>src/HTTP/cookie.cpp\<close>: \<open>empty\<close>, \<open>toString\<close> (the \<open>Set-Cookie\<close> value),
  \<open>fromString\<close> (the request's \<open>Cookie\<close> header, scanned with the regular
  expression \<open>([\w-_.]+)=([^;]*)\<close> by repeated \<open>regex_search\<close>) and
  \<open>getInvalidationCookie\<close>. The date formatting of \<open>PADateTime\<close> is an external
  library; \<open>toString\<close> takes it as a parameter.
\<close>

record cookie =
  ck_name :: string
  ck_value :: string
  ck_path :: string
  ck_domain :: string
  ck_http_only :: bool
  ck_secure :: bool
  ck_expires :: real

text \<open>\<open>Cookie(n, v, p = "", d = "", h = false, s = false, e = -1.0)\<close>\<close>

definition make_cookie :: "string \<Rightarrow> string \<Rightarrow> cookie" where
  "make_cookie n v = \<lparr>ck_name = n, ck_value = v, ck_path = [], ck_domain = [],
     ck_http_only = False, ck_secure = False, ck_expires = -1\<rparr>"

text \<open>\<open>Cookie()\<close>, the value \<open>HTTPRequest::getCookie\<close> returns for a missing name.\<close>

definition default_cookie :: cookie where
  "default_cookie = make_cookie [] []"

definition cookie_empty :: "cookie \<Rightarrow> bool" where
  "cookie_empty c \<longleftrightarrow> ck_name c = [] \<or> ck_value c = []"

text \<open>
  \<open>is_pauuid\<close>: construct a \<open>pauuid\<close> from the value and report whether the
  constructor threw \<open>bad_lexical_cast\<close>. \<open>pauuid\<close> belongs to the external core
  library; its string constructor is the parameter \<open>pauuid_of\<close>, \<open>None\<close> where it
  throws.
\<close>

definition is_pauuid :: "(string \<Rightarrow> 'u option) \<Rightarrow> cookie \<Rightarrow> bool" where
  "is_pauuid pauuid_of c \<longleftrightarrow> pauuid_of (ck_value c) \<noteq> None"

definition toString :: "(real \<Rightarrow> string) \<Rightarrow> cookie \<Rightarrow> string" where
  "toString fmt c =
     (if ck_name c = [] \<or> ck_value c = [] then []
      else ck_name c @ ''='' @ ck_value c
        @ (if ck_path c \<noteq> [] then ''; Path='' @ ck_path c else [])
        @ (if ck_domain c \<noteq> [] then ''; Domain='' @ ck_domain c else [])
        @ (if ck_http_only c then ''; HttpOnly'' else [])
        @ (if ck_secure c then ''; Secure'' else [])
        @ (if ck_expires c \<noteq> -1 then ''; Expires='' @ fmt (ck_expires c) else []))"

subsection \<open>fromString\<close>

text \<open>
  Characters of the name class \<open>[\w-_.]\<close>: letters, digits, underscore, hyphen and
  dot (the hyphen read as a literal, the reading the unit test
  \<open>src/tests/cookie_test.cpp\<close> relies on).
\<close>

definition is_name_char :: "char \<Rightarrow> bool" where
  "is_name_char c \<longleftrightarrow>
     (let n = (of_char c :: nat) in
       (48 \<le> n \<and> n \<le> 57) \<or> (65 \<le> n \<and> n \<le> 90) \<or> (97 \<le> n \<and> n \<le> 122)
       \<or> c = CHR ''_'' \<or> c = CHR ''-'' \<or> c = CHR ''.'')"

abbreviation not_semicolon :: "char \<Rightarrow> bool" where
  "not_semicolon c \<equiv> c \<noteq> CHR '';''"

text \<open>
  One \<open>regex_search\<close> finds the leftmost position where a maximal run of name
  characters is followed by \<open>=\<close> (a shorter run is followed by a name character,
  so backtracking never helps, and a start inside a failed run fails too); the value
  is the longest run without \<open>;\<close>; the search continues on the suffix.
\<close>

function cookies_scan :: "string \<Rightarrow> (string \<times> string) list" where
  "cookies_scan [] = []"
| "cookies_scan (c # cs) =
     (if is_name_char c then
        (case dropWhile is_name_char cs of
           [] \<Rightarrow> []
         | d # r \<Rightarrow>
             (if d = CHR ''='' then
                (c # takeWhile is_name_char cs, takeWhile not_semicolon r)
                  # cookies_scan (dropWhile not_semicolon r)
              else cookies_scan (d # r)))
      else cookies_scan cs)"
  by pat_completeness auto
termination
proof (relation "measure length")
  fix c cs d r
  assume "dropWhile is_name_char cs = d # r"
  then have "length r < length cs" by (rule dropWhile_Cons_shorter)
  then show "(dropWhile not_semicolon r, c # cs) \<in> measure length"
    and "(d # r, c # cs) \<in> measure length"
    using length_dropWhile_le [of not_semicolon r] \<open>dropWhile is_name_char cs = d # r\<close>
      length_dropWhile_le [of is_name_char cs] by auto
qed auto

text \<open>
  The loop of \<open>fromString\<close> itself. \<open>cookie_match_at\<close> is the regular expression
  anchored at the start of the string: the greedy run of name characters must be
  non-empty and followed by \<open>=\<close>, the value is the greedy run without \<open>;\<close>, and the
  rest is the match's suffix. \<open>regex_search\<close> tries the positions from left to
  right; \<open>fromString_loop\<close> is the \<open>while (std::regex_search(s, cookie_match,
  cookie_regex))\<close> loop that appends the cookie and continues on
  \<open>cookie_match.suffix()\<close>. It is a \<open>partial_function\<close>: a loop that did not end
  would be \<open>None\<close>, and \<open>fromString\<close> returns no cookie then.
\<close>

definition cookie_match_at :: "string \<Rightarrow> (string \<times> string \<times> string) option" where
  "cookie_match_at s =
     (let n = takeWhile is_name_char s; r = dropWhile is_name_char s in
      if n \<noteq> [] \<and> r \<noteq> [] \<and> hd r = CHR ''=''
      then Some (n, takeWhile not_semicolon (tl r), dropWhile not_semicolon (tl r))
      else None)"

fun regex_search :: "string \<Rightarrow> (string \<times> string \<times> string) option" where
  "regex_search [] = None"
| "regex_search (c # cs) =
     (case cookie_match_at (c # cs) of Some m \<Rightarrow> Some m | None \<Rightarrow> regex_search cs)"

partial_function (option) fromString_loop :: "string \<Rightarrow> cookie list \<Rightarrow> cookie list option" where
  "fromString_loop s vc =
     (case regex_search s of
        None \<Rightarrow> Some vc
      | Some (n, v, rest) \<Rightarrow> fromString_loop rest (vc @ [make_cookie n v]))"

definition fromString :: "string \<Rightarrow> cookie list" where
  "fromString s = (case fromString_loop s [] of Some vc \<Rightarrow> vc | None \<Rightarrow> [])"

definition getInvalidationCookie :: "string \<Rightarrow> cookie" where
  "getInvalidationCookie n = (make_cookie n ''#DELETED#'')\<lparr>ck_expires := 0\<rparr>"

subsection \<open>The client side of the header\<close>

text \<open>
  The request header a client sends (spec, section 6): \<open>name=value\<close> pairs
  separated by \<open>"; "\<close>. Only the proofs use it; a pair is well formed when its
  name is a non-empty run of name characters and its value holds no \<open>;\<close>.
\<close>

definition valid_pair :: "string \<times> string \<Rightarrow> bool" where
  "valid_pair p \<longleftrightarrow> fst p \<noteq> [] \<and> list_all is_name_char (fst p) \<and> CHR '';'' \<notin> set (snd p)"

fun cookie_header :: "(string \<times> string) list \<Rightarrow> string" where
  "cookie_header [] = []"
| "cookie_header [(n, v)] = n @ ''='' @ v"
| "cookie_header ((n, v) # q # ps) = n @ ''='' @ v @ ''; '' @ cookie_header (q # ps)"

declare make_cookie_def [model_simps] toString_def [model_simps] is_name_char_def [model_simps]
  cookie_match_at_def [model_simps] getInvalidationCookie_def [model_simps]
  default_cookie_def [model_simps] cookie_empty_def [model_simps] valid_pair_def [model_simps]

declare cookies_scan.simps(2) [simp del]

subsection \<open>Scanning lemmas\<close>

lemma cookies_scan_Cons:
  "cookies_scan (c # cs) =
     (if \<not> is_name_char c then cookies_scan cs
      else case dropWhile is_name_char cs of [] \<Rightarrow> []
        | d # r \<Rightarrow> if d = CHR ''='' then (c # takeWhile is_name_char cs, takeWhile not_semicolon r)
                  # cookies_scan (dropWhile not_semicolon r) else cookies_scan (d # r))"
  by (subst cookies_scan.simps(2)) simp

lemma cookies_scan_pair:
  assumes "valid_pair (n, v)" and "rest = [] \<or> hd rest = CHR '';''"
  shows "cookies_scan (n @ ''='' @ v @ rest) = (n, v) # cookies_scan rest"
proof -
  obtain c ns where n: "n = c # ns" using assms(1) by (cases n) (auto simp: valid_pair_def)
  have nc: "is_name_char c" "list_all is_name_char ns" using assms(1) n by (auto simp: valid_pair_def)
  have eq: "\<not> is_name_char (CHR ''='')" by (simp add: is_name_char_def)
  have v: "list_all not_semicolon v" using assms(1) by (auto simp: valid_pair_def list_all_iff)
  have r: "rest = [] \<or> \<not> not_semicolon (hd rest)" using assms(2) by auto
  have "dropWhile is_name_char (ns @ ''='' @ v @ rest) = ''='' @ v @ rest"
    using nc(2) eq by (intro dropWhile_all_append) auto
  moreover have "takeWhile is_name_char (ns @ ''='' @ v @ rest) = ns"
    using nc(2) eq by (intro takeWhile_all_append) auto
  ultimately show ?thesis
    unfolding n append_Cons
    using nc(1) takeWhile_all_append [OF v r] dropWhile_all_append [OF v r]
    by (subst cookies_scan_Cons) simp
qed

lemma cookies_scan_sep: "cookies_scan (''; '' @ s) = cookies_scan s"
proof -
  have "\<not> is_name_char CHR '';''" "\<not> is_name_char CHR '' ''" by (simp_all add: is_name_char_def)
  then show ?thesis by (simp add: cookies_scan_Cons [of "CHR '';''"] cookies_scan_Cons [of "CHR '' ''"])
qed

lemma cookies_scan_header:
  "list_all valid_pair ps \<Longrightarrow> cookies_scan (cookie_header ps) = ps"
proof (induction ps rule: cookie_header.induct)
  case 1 then show ?case by simp
next
  case (2 n v)
  then show ?case using cookies_scan_pair [of n v "[]"] by simp
next
  case (3 n v q ps)
  have "cookies_scan (cookie_header ((n, v) # q # ps))
      = (n, v) # cookies_scan (''; '' @ cookie_header (q # ps))"
    unfolding cookie_header.simps using "3.prems" by (intro cookies_scan_pair) auto
  also have "\<dots> = (n, v) # q # ps"
    using 3 by (simp only: cookies_scan_sep) simp
  finally show ?case .
qed

lemma cookies_scan_valid: "p \<in> set (cookies_scan s) \<Longrightarrow> valid_pair p"
proof (induction s rule: cookies_scan.induct)
  case 1 then show ?case by simp
next
  case (2 c cs)
  have head: "valid_pair (c # takeWhile is_name_char cs, takeWhile not_semicolon r)"
    if "is_name_char c" for r
    using that by (auto simp: valid_pair_def list_all_iff dest: set_takeWhileD)
  show ?case
  proof (cases "is_name_char c")
    case False
    with "2.prems" "2.IH"(3) show ?thesis by (simp add: cookies_scan_Cons [of c cs])
  next
    case name: True
    show ?thesis
    proof (cases "dropWhile is_name_char cs")
      case Nil
      with name "2.prems" show ?thesis by (simp add: cookies_scan_Cons [of c cs])
    next
      case (Cons d r)
      show ?thesis
      proof (cases "d = CHR ''=''")
        case True
        with name Cons "2.prems" have "p = (c # takeWhile is_name_char cs, takeWhile not_semicolon r)
            \<or> p \<in> set (cookies_scan (dropWhile not_semicolon r))"
          by (simp add: cookies_scan_Cons [of c cs])
        then show ?thesis using head [OF name] "2.IH"(1) name Cons True by blast
      next
        case False
        with name Cons "2.prems" have "p \<in> set (cookies_scan (d # r))"
          by (simp add: cookies_scan_Cons [of c cs])
        then show ?thesis using "2.IH"(2) name Cons False by blast
      qed
    qed
  qed
qed


subsection \<open>The regex loop against the scanner\<close>

text \<open>
  A search that starts inside a run of name characters ends where the run ends:
  the runs from its later positions are followed by the same character.
\<close>

lemma regex_search_run_end:
  "is_name_char c \<Longrightarrow> dropWhile is_name_char cs = [] \<Longrightarrow> regex_search (c # cs) = None"
  by (induction cs arbitrary: c) (auto simp: cookie_match_at_def split: if_splits)

lemma regex_search_run_skip:
  "is_name_char c \<Longrightarrow> dropWhile is_name_char cs = d # r \<Longrightarrow> d \<noteq> CHR ''=''
    \<Longrightarrow> regex_search (c # cs) = regex_search (d # r)"
  by (induction cs arbitrary: c) (auto simp: cookie_match_at_def split: if_splits)

lemma cookies_scan_regex:
  "cookies_scan s = (case regex_search s of None \<Rightarrow> [] | Some (n, v, rest) \<Rightarrow> (n, v) # cookies_scan rest)"
proof (induction s rule: cookies_scan.induct)
  case 1 then show ?case by simp
next
  case (2 c cs)
  show ?case
  proof (cases "is_name_char c")
    case False
    then show ?thesis using "2.IH"(3) by (simp add: cookies_scan_Cons [of c cs] cookie_match_at_def)
  next
    case name: True
    show ?thesis
    proof (cases "dropWhile is_name_char cs")
      case Nil
      then show ?thesis
        by (simp add: cookies_scan_Cons [of c cs] Nil name regex_search_run_end [OF name Nil] del: regex_search.simps)
    next
      case (Cons d r)
      show ?thesis
      proof (cases "d = CHR ''=''")
        case True
        then show ?thesis using name Cons by (simp add: cookies_scan_Cons [of c cs] cookie_match_at_def)
      next
        case False
        then show ?thesis using name Cons "2.IH"(2) regex_search_run_skip [OF name Cons False]
          by (simp add: cookies_scan_Cons [of c cs])
      qed
    qed
  qed
qed

text \<open>Every match consumes at least a name character and the \<open>=\<close>.\<close>

lemma cookie_match_at_shorter:
  assumes "cookie_match_at s = Some (n, v, rest)"
  shows "length rest + 2 \<le> length s"
proof -
  let ?r = "dropWhile is_name_char s"
  have r: "takeWhile is_name_char s \<noteq> []" "?r \<noteq> []" and sfx: "rest = dropWhile not_semicolon (tl ?r)"
    using assms by (auto simp: cookie_match_at_def Let_def split: if_splits)
  have "length (takeWhile is_name_char s) + length ?r = length s"
    by (metis length_append takeWhile_dropWhile_id)
  moreover have "length rest \<le> length (tl ?r)" unfolding sfx by (rule length_dropWhile_le)
  moreover have "0 < length (takeWhile is_name_char s)" using r(1) by blast
  moreover have "length (tl ?r) + 1 = length ?r" using r(2) by (cases ?r) simp_all
  ultimately show ?thesis by linarith
qed

lemma regex_search_shorter:
  "regex_search s = Some (n, v, rest) \<Longrightarrow> length rest + 2 \<le> length s"
proof (induction s)
  case (Cons c cs)
  then show ?case using cookie_match_at_shorter [of "c # cs" n v rest]
    by (fastforce split: option.splits)
qed simp

lemma cookies_scan_length: "2 * length (cookies_scan s) \<le> length s"
proof (induction s rule: measure_induct_rule [of length])
  case (less s)
  show ?case
  proof (cases "regex_search s")
    case (Some m)
    obtain n v rest where m: "m = (n, v, rest)" by (cases m)
    have "length rest + 2 \<le> length s" using Some m regex_search_shorter by simp
    then show ?thesis using less [of rest] Some m by (subst cookies_scan_regex) simp
  qed (subst cookies_scan_regex, simp)
qed

lemma fromString_loop_scan:
  "fromString_loop s vc = Some (vc @ map (\<lambda>(n, v). make_cookie n v) (cookies_scan s))"
proof (induction s arbitrary: vc rule: measure_induct_rule [of length])
  case (less s)
  show ?case
  proof (cases "regex_search s")
    case None
    then show ?thesis by (simp add: fromString_loop.simps [of s] cookies_scan_regex [of s])
  next
    case (Some m)
    obtain n v rest where m: "m = (n, v, rest)" by (cases m)
    have "length rest < length s" using Some m regex_search_shorter by fastforce
    then show ?thesis using less [of rest "vc @ [make_cookie n v]"] Some m
      by (simp add: fromString_loop.simps [of s] cookies_scan_regex [of s])
  qed
qed

lemma fromString_scan: "fromString s = map (\<lambda>(n, v). make_cookie n v) (cookies_scan s)"
  by (simp add: fromString_def fromString_loop_scan)

declare fromString_scan [model_simps]

lemma fromString_pairs: "map (\<lambda>c. (ck_name c, ck_value c)) (fromString s) = cookies_scan s"
  by (induction "cookies_scan s") (auto simp: fromString_scan make_cookie_def comp_def case_prod_beta)

lemma takeWhile_semicolon_rest:
  "rest = [] \<or> hd rest = CHR '';'' \<Longrightarrow> takeWhile not_semicolon (v @ rest) = takeWhile not_semicolon v"
proof (induction v)
  case Nil
  then show ?case by (cases rest) auto
qed simp

lemma cookies_scan_name:
  assumes "n \<noteq> []" and "list_all is_name_char n"
  shows "cookies_scan (n @ ''='' @ s) = (n, takeWhile not_semicolon s) # cookies_scan (dropWhile not_semicolon s)"
proof -
  obtain c ns where n: "n = c # ns" using assms(1) by (cases n) auto
  have nc: "is_name_char c" "list_all is_name_char ns" using assms(2) n by auto
  have eq: "\<not> is_name_char (CHR ''='')" by (simp add: is_name_char_def)
  have "dropWhile is_name_char (ns @ ''='' @ s) = ''='' @ s"
    using nc(2) eq by (intro dropWhile_all_append) auto
  moreover have "takeWhile is_name_char (ns @ ''='' @ s) = ns"
    using nc(2) eq by (intro takeWhile_all_append) auto
  ultimately show ?thesis unfolding n append_Cons using nc(1) by (subst cookies_scan_Cons) simp
qed

lemma toString_attrs:
  assumes "ck_name c \<noteq> []" "ck_value c \<noteq> []"
  obtains rest where "toString fmt c = ck_name c @ ''='' @ ck_value c @ rest"
    and "rest = [] \<or> hd rest = CHR '';''"
  using assms by (auto simp: toString_def)

subsection \<open>Properties\<close>

text \<open>
  C10: fromString reads back a well-formed \<open>Cookie\<close> header: for name/value pairs with
  non-empty names of \<open>[\w-_.]\<close> characters and values without \<open>;\<close>, joining them
  as a client does and scanning the result yields exactly the pairs, in order.
\<close>

theorem fromString_cookie_header:
  "list_all valid_pair ps \<Longrightarrow> map (\<lambda>c. (ck_name c, ck_value c)) (fromString (cookie_header ps)) = ps"
  by (simp add: fromString_pairs cookies_scan_header)

lemma fromString_cookie_header_witness:
  "list_all valid_pair [(''CP'', ''H2''), (''WMF-Last-Access'', ''09-Mar-2018''),
      (''GeoIP'', ''RU:MOW:Moscow:55.75:37.62:v4'')]
   \<and> map (\<lambda>c. (ck_name c, ck_value c)) (fromString
       ''CP=H2; WMF-Last-Access=09-Mar-2018; GeoIP=RU:MOW:Moscow:55.75:37.62:v4'')
     = [(''CP'', ''H2''), (''WMF-Last-Access'', ''09-Mar-2018''),
        (''GeoIP'', ''RU:MOW:Moscow:55.75:37.62:v4'')]"
proof -
  have v: "list_all valid_pair [(''CP'', ''H2''), (''WMF-Last-Access'', ''09-Mar-2018''),
      (''GeoIP'', ''RU:MOW:Moscow:55.75:37.62:v4'')]"
    by (simp add: model_simps)
  show ?thesis using fromString_cookie_header [OF v] v by simp
qed

text \<open>
  C11: every cookie fromString produces has a non-empty name of \<open>[\w-_.]\<close>
  characters, a value without \<open>;\<close>, and default attributes.
\<close>

theorem fromString_wellformed:
  "c \<in> set (fromString s) \<Longrightarrow> valid_pair (ck_name c, ck_value c) \<and> c = make_cookie (ck_name c) (ck_value c)"
  by (auto simp: fromString_scan make_cookie_def dest: cookies_scan_valid)

lemma fromString_wellformed_witness:
  "make_cookie ''a'' ''b'' \<in> set (fromString '' ;a=b'')
   \<and> valid_pair (ck_name (make_cookie ''a'' ''b''), ck_value (make_cookie ''a'' ''b''))
   \<and> make_cookie ''a'' ''b'' = make_cookie (ck_name (make_cookie ''a'' ''b'')) (ck_value (make_cookie ''a'' ''b''))"
proof -
  have m: "make_cookie ''a'' ''b'' \<in> set (fromString '' ;a=b'')"
    by (simp add: fromString_scan model_simps cookies_scan.simps)
  show ?thesis using fromString_wellformed [OF m] m by simp
qed

text \<open>
  C12: the \<open>Set-Cookie\<close> value toString writes for a cookie with a non-empty name of
  \<open>[\w-_.]\<close> characters and a non-empty value is read back by fromString, whatever
  attributes follow, as a first cookie with that name and with the value up to its first
  \<open>;\<close>: toString does not quote the value, so a value containing \<open>;\<close> comes back
  cut there, and a value without one comes back whole.
\<close>

theorem toString_fromString:
  assumes "ck_name c \<noteq> []" and "list_all is_name_char (ck_name c)" and "ck_value c \<noteq> []"
  shows "\<exists>cs. fromString (toString fmt c)
           = make_cookie (ck_name c) (takeWhile (\<lambda>x. x \<noteq> CHR '';'') (ck_value c)) # cs"
proof -
  obtain rest where ts: "toString fmt c = ck_name c @ ''='' @ ck_value c @ rest"
    and r: "rest = [] \<or> hd rest = CHR '';''"
    using assms(1,3) by (rule toString_attrs)
  have "cookies_scan (toString fmt c)
      = (ck_name c, takeWhile not_semicolon (ck_value c)) # cookies_scan (dropWhile not_semicolon (ck_value c @ rest))"
    unfolding ts cookies_scan_name [OF assms(1,2)] takeWhile_semicolon_rest [OF r] ..
  then show ?thesis by (simp add: fromString_scan)
qed

lemma toString_fromString_witness:
  "toString (\<lambda>_. ''Tue, 10 Apr 2018 12:00:00 GMT'')
     \<lparr>ck_name = ''WMF-Last-Access-Global'', ck_value = ''09-Mar-2018'', ck_path = ''/'',
      ck_domain = ''.wikipedia.org'', ck_http_only = True, ck_secure = True, ck_expires = 1523361600\<rparr>
   = ''WMF-Last-Access-Global=09-Mar-2018; Path=/; Domain=.wikipedia.org; HttpOnly; Secure; Expires=Tue, 10 Apr 2018 12:00:00 GMT''
   \<and> (\<exists>cs. fromString (toString (\<lambda>_. ''Tue, 10 Apr 2018 12:00:00 GMT'')
     \<lparr>ck_name = ''WMF-Last-Access-Global'', ck_value = ''09-Mar-2018'', ck_path = ''/'',
      ck_domain = ''.wikipedia.org'', ck_http_only = True, ck_secure = True, ck_expires = 1523361600\<rparr>)
     = make_cookie ''WMF-Last-Access-Global'' ''09-Mar-2018'' # cs)
   \<and> (\<exists>cs. fromString (toString (\<lambda>_. []) (make_cookie ''n'' ''a;b'')) = make_cookie ''n'' ''a'' # cs)"
proof -
  let ?c = "\<lparr>ck_name = ''WMF-Last-Access-Global'', ck_value = ''09-Mar-2018'', ck_path = ''/'',
      ck_domain = ''.wikipedia.org'', ck_http_only = True, ck_secure = True, ck_expires = 1523361600\<rparr>"
  have n: "ck_name ?c \<noteq> []" "list_all is_name_char (ck_name ?c)" "ck_value ?c \<noteq> []"
    by (simp_all add: is_name_char_def)
  have "\<exists>cs. fromString (toString (\<lambda>_. ''Tue, 10 Apr 2018 12:00:00 GMT'') ?c)
     = make_cookie (ck_name ?c) (takeWhile (\<lambda>x. x \<noteq> CHR '';'') (ck_value ?c)) # cs"
    using n by (rule toString_fromString)
  moreover have m: "ck_name (make_cookie ''n'' ''a;b'') \<noteq> []"
    "list_all is_name_char (ck_name (make_cookie ''n'' ''a;b''))" "ck_value (make_cookie ''n'' ''a;b'') \<noteq> []"
    by (simp_all add: make_cookie_def is_name_char_def)
  moreover note toString_fromString [OF m, of "\<lambda>_. []"]
  ultimately show ?thesis by (simp add: toString_def make_cookie_def)
qed

text \<open>
  fromString on the string of the repository's unit test
  (\<open>src/tests/cookie_test.cpp\<close>, \<open>cookies_from_string\<close>) yields its six cookies.
\<close>

theorem fromString_unit_test:
  "map (\<lambda>c. (ck_name c, ck_value c)) (fromString
     ''CP=H2; WMF-Last-Access=09-Mar-2018; WMF-Last-Access-Global=09-Mar-2018; GeoIP=RU:MOW:Moscow:55.75:37.62:v4; Some.Var.1=42; Another_Var_2=!@#$%^&*()'')
   = [(''CP'', ''H2''), (''WMF-Last-Access'', ''09-Mar-2018''), (''WMF-Last-Access-Global'', ''09-Mar-2018''),
      (''GeoIP'', ''RU:MOW:Moscow:55.75:37.62:v4''), (''Some.Var.1'', ''42''), (''Another_Var_2'', ''!@#$%^&*()'')]"
  by (simp add: fromString_pairs cookies_scan.simps is_name_char_def)

text \<open>
  C13: the \<open>while (std::regex_search(...))\<close> loop of fromString ends on every
  input and every accumulated vector. Each match consumes at least one name character
  and the \<open>=\<close>, so the loop appends at most half as many cookies as the string has
  characters before the search fails.
\<close>

theorem fromString_terminates:
  "\<exists>vc'. fromString_loop s vc = Some vc' \<and> length vc' \<le> length vc + length s div 2"
  using fromString_loop_scan [of s vc] cookies_scan_length [of s] by simp

end
