(* ===== verification/Http_Schema.thy ===== *)
theory Http_Schema
  imports Prelude
begin

text \<open>
  The protocol constants of \<open>Schema::Header\<close> and \<open>Schema::URI\<close> in
  \<open>src/HTTP/http_protocol.h\<close> that the code reads: the header names and values of the
  cookie, content-length, host and WebSocket-upgrade tests, and the URI schemes
  \<open>assembleUri\<close> puts in front of the host. Header names are looked up in maps
  whose keys are lower-cased, so \<open>Host\<close> and \<open>Content-Length\<close> are used through
  \<open>utflower\<close>; the lemmas give the keys they become.
\<close>

definition hdr_cookie :: string where "hdr_cookie = ''cookie''"
definition hdr_set_cookie :: string where "hdr_set_cookie = ''set-cookie''"
definition hdr_content_length :: string where "hdr_content_length = ''Content-Length''"
definition hdr_host :: string where "hdr_host = ''Host''"

text \<open>\<open>Schema::Header::WS\<close> and its \<open>Value\<close>s.\<close>

definition ws_hdr_upgrade :: string where "ws_hdr_upgrade = ''upgrade''"
definition ws_hdr_connection :: string where "ws_hdr_connection = ''connection''"
definition ws_hdr_sec_websocket_key :: string where "ws_hdr_sec_websocket_key = ''sec-websocket-key''"
definition ws_hdr_sec_websocket_version :: string where
  "ws_hdr_sec_websocket_version = ''sec-websocket-version''"
definition ws_val_websocket :: string where "ws_val_websocket = ''websocket''"
definition ws_val_upgrade :: string where "ws_val_upgrade = ''Upgrade''"
definition ws_val_keep_alive_upgrade :: string where "ws_val_keep_alive_upgrade = ''keep-alive, Upgrade''"

text \<open>\<open>Schema::URI\<close>\<close>

definition HTTP_PROTO :: string where "HTTP_PROTO = ''http''"
definition HTTPS_PROTO :: string where "HTTPS_PROTO = ''https''"
definition WS_PROTO :: string where "WS_PROTO = ''ws''"
definition WSS_PROTO :: string where "WSS_PROTO = ''wss''"
definition PROTO_URLPOSTFIX :: string where "PROTO_URLPOSTFIX = ''://''"

text \<open>
  The constants are unfolded by the simplifier, so the lemmas of the components read
  with the literals.
\<close>

declare hdr_cookie_def [simp] hdr_set_cookie_def [simp] hdr_content_length_def [simp] hdr_host_def [simp]
  ws_hdr_upgrade_def [simp] ws_hdr_connection_def [simp] ws_hdr_sec_websocket_key_def [simp]
  ws_hdr_sec_websocket_version_def [simp] ws_val_websocket_def [simp] ws_val_upgrade_def [simp]
  ws_val_keep_alive_upgrade_def [simp] HTTP_PROTO_def [simp] HTTPS_PROTO_def [simp] WS_PROTO_def [simp]
  WSS_PROTO_def [simp] PROTO_URLPOSTFIX_def [simp]

lemma utflower_Host [simp]: "utflower ''Host'' = ''host''"
  by (simp add: utflower_def ascii_lower_def char_of_eq_iff)

lemma utflower_Content_Length [simp]: "utflower ''Content-Length'' = ''content-length''"
  by (simp add: utflower_def ascii_lower_def char_of_eq_iff)

end
