(* ===== verification/Http_Request.thy ===== *)
theory Http_Request
  imports Cookie Http_Schema
begin

text \<open>
  The parsed request of \<open>src/HTTP/http_request.h\<close> and its helpers of
  \<open>src/HTTP/http_request.cpp\<close>: \<open>getCookie\<close>, \<open>isWSUpgrade\<close>,
  \<open>isWSHandshake\<close> and \<open>assembleUri\<close>. Header names are the keys of an
  \<open>unordered_map\<close>, modelled as a map. The URI is the string \<open>assembleUri\<close>
  builds; \<open>pa::Uri\<close> (an external class) is read only through its scheme, the text
  before the first colon.
\<close>

record http_request =
  rq_method :: string
  rq_version_major :: int
  rq_version_minor :: int
  rq_is_http :: bool
  rq_headers :: "string \<rightharpoonup> string"
  rq_cookies :: "string \<rightharpoonup> cookie"
  rq_content :: string
  rq_origin :: string
  rq_uri :: string

text \<open>\<open>HTTPRequest()\<close>\<close>

definition empty_request :: http_request where
  "empty_request = \<lparr>rq_method = [], rq_version_major = 0, rq_version_minor = 0, rq_is_http = True,
     rq_headers = Map.empty, rq_cookies = Map.empty, rq_content = [], rq_origin = [], rq_uri = []\<rparr>"

definition uri_scheme :: "string \<Rightarrow> string" where
  "uri_scheme u = takeWhile (\<lambda>c. c \<noteq> CHR '':'') u"

definition getCookie :: "http_request \<Rightarrow> string \<Rightarrow> cookie" where
  "getCookie req n = (case rq_cookies req n of Some c \<Rightarrow> c | None \<Rightarrow> default_cookie)"

definition isWSUpgrade :: "http_request \<Rightarrow> bool" where
  "isWSUpgrade req =
     (case (rq_headers req ws_hdr_upgrade, rq_headers req ws_hdr_connection) of
        (Some u, Some c) \<Rightarrow>
          lexcmpi_eq u ws_val_websocket
          \<and> (lexcmpi_eq c ws_val_upgrade \<or> lexcmpi_eq c ws_val_keep_alive_upgrade)
      | _ \<Rightarrow> False)"

text \<open>
  \<open>isWSHandshake\<close>: the version header is read with \<open>std::stoi\<close>, which the
  code does not guard; its exception is the \<open>Inl\<close> branch. The key test comes first
  and \<open>&&\<close> short-circuits, so an empty key never reaches \<open>stoi\<close>.
\<close>

definition isWSHandshake :: "http_request \<Rightarrow> cpp_exc + bool" where
  "isWSHandshake req =
     (if \<not> isWSUpgrade req \<or> \<not> (uri_scheme (rq_uri req) = WS_PROTO \<or> uri_scheme (rq_uri req) = WSS_PROTO)
      then Inr False
      else case (rq_headers req ws_hdr_sec_websocket_key, rq_headers req ws_hdr_sec_websocket_version) of
        (Some k, Some v) \<Rightarrow>
          (if k = [] then Inr False
           else case stoi v of Inl e \<Rightarrow> Inl e | Inr n \<Rightarrow> Inr (13 \<le> n))
      | _ \<Rightarrow> Inr False)"

text \<open>
  \<open>assembleUri\<close>: the scheme from the upgrade test and the transport, then
  \<open>headers.at("host")\<close>, which throws \<open>std::out_of_range\<close> when there is no host
  header; the request is then left as it was.
\<close>

definition request_scheme :: "http_request \<Rightarrow> string" where
  "request_scheme req =
     (if isWSUpgrade req then (if rq_is_http req then WS_PROTO else WSS_PROTO)
      else (if rq_is_http req then HTTP_PROTO else HTTPS_PROTO))"

definition assembleUri :: "http_request \<Rightarrow> string \<Rightarrow> cpp_exc option \<times> http_request" where
  "assembleUri req frag =
     (case rq_headers req (utflower hdr_host) of
        None \<Rightarrow> (Some Out_of_range, req)
      | Some h \<Rightarrow> (None, req\<lparr>rq_uri := request_scheme req @ PROTO_URLPOSTFIX @ h @ frag\<rparr>))"

declare empty_request_def [model_simps] uri_scheme_def [model_simps] getCookie_def [model_simps]
  isWSUpgrade_def [model_simps] isWSHandshake_def [model_simps] request_scheme_def [model_simps]
  assembleUri_def [model_simps]

lemma uri_scheme_assembled [simp]:
  "CHR '':'' \<notin> set s \<Longrightarrow> uri_scheme (s @ ''://'' @ r) = s"
  by (induction s) (auto simp: uri_scheme_def)

lemma request_scheme_upd_uri [simp]: "request_scheme (req\<lparr>rq_uri := u\<rparr>) = request_scheme req"
  by (simp add: request_scheme_def isWSUpgrade_def)

lemma request_scheme_colon [simp]: "CHR '':'' \<notin> set (request_scheme req)"
  by (simp add: request_scheme_def)

end
