(* ===== verification/Http_Parser.thy ===== *)
theory Http_Parser
  imports Http_Request
begin

text \<open>
  The incremental request parser of \<open>src/HTTP/http_parser.cpp\<close>: the states of
  \<open>Schema::ParserState\<close> (\<open>src/HTTP/http_protocol.h\<close>), the accumulated
  \<open>HTTPParser::Data\<close>, one transition per input byte (\<open>parse_char\<close>, the body
  of the \<open>switch\<close> in \<open>parse_impl\<close>), the loop over a byte range
  (\<open>parse_impl\<close>), \<open>Reset\<close>, \<open>fill_request\<close> and \<open>Parse\<close>, which adds the
  mandatory-host policy, the reset on a terminal result and the zeroing of the
  input buffer.
\<close>

datatype parser_state =
    Method_start | Method | Uri
  | Http_version_h | Http_version_t_1 | Http_version_t_2 | Http_version_p | Http_version_slash
  | Http_version_major_start | Http_version_major | Http_version_minor_start | Http_version_minor
  | Expecting_newline_1 | Header_line_start | Header_lws | Header_name
  | Space_before_header_value | Header_value | Expecting_newline_2 | Expecting_newline_3
  | Body

datatype result = Good | Bad | Indeterminate

record parser_data =
  d_headers :: "(string \<times> string) list"
  d_method :: string
  d_uri :: string
  d_content :: string
  d_version_major :: int
  d_version_minor :: int
  d_content_length :: int

record http_parser =
  p_state :: parser_state
  p_data :: parser_data

definition empty_data :: parser_data where
  "empty_data = \<lparr>d_headers = [], d_method = [], d_uri = [], d_content = [],
     d_version_major = 0, d_version_minor = 0, d_content_length = 0\<rparr>"

text \<open>\<open>HTTPParser()\<close> and \<open>Reset()\<close>: the initial state and fresh data.\<close>

definition parser_reset :: http_parser where
  "parser_reset = \<lparr>p_state = Method_start, p_data = empty_data\<rparr>"

subsection \<open>Character classes\<close>

definition is_char :: "char \<Rightarrow> bool" where
  "is_char c \<longleftrightarrow> 0 \<le> signed_char c \<and> signed_char c \<le> 127"

definition is_ctl :: "char \<Rightarrow> bool" where
  "is_ctl c \<longleftrightarrow> (0 \<le> signed_char c \<and> signed_char c \<le> 31) \<or> signed_char c = 127"

definition is_tspecial :: "char \<Rightarrow> bool" where
  "is_tspecial c \<longleftrightarrow>
     c \<in> set [CHR ''('', CHR '')'', CHR ''<'', CHR ''>'', CHR ''@'', CHR '','', CHR '';'', CHR '':'',
       CHR 0x5C, CHR 0x22, CHR ''/'', CHR ''['', CHR '']'', CHR ''?'', CHR ''='', CHR ''{'', CHR ''}'',
       CHR 0x20, CHR 0x09]"

definition is_digit_p :: "char \<Rightarrow> bool" where
  "is_digit_p c \<longleftrightarrow> 48 \<le> signed_char c \<and> signed_char c \<le> 57"

text \<open>A token character: the negation of \<open>!is_char(c) || is_ctl(c) || is_tspecial(c)\<close>.\<close>

definition is_token :: "char \<Rightarrow> bool" where
  "is_token c \<longleftrightarrow> \<not> (\<not> is_char c \<or> is_ctl c \<or> is_tspecial c)"

subsection \<open>One byte\<close>

text \<open>
  \<open>content.size() == content_length\<close> compares a \<open>size_t\<close> with an \<open>int\<close>:
  the \<open>int\<close> is converted to the 64-bit unsigned type, so a negative length is a huge
  one.
\<close>

definition size_eq :: "nat \<Rightarrow> int \<Rightarrow> bool" where
  "size_eq n i \<longleftrightarrow> (word_of_nat n :: 64 word) = word_of_int i"

definition content_length_header :: "(string \<times> string) list \<Rightarrow> string option" where
  "content_length_header hs =
     map_option snd (find (\<lambda>h. lexcmpi_eq (fst h) ''Content-Length'') hs)"

datatype step = Next http_parser | Stop result http_parser | Throw cpp_exc http_parser

definition set_state :: "parser_state \<Rightarrow> http_parser \<Rightarrow> http_parser" where
  "set_state s p = p\<lparr>p_state := s\<rparr>"

definition upd_data :: "(parser_data \<Rightarrow> parser_data) \<Rightarrow> http_parser \<Rightarrow> http_parser" where
  "upd_data f p = p\<lparr>p_data := f (p_data p)\<rparr>"

definition push_method :: "char \<Rightarrow> parser_data \<Rightarrow> parser_data" where
  "push_method c d = d\<lparr>d_method := d_method d @ [c]\<rparr>"

definition push_uri :: "char \<Rightarrow> parser_data \<Rightarrow> parser_data" where
  "push_uri c d = d\<lparr>d_uri := d_uri d @ [c]\<rparr>"

definition add_major :: "char \<Rightarrow> parser_data \<Rightarrow> parser_data" where
  "add_major c d = d\<lparr>d_version_major := d_version_major d * 10 + (signed_char c - 48)\<rparr>"

definition add_minor :: "char \<Rightarrow> parser_data \<Rightarrow> parser_data" where
  "add_minor c d = d\<lparr>d_version_minor := d_version_minor d * 10 + (signed_char c - 48)\<rparr>"

definition new_header :: "char \<Rightarrow> parser_data \<Rightarrow> parser_data" where
  "new_header c d = d\<lparr>d_headers := d_headers d @ [([c], [])]\<rparr>"

definition push_name :: "char \<Rightarrow> parser_data \<Rightarrow> parser_data" where
  "push_name c d = d\<lparr>d_headers := upd_last (\<lambda>(n, v). (n @ [c], v)) (d_headers d)\<rparr>"

definition push_value :: "char \<Rightarrow> parser_data \<Rightarrow> parser_data" where
  "push_value c d = d\<lparr>d_headers := upd_last (\<lambda>(n, v). (n, v @ [c])) (d_headers d)\<rparr>"

definition push_content :: "char \<Rightarrow> parser_data \<Rightarrow> parser_data" where
  "push_content c d = d\<lparr>d_content := d_content d @ [c]\<rparr>"

abbreviation CR :: char where "CR \<equiv> CHR 0x0D"
abbreviation LF :: char where "LF \<equiv> CHR 0x0A"
abbreviation TAB :: char where "TAB \<equiv> CHR 0x09"
abbreviation SP :: char where "SP \<equiv> CHR '' ''"

text \<open>
  At the blank line: state \<open>body\<close>, the first header named \<open>Content-Length\<close>
  (in any case) read with \<open>std::stoi\<close>, whose exception escapes, and an immediate
  \<open>good\<close> when the length is 0.
\<close>

definition end_of_headers :: "http_parser \<Rightarrow> step" where
  "end_of_headers p =
     (let p1 = set_state Body p in
      case content_length_header (d_headers (p_data p)) of
        None \<Rightarrow> (if d_content_length (p_data p1) = 0 then Stop Good p1 else Next p1)
      | Some v \<Rightarrow>
          (case stoi v of
             Inl e \<Rightarrow> Throw e p1
           | Inr n \<Rightarrow>
               (let p2 = upd_data (\<lambda>d. d\<lparr>d_content_length := n\<rparr>) p1 in
                if n = 0 then Stop Good p2 else Next p2)))"

definition body_byte :: "char \<Rightarrow> http_parser \<Rightarrow> step" where
  "body_byte c p =
     (let p' = upd_data (push_content c) p in
      if size_eq (length (d_content (p_data p'))) (d_content_length (p_data p')) then Stop Good p'
      else Next p')"

fun parse_char :: "http_parser \<Rightarrow> char \<Rightarrow> step" where
  "parse_char p c =
    (case p_state p of
       Method_start \<Rightarrow>
         (if \<not> is_token c then Stop Bad p else Next (set_state Method (upd_data (push_method c) p)))
     | Method \<Rightarrow>
         (if c = SP then Next (set_state Uri p)
          else if \<not> is_token c then Stop Bad p else Next (upd_data (push_method c) p))
     | Uri \<Rightarrow>
         (if c = SP then Next (set_state Http_version_h p)
          else if is_ctl c then Stop Bad p else Next (upd_data (push_uri c) p))
     | Http_version_h \<Rightarrow> (if c = CHR ''H'' then Next (set_state Http_version_t_1 p) else Stop Bad p)
     | Http_version_t_1 \<Rightarrow> (if c = CHR ''T'' then Next (set_state Http_version_t_2 p) else Stop Bad p)
     | Http_version_t_2 \<Rightarrow> (if c = CHR ''T'' then Next (set_state Http_version_p p) else Stop Bad p)
     | Http_version_p \<Rightarrow> (if c = CHR ''P'' then Next (set_state Http_version_slash p) else Stop Bad p)
     | Http_version_slash \<Rightarrow>
         (if c = CHR ''/'' then Next (set_state Http_version_major_start p) else Stop Bad p)
     | Http_version_major_start \<Rightarrow>
         (if is_digit_p c then Next (set_state Http_version_major (upd_data (add_major c) p))
          else Stop Bad p)
     | Http_version_major \<Rightarrow>
         (if c = CHR ''.'' then Next (set_state Http_version_minor_start p)
          else if is_digit_p c then Next (upd_data (add_major c) p) else Stop Bad p)
     | Http_version_minor_start \<Rightarrow>
         (if is_digit_p c then Next (set_state Http_version_minor (upd_data (add_minor c) p))
          else Stop Bad p)
     | Http_version_minor \<Rightarrow>
         (if c = CR then Next (set_state Expecting_newline_1 p)
          else if is_digit_p c then Next (upd_data (add_minor c) p) else Stop Bad p)
     | Expecting_newline_1 \<Rightarrow>
         (if c = LF then Next (set_state Header_line_start p) else Stop Bad p)
     | Header_line_start \<Rightarrow>
         (if c = CR then Next (set_state Expecting_newline_3 p)
          else if d_headers (p_data p) \<noteq> [] \<and> (c = SP \<or> c = TAB) then Next (set_state Header_lws p)
          else if \<not> is_token c then Stop Bad p
          else Next (set_state Header_name (upd_data (new_header c) p)))
     | Header_lws \<Rightarrow>
         (if c = CR then Next (set_state Expecting_newline_2 p)
          else if c = SP \<or> c = TAB then Next p
          else if is_ctl c then Stop Bad p
          else Next (set_state Header_value (upd_data (push_value c) p)))
     | Header_name \<Rightarrow>
         (if c = CHR '':'' then Next (set_state Space_before_header_value p)
          else if \<not> is_token c then Stop Bad p else Next (upd_data (push_name c) p))
     | Space_before_header_value \<Rightarrow>
         (if c = SP then Next (set_state Header_value p) else Stop Bad p)
     | Header_value \<Rightarrow>
         (if c = CR then Next (set_state Expecting_newline_2 p)
          else if is_ctl c then Stop Bad p else Next (upd_data (push_value c) p))
     | Expecting_newline_2 \<Rightarrow>
         (if c = LF then Next (set_state Header_line_start p) else Stop Bad p)
     | Expecting_newline_3 \<Rightarrow>
         (if c = LF then end_of_headers p else Stop Bad p)
     | Body \<Rightarrow> body_byte c p)"

subsection \<open>The loop over a byte range\<close>

text \<open>
  \<open>parse_impl\<close>: one transition per byte until a result or an exception; the
  bytes after the one that ended the message are returned as the third component
  (the code does not look at them).
\<close>

fun parse_impl :: "http_parser \<Rightarrow> string \<Rightarrow> (cpp_exc + result) \<times> http_parser \<times> string" where
  "parse_impl p [] = (Inr Indeterminate, p, [])"
| "parse_impl p (c # cs) =
     (case parse_char p c of
        Next p' \<Rightarrow> parse_impl p' cs
      | Stop r p' \<Rightarrow> (Inr r, p', cs)
      | Throw e p' \<Rightarrow> (Inl e, p', cs))"

subsection \<open>fill_request and Parse\<close>

definition collect_headers :: "(string \<times> string) list \<Rightarrow> string \<rightharpoonup> string" where
  "collect_headers hs = foldl (\<lambda>m (n, v). map_insert m (utflower n) v) Map.empty hs"

definition collect_cookies :: "(string \<rightharpoonup> cookie) \<Rightarrow> cookie list \<Rightarrow> string \<rightharpoonup> cookie" where
  "collect_cookies m cs = foldl (\<lambda>m c. map_insert m (ck_name c) c) m cs"

definition fill_request :: "parser_data \<Rightarrow> http_request \<Rightarrow> cpp_exc option \<times> http_request" where
  "fill_request d req =
     (let hs = collect_headers (d_headers d);
          r1 = req\<lparr>rq_headers := hs, rq_method := d_method d,
                   rq_version_major := d_version_major d, rq_version_minor := d_version_minor d\<rparr>;
          r2 = (case hs hdr_cookie of
                  None \<Rightarrow> r1
                | Some cs \<Rightarrow> r1\<lparr>rq_cookies := collect_cookies (rq_cookies r1) (fromString cs),
                                rq_headers := hs(hdr_cookie := None)\<rparr>);
          r3 = (if rq_headers r2 (utflower hdr_content_length) \<noteq> None
                   \<and> size_eq (length (d_content d)) (d_content_length d)
                then r2\<lparr>rq_content := d_content d\<rparr> else r2)
      in assembleUri r3 (d_uri d))"

text \<open>
  \<open>Parse\<close>: \<open>parse_impl\<close>; on \<open>good\<close>, \<open>fill_request\<close>, whose
  \<open>std::out_of_range\<close> (no host header) turns the result into \<open>bad\<close>; a
  \<open>good\<close> or \<open>bad\<close> result resets the parser; then the input buffer is zeroed
  (the fourth component). An exception of \<open>parse_impl\<close> leaves \<open>Parse\<close>
  before the reset and before the zeroing.
\<close>

definition zeroout :: "string \<Rightarrow> string" where
  "zeroout buf = replicate (length buf) (CHR 0x00)"

definition parse_finish :: "cpp_exc + result \<Rightarrow> http_parser \<Rightarrow> http_request
    \<Rightarrow> (cpp_exc + result) \<times> http_parser \<times> http_request" where
  "parse_finish res p' req =
     (case res of
        Inl e \<Rightarrow> (Inl e, p', req)
      | Inr r \<Rightarrow>
          (if r = Good then
             (case fill_request (p_data p') req of
                (None, q) \<Rightarrow> (Inr Good, parser_reset, q)
              | (Some Out_of_range, q) \<Rightarrow> (Inr Bad, parser_reset, q)
              | (Some e, q) \<Rightarrow> (Inl e, p', q))
           else (Inr r, if r = Indeterminate then p' else parser_reset, req)))"

definition Parse :: "http_parser \<Rightarrow> http_request \<Rightarrow> string
    \<Rightarrow> (cpp_exc + result) \<times> http_parser \<times> http_request \<times> string" where
  "Parse p req buf =
     (case parse_impl p buf of
        (res, p', _) \<Rightarrow>
          (case parse_finish res p' req of
             (r, p'', req') \<Rightarrow> (r, p'', req', case r of Inl _ \<Rightarrow> buf | Inr _ \<Rightarrow> zeroout buf)))"

declare empty_data_def [model_simps] parser_reset_def [model_simps] is_char_def [model_simps]
  is_ctl_def [model_simps] is_tspecial_def [model_simps] is_digit_p_def [model_simps]
  is_token_def [model_simps] size_eq_def [model_simps] content_length_header_def [model_simps]
  set_state_def [model_simps] upd_data_def [model_simps] push_method_def [model_simps]
  push_uri_def [model_simps] add_major_def [model_simps] add_minor_def [model_simps]
  new_header_def [model_simps] push_name_def [model_simps] push_value_def [model_simps]
  push_content_def [model_simps] end_of_headers_def [model_simps] body_byte_def [model_simps]
  collect_headers_def [model_simps] collect_cookies_def [model_simps] fill_request_def [model_simps]
  zeroout_def [model_simps] parse_finish_def [model_simps] Parse_def [model_simps]

subsection \<open>Chunks, invariant and reachable parser states\<close>

text \<open>
  \<open>feed_chunks\<close> is the reading loop of \<open>HTTPConnection::do_read\<close> seen from the
  parser: each chunk goes to \<open>Parse\<close> with a fresh request, the parser state is
  kept while the result is \<open>indeterminate\<close>, and the first other result ends it.
\<close>

fun feed_chunks :: "http_parser \<Rightarrow> http_request \<Rightarrow> string list
    \<Rightarrow> (cpp_exc + result) \<times> http_parser \<times> http_request" where
  "feed_chunks p req [] = (Inr Indeterminate, p, req)"
| "feed_chunks p req (b # bs) =
     (case Parse p req b of
        (Inr Indeterminate, p', _, _) \<Rightarrow> feed_chunks p' req bs
      | (r, p', req', _) \<Rightarrow> (r, p', req'))"

text \<open>
  The invariant of the parser states that persist between calls: in the states that
  append to the last header the header list is not empty (so \<open>headers.back()\<close> is
  defined), the body and its length are untouched before \<open>body\<close>, and in
  \<open>body\<close> the length is a non-zero \<open>int\<close> value that a positive length exceeds the
  bytes collected so far.
\<close>

definition header_states :: "parser_state set" where
  "header_states = {Header_lws, Header_name, Space_before_header_value, Header_value, Expecting_newline_2}"

definition parser_inv :: "http_parser \<Rightarrow> bool" where
  "parser_inv p \<longleftrightarrow>
     (p_state p \<in> header_states \<longrightarrow> d_headers (p_data p) \<noteq> [])
   \<and> (p_state p \<noteq> Body \<longrightarrow> d_content (p_data p) = [] \<and> d_content_length (p_data p) = 0)
   \<and> (p_state p = Body \<longrightarrow> d_content_length (p_data p) \<noteq> 0
        \<and> int_min \<le> d_content_length (p_data p) \<and> d_content_length (p_data p) \<le> int_max
        \<and> (0 < d_content_length (p_data p) \<longrightarrow>
             length (d_content (p_data p)) < nat (d_content_length (p_data p))))"

text \<open>Parser states reachable from \<open>HTTPParser()\<close> by calls of \<open>Parse\<close> that return.\<close>

inductive parser_reachable :: "http_parser \<Rightarrow> bool" where
  init: "parser_reachable parser_reset"
| parse: "parser_reachable p \<Longrightarrow> Parse p req buf = (Inr r, p', req', buf') \<Longrightarrow> parser_reachable p'"


declare parse_char.simps [simp del] parse_char.simps [model_simps]

subsection \<open>Lemmas\<close>



lemma parse_char_no_indeterminate: "parse_char p c \<noteq> Stop Indeterminate p'"
  by (auto simp: parse_char.simps end_of_headers_def body_byte_def Let_def
      split: parser_state.splits option.splits sum.splits)

lemma parse_impl_append:
  "parse_impl p (xs @ ys) =
     (case parse_impl p xs of
        (Inr Indeterminate, p', _) \<Rightarrow> parse_impl p' ys
      | (r, p', rest) \<Rightarrow> (r, p', rest @ ys))"
proof (induction xs arbitrary: p)
  case Nil then show ?case by simp
next
  case (Cons c xs)
  then show ?case
    using parse_char_no_indeterminate [of p c]
    by (cases "parse_char p c") (auto split: prod.splits sum.splits result.splits)
qed

lemma parse_finish_indeterminate:
  "fst (parse_finish res p req) = Inr Indeterminate \<longleftrightarrow> res = Inr Indeterminate"
  by (auto simp: parse_finish_def split: sum.splits prod.splits option.splits cpp_exc.splits)

lemma parse_finish_Indeterminate [simp]:
  "parse_finish (Inr Indeterminate) p req = (Inr Indeterminate, p, req)"
  by (simp add: parse_finish_def)

lemma Parse_core:
  "(case Parse p req buf of (r, p', req', _) \<Rightarrow> (r, p', req'))
     = parse_finish (fst (parse_impl p buf)) (fst (snd (parse_impl p buf))) req"
  by (simp add: Parse_def split: prod.splits)

text \<open>
  C1: chunking invariance. Feeding a byte stream to the parser in chunks, with the
  parser state kept between calls, gives the same result, parser state and request as
  one call of \<open>Parse\<close> on the concatenated bytes.
\<close>

theorem feed_chunks_concat:
  "feed_chunks p req bs = (case Parse p req (concat bs) of (r, p', req', _) \<Rightarrow> (r, p', req'))"
proof (induction bs arbitrary: p)
  case Nil then show ?case by (simp add: Parse_def)
next
  case (Cons b bs)
  obtain r p1 rest where pb: "parse_impl p b = (r, p1, rest)" by (cases "parse_impl p b")
  show ?case
  proof (cases "r = Inr Indeterminate")
    case True
    then have "Parse p req b = (Inr Indeterminate, p1, req, zeroout b)"
      using pb by (simp add: Parse_def)
    moreover have "parse_impl p (b @ concat bs) = parse_impl p1 (concat bs)"
      using pb True by (simp add: parse_impl_append)
    ultimately show ?thesis using Cons.IH by (simp add: Parse_core)
  next
    case False
    then have "parse_impl p (b @ concat bs) = (r, p1, rest @ concat bs)"
      using pb by (simp add: parse_impl_append split: sum.splits result.splits)
    moreover have "fst (parse_finish r p1 req) \<noteq> Inr Indeterminate"
      using False parse_finish_indeterminate by blast
    ultimately show ?thesis using pb
      by (auto simp: Parse_def split: prod.splits sum.splits result.splits)
  qed
qed


lemma foldl_insert_headers:
  "foldl (\<lambda>m (n, v). map_insert m (utflower n) v) m hs k
     = (case m k of Some v \<Rightarrow> Some v | None \<Rightarrow> map_option snd (find (\<lambda>h. utflower (fst h) = k) hs))"
  by (induction hs arbitrary: m) (auto split: option.splits)

lemma collect_headers_first:
  "collect_headers hs k = map_option snd (find (\<lambda>h. utflower (fst h) = k) hs)"
  by (simp add: collect_headers_def foldl_insert_headers)

text \<open>
  C6: the header map of the filled request holds, for each lower-cased name other than
  \<open>cookie\<close>, the value of the first header with that name (\<open>unordered_map::insert\<close>
  does not overwrite); the \<open>cookie\<close> header has been moved into the cookie map and is
  not in it, whether or not \<open>assembleUri\<close> finds a host.
\<close>

theorem request_headers_first:
  "rq_headers (snd (fill_request d req)) k
     = (if k = ''cookie'' then None else map_option snd (find (\<lambda>h. utflower (fst h) = k) (d_headers d)))"
  by (cases "collect_headers (d_headers d) ''cookie''";
      cases "collect_headers (d_headers d) ''host''")
     (simp_all add: fill_request_def assembleUri_def Let_def collect_headers_first [symmetric])

lemma fill_request_host:
  "fst (fill_request d req) = (if collect_headers (d_headers d) ''host'' = None then Some Out_of_range else None)"
  by (cases "collect_headers (d_headers d) ''cookie''";
      cases "collect_headers (d_headers d) ''host''")
     (simp_all add: fill_request_def assembleUri_def Let_def)

lemma fill_request_result:
  assumes "collect_headers (d_headers d) ''host'' = Some h"
  shows "\<exists>q. fill_request d req = (None, q) \<and> rq_method q = d_method d
     \<and> rq_version_major q = d_version_major d \<and> rq_version_minor q = d_version_minor d
     \<and> rq_headers q ''host'' = Some h \<and> rq_uri q = request_scheme q @ ''://'' @ h @ d_uri d"
  by (cases "collect_headers (d_headers d) ''cookie''")
     (simp_all add: assms fill_request_def assembleUri_def Let_def)

text \<open>
  C2: a request that the grammar accepts but that has no \<open>Host\<close> header (in any
  letter case) makes \<open>Parse\<close> return \<open>bad\<close> and reset the parser.
\<close>

theorem Parse_missing_host:
  assumes "fst (parse_impl p buf) = Inr Good"
    and "\<forall>h \<in> set (d_headers (p_data (fst (snd (parse_impl p buf))))). utflower (fst h) \<noteq> ''host''"
  shows "fst (Parse p req buf) = Inr Bad \<and> fst (snd (Parse p req buf)) = parser_reset"
proof -
  obtain p' rest where pi: "parse_impl p buf = (Inr Good, p', rest)"
    using assms(1) by (cases "parse_impl p buf") auto
  have "collect_headers (d_headers (p_data p')) ''host'' = None"
    using assms(2) pi by (auto simp: collect_headers_def foldl_insert_headers find_None_iff)
  then obtain q where "fill_request (p_data p') req = (Some Out_of_range, q)"
    using fill_request_host [of "p_data p'" req] by (cases "fill_request (p_data p') req") auto
  then show ?thesis using pi by (simp add: Parse_def parse_finish_def)
qed

text \<open>
  C9: when the grammar accepts a request with a \<open>Host\<close> header, \<open>Parse\<close>
  returns \<open>good\<close>, resets the parser, zeroes the buffer, and fills the request
  with the method and the URI scheme://host followed by the request path.
\<close>

theorem Parse_good_request:
  assumes "parse_impl p buf = (Inr Good, p', rest)"
    and "collect_headers (d_headers (p_data p')) ''host'' = Some h"
  shows "\<exists>q. Parse p req buf = (Inr Good, parser_reset, q, zeroout buf)
     \<and> rq_method q = d_method (p_data p') \<and> rq_headers q ''host'' = Some h
     \<and> rq_uri q = request_scheme q @ ''://'' @ h @ d_uri (p_data p')"
proof -
  obtain q where f: "fill_request (p_data p') req = (None, q)" and
    props: "rq_method q = d_method (p_data p')" "rq_headers q ''host'' = Some h"
      "rq_uri q = request_scheme q @ ''://'' @ h @ d_uri (p_data p')"
    using fill_request_result [OF assms(2), of req] by blast
  show ?thesis using assms(1) f props by (simp add: Parse_def parse_finish_def)
qed

text \<open>
  C4: whenever \<open>Parse\<close> returns a result, the input buffer is zeroed, and a
  \<open>good\<close> or \<open>bad\<close> result leaves the parser in its initial state.
\<close>

theorem Parse_reset_zeroout:
  "Parse p req buf = (Inr r, p', req', buf') \<Longrightarrow>
     buf' = zeroout buf \<and> (r \<noteq> Indeterminate \<longrightarrow> p' = parser_reset)"
proof -
  assume eq: "Parse p req buf = (Inr r, p', req', buf')"
  obtain res p1 rest where pi: "parse_impl p buf = (res, p1, rest)" by (cases "parse_impl p buf")
  obtain r0 p2 q where pf: "parse_finish res p1 req = (r0, p2, q)" by (cases "parse_finish res p1 req")
  from eq pi pf have r0: "r0 = Inr r" "p' = p2" "buf' = zeroout buf"
    by (auto simp: Parse_def split: sum.splits)
  have "r \<noteq> Indeterminate \<longrightarrow> p2 = parser_reset"
    using pf r0(1) by (auto simp: parse_finish_def split: sum.splits if_splits prod.splits
        option.splits cpp_exc.splits)
  then show ?thesis using r0 by simp
qed

text \<open>
  C5: an exception of \<open>std::stoi\<close> on a malformed \<open>Content-Length\<close> escapes
  \<open>Parse\<close> before the reset and before the zeroing: the buffer is returned as it was.
\<close>

theorem Parse_exception:
  "fst (parse_impl p buf) = Inl e \<Longrightarrow> Parse p req buf = (Inl e, fst (snd (parse_impl p buf)), req, buf)"
  by (auto simp: Parse_def parse_finish_def split: prod.splits)


lemma size_eq_nonneg:
  assumes "0 \<le> i" "i < 2 ^ 64" "n < 2 ^ 64"
  shows "size_eq n i \<longleftrightarrow> int n = i"
proof -
  have "size_eq n i \<longleftrightarrow> (word_of_int (int n) :: 64 word) = word_of_int i"
    by (simp add: size_eq_def)
  also have "\<dots> \<longleftrightarrow> take_bit 64 (int n) = take_bit 64 i"
    by (subst word_of_int_eq_iff) simp
  also have "\<dots> \<longleftrightarrow> int n = i"
    using assms by (simp add: take_bit_int_eq_self)
  finally show ?thesis .
qed

lemma size_eq_negative:
  assumes "i < 0" "- (2 ^ 63) \<le> i" "n < 2 ^ 63"
  shows "\<not> size_eq n i"
proof
  assume "size_eq n i"
  then have "(word_of_int (int n) :: 64 word) = word_of_int i"
    by (simp add: size_eq_def)
  then have "take_bit 64 (int n) = take_bit 64 i"
    by (subst (asm) word_of_int_eq_iff) simp
  moreover have "take_bit 64 (int n) = int n"
    using assms(3) by (simp add: take_bit_int_eq_self)
  moreover have "take_bit 64 i = i + 2 ^ 64"
  proof -
    have "i + 2 ^ 64 < 2 ^ 64" "0 \<le> i + 2 ^ 64" using assms(1,2) by simp_all
    then have "(i + 2 ^ 64) mod 2 ^ 64 = i + 2 ^ 64" by (rule_tac mod_pos_pos_trivial) simp_all
    then show ?thesis by (simp add: take_bit_eq_mod)
  qed
  ultimately show False using assms by simp
qed


lemma parse_char_Body: "p_state p = Body \<Longrightarrow> parse_char p c = body_byte c p"
  by (simp add: parse_char.simps)

lemma upd_data_upd_data [simp]: "upd_data f (upd_data g p) = upd_data (f \<circ> g) p"
  by (simp add: upd_data_def)

lemma upd_data_sel [simp]: "p_state (upd_data f p) = p_state p" "p_data (upd_data f p) = f (p_data p)"
  by (simp_all add: upd_data_def)

text \<open>
  C7: with a negative \<open>Content-Length\<close>, the body state never completes: every
  further byte (below 2^63 in all) is appended and the result stays \<open>indeterminate\<close>.
\<close>

theorem negative_content_length:
  assumes "p_state p = Body" and "d_content_length (p_data p) < 0"
    and "int_min \<le> d_content_length (p_data p)"
    and "length (d_content (p_data p)) + length xs < 2 ^ 63"
  shows "parse_impl p xs = (Inr Indeterminate, upd_data (\<lambda>d. d\<lparr>d_content := d_content d @ xs\<rparr>) p, [])"
  using assms
proof (induction xs arbitrary: p)
  case Nil then show ?case by (simp add: upd_data_def)
next
  case (Cons c xs)
  let ?p1 = "upd_data (push_content c) p"
  have "- (2 ^ 63) \<le> d_content_length (p_data p)"
    using Cons.prems(3) by (simp add: int_min_def)
  then have "\<not> size_eq (length (d_content (p_data ?p1))) (d_content_length (p_data ?p1))"
    using Cons.prems(2,4) by (intro size_eq_negative) (simp_all add: push_content_def)
  then have "parse_char p c = Next ?p1"
    using Cons.prems(1) by (simp add: parse_char_Body body_byte_def Let_def)
  moreover have "parse_impl ?p1 xs
      = (Inr Indeterminate, upd_data (\<lambda>d. d\<lparr>d_content := d_content d @ xs\<rparr>) ?p1, [])"
    using Cons.prems by (intro Cons.IH) (simp_all add: push_content_def)
  ultimately show ?case by (simp add: push_content_def comp_def)
qed

text \<open>
  C8: with a positive \<open>Content-Length\<close> and k bytes missing, the body state
  collects exactly the next k bytes, returns \<open>good\<close>, and leaves the rest of the
  chunk unread.
\<close>

theorem body_complete:
  assumes "p_state p = Body" and "d_content_length (p_data p) = int (length (d_content (p_data p)) + k)"
    and "0 < k" and "k \<le> length xs" and "d_content_length (p_data p) \<le> int_max"
  shows "parse_impl p xs
     = (Inr Good, upd_data (\<lambda>d. d\<lparr>d_content := d_content d @ take k xs\<rparr>) p, drop k xs)"
  using assms
proof (induction xs arbitrary: p k)
  case Nil then show ?case by simp
next
  case (Cons c xs)
  let ?p1 = "upd_data (push_content c) p"
  have len: "length (d_content (p_data ?p1)) < 2 ^ 64" "d_content_length (p_data ?p1) < 2 ^ 64"
    using Cons.prems(2,5) by (simp_all add: push_content_def int_max_def)
  have eqv: "size_eq (length (d_content (p_data ?p1))) (d_content_length (p_data ?p1)) \<longleftrightarrow> k = 1"
    using Cons.prems(2,3) len by (subst size_eq_nonneg) (simp_all add: push_content_def)
  show ?case
  proof (cases "k = 1")
    case True
    then have "parse_char p c = Stop Good ?p1"
      using eqv Cons.prems(1) by (simp add: parse_char_Body body_byte_def Let_def)
    then show ?thesis using True by (simp add: push_content_def comp_def)
  next
    case False
    then have "parse_char p c = Next ?p1"
      using eqv Cons.prems(1) by (simp add: parse_char_Body body_byte_def Let_def)
    moreover have "parse_impl ?p1 xs = (Inr Good,
        upd_data (\<lambda>d. d\<lparr>d_content := d_content d @ take (k - 1) xs\<rparr>) ?p1, drop (k - 1) xs)"
      using Cons.prems False by (intro Cons.IH) (simp_all add: push_content_def)
    ultimately show ?thesis using False Cons.prems(3)
      by (simp add: push_content_def comp_def take_Cons' drop_Cons')
  qed
qed


lemma body_byte_inv:
  assumes "parser_inv p" "p_state p = Body" "body_byte c p = Next p'"
  shows "parser_inv p'"
proof -
  let ?cl = "d_content_length (p_data p)" and ?n = "length (d_content (p_data p))"
  have p': "p' = upd_data (push_content c) p"
    and ne: "\<not> size_eq (Suc ?n) ?cl"
    using assms(3) by (auto simp: body_byte_def Let_def push_content_def split: if_splits)
  have "Suc ?n < nat ?cl" if pos: "0 < ?cl"
  proof -
    have "?n < nat ?cl" using assms(1,2) pos by (simp add: parser_inv_def)
    moreover have "?cl < 2 ^ 64" using assms(1,2) by (simp add: parser_inv_def int_max_def)
    ultimately have "size_eq (Suc ?n) ?cl \<longleftrightarrow> int (Suc ?n) = ?cl"
      using pos by (intro size_eq_nonneg) simp_all
    with ne \<open>?n < nat ?cl\<close> pos show ?thesis by simp
  qed
  then show ?thesis using assms(1,2) p' by (simp add: parser_inv_def push_content_def)
qed

lemma end_of_headers_inv:
  assumes "parser_inv p" "p_state p = Expecting_newline_3" "end_of_headers p = Next p'"
  shows "parser_inv p'"
proof -
  have cl0: "d_content_length (p_data p) = 0" "d_content (p_data p) = []"
    using assms(1,2) by (simp_all add: parser_inv_def)
  obtain v n where h: "content_length_header (d_headers (p_data p)) = Some v" and s: "stoi v = Inr n"
    and n: "n \<noteq> 0" and p': "p' = upd_data (\<lambda>d. d\<lparr>d_content_length := n\<rparr>) (set_state Body p)"
    using assms(3) cl0 by (auto simp: end_of_headers_def Let_def set_state_def
        split: option.splits sum.splits if_splits)
  have "int_min \<le> n \<and> n \<le> int_max" using s by (rule stoi_range)
  then show ?thesis using p' n cl0
    by (simp add: parser_inv_def set_state_def upd_data_def header_states_def)
qed

lemma parse_char_inv:
  assumes "parser_inv p" "parse_char p c = Next p'"
  shows "parser_inv p'"
proof (cases "p_state p")
  case Body
  then show ?thesis using assms body_byte_inv by (simp add: parse_char_Body)
next
  case Expecting_newline_3
  then show ?thesis using assms end_of_headers_inv
    by (auto simp: parse_char.simps split: if_splits)
qed (use assms in \<open>auto simp: parse_char.simps parser_inv_def header_states_def set_state_def
       push_method_def push_uri_def add_major_def add_minor_def new_header_def push_name_def
       push_value_def split: if_splits\<close>)

lemma parse_impl_inv:
  "parser_inv p \<Longrightarrow> parse_impl p xs = (Inr Indeterminate, p', r) \<Longrightarrow> parser_inv p'"
proof (induction xs arbitrary: p)
  case Nil then show ?case by simp
next
  case (Cons c xs)
  then show ?case using parse_char_inv
    by (cases "parse_char p c") (auto simp: parse_char_no_indeterminate)
qed

lemma parser_inv_reset: "parser_inv parser_reset"
  by (simp add: parser_inv_def parser_reset_def empty_data_def header_states_def)

lemma Parse_Inr_parser:
  "Parse p req buf = (Inr r, p', req', buf') \<Longrightarrow>
     p' = parser_reset \<or> parse_impl p buf = (Inr Indeterminate, p', snd (snd (parse_impl p buf)))"
  by (auto simp: Parse_def parse_finish_def split: prod.splits sum.splits option.splits
      cpp_exc.splits if_splits)

text \<open>
  C3: every parser state reachable from the initial one through \<open>Parse\<close> satisfies
  the parser invariant; in particular the states that append to the last header never
  see an empty header list.
\<close>

theorem parser_reachable_inv: "parser_reachable p \<Longrightarrow> parser_inv p"
proof (induction rule: parser_reachable.induct)
  case init then show ?case by (rule parser_inv_reset)
next
  case (parse p req buf r p' req' buf')
  from parse.hyps(2) show ?case
    using parse.IH parser_inv_reset parse_impl_inv by (blast dest: Parse_Inr_parser)
qed

subsection \<open>Witnesses\<close>

lemma parser_reachable_inv_witness:
  "parser_reachable \<lparr>p_state = Header_name, p_data = empty_data\<lparr>d_headers := [(''Ho'', [])],
       d_method := ''GET'', d_uri := ''/'', d_version_major := 1, d_version_minor := 1\<rparr>\<rparr>
   \<and> parser_inv \<lparr>p_state = Header_name, p_data = empty_data\<lparr>d_headers := [(''Ho'', [])],
       d_method := ''GET'', d_uri := ''/'', d_version_major := 1, d_version_minor := 1\<rparr>\<rparr>"
proof -
  let ?b = "''GET / HTTP/1.1'' @ [CR, LF] @ ''Ho''"
  let ?p = "\<lparr>p_state = Header_name, p_data = empty_data\<lparr>d_headers := [(''Ho'', [])],
       d_method := ''GET'', d_uri := ''/'', d_version_major := 1, d_version_minor := 1\<rparr>\<rparr>"
  have "Parse parser_reset empty_request ?b = (Inr Indeterminate, ?p, empty_request, zeroout ?b)"
    by (simp add: model_simps)
  then have r: "parser_reachable ?p" by (rule parser_reachable.parse [OF parser_reachable.init])
  show ?thesis using parser_reachable_inv [OF r] r by simp
qed

lemma Parse_missing_host_witness:
  "fst (parse_impl parser_reset (''GET /x HTTP/1.1'' @ [CR, LF] @ ''Hst: a'' @ [CR, LF, CR, LF])) = Inr Good
   \<and> fst (Parse parser_reset empty_request (''GET /x HTTP/1.1'' @ [CR, LF] @ ''Hst: a'' @ [CR, LF, CR, LF])) = Inr Bad"
proof -
  let ?b = "''GET /x HTTP/1.1'' @ [CR, LF] @ ''Hst: a'' @ [CR, LF, CR, LF]"
  have g: "fst (parse_impl parser_reset ?b) = Inr Good" by (simp add: model_simps)
  have h: "\<forall>h \<in> set (d_headers (p_data (fst (snd (parse_impl parser_reset ?b))))). utflower (fst h) \<noteq> ''host''"
    by (simp add: model_simps)
  show ?thesis using Parse_missing_host [OF g h, of empty_request] g by simp
qed

lemma Parse_reset_zeroout_witness:
  "fst (Parse parser_reset empty_request ''G(ET'') = Inr Bad
   \<and> fst (snd (Parse parser_reset empty_request ''G(ET'')) = parser_reset
   \<and> snd (snd (snd (Parse parser_reset empty_request ''G(ET''))) = replicate 4 (CHR 0x00)"
proof -
  have e: "Parse parser_reset empty_request ''G(ET'' = (Inr Bad, parser_reset, empty_request, zeroout ''G(ET'')"
    by (simp add: model_simps)
  have "zeroout ''G(ET'' = zeroout ''G(ET'' \<and> (Bad \<noteq> Indeterminate \<longrightarrow> parser_reset = parser_reset)"
    by (rule Parse_reset_zeroout [OF e])
  then show ?thesis using e by (simp add: zeroout_def numeral_eq_Suc)
qed

lemma Parse_exception_witness:
  "fst (parse_impl parser_reset (''GET / HTTP/1.1'' @ [CR, LF] @ ''Content-Length: x'' @ [CR, LF, CR, LF]))
     = Inl Invalid_argument
   \<and> Parse parser_reset empty_request (''GET / HTTP/1.1'' @ [CR, LF] @ ''Content-Length: x'' @ [CR, LF, CR, LF])
     = (Inl Invalid_argument,
        fst (snd (parse_impl parser_reset (''GET / HTTP/1.1'' @ [CR, LF] @ ''Content-Length: x'' @ [CR, LF, CR, LF]))),
        empty_request, ''GET / HTTP/1.1'' @ [CR, LF] @ ''Content-Length: x'' @ [CR, LF, CR, LF])"
proof -
  let ?b = "''GET / HTTP/1.1'' @ [CR, LF] @ ''Content-Length: x'' @ [CR, LF, CR, LF]"
  have e: "fst (parse_impl parser_reset ?b) = Inl Invalid_argument" by (simp add: model_simps)
  show ?thesis using Parse_exception [OF e, of empty_request] e by simp
qed

lemma negative_content_length_witness:
  "parse_impl \<lparr>p_state = Body, p_data = empty_data\<lparr>d_content_length := -5\<rparr>\<rparr> ''abcdef''
   = (Inr Indeterminate, \<lparr>p_state = Body, p_data = empty_data\<lparr>d_content_length := -5, d_content := ''abcdef''\<rparr>\<rparr>, [])"
proof -
  let ?p = "\<lparr>p_state = Body, p_data = empty_data\<lparr>d_content_length := -5\<rparr>\<rparr>"
  have "parse_impl ?p ''abcdef''
      = (Inr Indeterminate, upd_data (\<lambda>d. d\<lparr>d_content := d_content d @ ''abcdef''\<rparr>) ?p, [])"
    by (rule negative_content_length) (simp_all add: empty_data_def int_min_def)
  then show ?thesis by (simp add: upd_data_def empty_data_def)
qed

lemma body_complete_witness:
  "parse_impl \<lparr>p_state = Body, p_data = empty_data\<lparr>d_content_length := 3\<rparr>\<rparr> ''abcde''
   = (Inr Good, \<lparr>p_state = Body, p_data = empty_data\<lparr>d_content_length := 3, d_content := ''abc''\<rparr>\<rparr>, ''de'')"
proof -
  let ?p = "\<lparr>p_state = Body, p_data = empty_data\<lparr>d_content_length := 3\<rparr>\<rparr>"
  have "parse_impl ?p ''abcde''
      = (Inr Good, upd_data (\<lambda>d. d\<lparr>d_content := d_content d @ take 3 ''abcde''\<rparr>) ?p, drop 3 ''abcde'')"
    by (rule body_complete) (simp_all add: empty_data_def int_max_def)
  then show ?thesis by (simp add: upd_data_def empty_data_def)
qed

lemma Parse_good_request_witness:
  "\<exists>q. Parse parser_reset empty_request (''GET /x HTTP/1.1'' @ [CR, LF] @ ''Host: a'' @ [CR, LF, CR, LF])
       = (Inr Good, parser_reset, q, zeroout (''GET /x HTTP/1.1'' @ [CR, LF] @ ''Host: a'' @ [CR, LF, CR, LF]))
     \<and> rq_method q = ''GET'' \<and> rq_headers q ''host'' = Some ''a''
     \<and> rq_uri q = request_scheme q @ ''://'' @ ''a'' @ ''/x''"
proof -
  let ?b = "''GET /x HTTP/1.1'' @ [CR, LF] @ ''Host: a'' @ [CR, LF, CR, LF]"
  let ?r = "parse_impl parser_reset ?b"
  have e: "?r = (Inr Good, fst (snd ?r), snd (snd ?r))" by (simp add: model_simps)
  have m: "d_method (p_data (fst (snd ?r))) = ''GET''" "d_uri (p_data (fst (snd ?r))) = ''/x''"
    by (simp_all add: model_simps)
  have h: "collect_headers (d_headers (p_data (fst (snd ?r)))) ''host'' = Some ''a''"
    by (simp add: model_simps)
  show ?thesis using Parse_good_request [OF e h, of empty_request] m by simp
qed

end
