(* ===== verification/Http_Response.thy ===== *)
theory Http_Response
  imports Cookie Http_Schema
begin

text \<open>
  \<open>HTTPResponse\<close> of \<open>src/HTTP/http_response.cpp\<close> and the constants it uses from
  \<open>src/HTTP/http_protocol.h\<close>: the status codes, the status lines of namespace
  \<open>StatusString\<close>, the bodies of namespace \<open>StockReply\<close>, \<open>Magic::crlf\<close> and
  \<open>Magic::name_value_separator\<close>. \<open>to_buffers\<close> gathers the response into
  buffers written one after the other; the model is the string they spell. The headers
  are an \<open>unordered_map\<close>, whose iteration order the C++ does not fix: \<open>to_buffers\<close>
  takes that order as a list of the keys. \<open>read_response\<close> is a reader of the wire
  format (status line, header lines, blank line, body); only the proofs use it.
\<close>

datatype status_code =
    Undefined | Websocket_handshake | Ok | Created | Accepted | No_content
  | Multiple_choices | Moved_permanently | Moved_temporarily | Not_modified
  | Bad_request | Unauthorized | Forbidden | Not_found
  | Internal_server_error | Not_implemented | Bad_gateway | Service_unavailable

text \<open>\<open>Schema::StatusCode\<close>: the value of each enumerator.\<close>

fun status_value :: "status_code \<Rightarrow> nat" where
  "status_value Undefined = 0"
| "status_value Websocket_handshake = 101"
| "status_value Ok = 200"
| "status_value Created = 201"
| "status_value Accepted = 202"
| "status_value No_content = 204"
| "status_value Multiple_choices = 300"
| "status_value Moved_permanently = 301"
| "status_value Moved_temporarily = 302"
| "status_value Not_modified = 304"
| "status_value Bad_request = 400"
| "status_value Unauthorized = 401"
| "status_value Forbidden = 403"
| "status_value Not_found = 404"
| "status_value Internal_server_error = 500"
| "status_value Not_implemented = 501"
| "status_value Bad_gateway = 502"
| "status_value Service_unavailable = 503"

text \<open>\<open>Magic::crlf\<close> and \<open>Magic::name_value_separator\<close>.\<close>

definition crlf :: string where "crlf = [CHR 0x0D, CHR 0x0A]"

definition name_value_separator :: string where "name_value_separator = '': ''"

text \<open>Namespace \<open>StatusString\<close>: the constant named after each status, if there is one.\<close>

fun status_string :: "status_code \<Rightarrow> string option" where
  "status_string Websocket_handshake = Some (''HTTP/1.1 101 Switching Protocols'' @ crlf)"
| "status_string Ok = Some (''HTTP/1.0 200 OK'' @ crlf)"
| "status_string Created = Some (''HTTP/1.0 201 Created'' @ crlf)"
| "status_string Accepted = Some (''HTTP/1.0 202 Accepted'' @ crlf)"
| "status_string No_content = Some (''HTTP/1.0 204 No Content'' @ crlf)"
| "status_string Multiple_choices = Some (''HTTP/1.0 300 Multiple Choices'' @ crlf)"
| "status_string Moved_permanently = Some (''HTTP/1.0 301 Moved Permanently'' @ crlf)"
| "status_string Moved_temporarily = Some (''HTTP/1.0 302 Moved Temporarily'' @ crlf)"
| "status_string Not_modified = Some (''HTTP/1.0 304 Not Modified'' @ crlf)"
| "status_string Bad_request = Some (''HTTP/1.0 400 Bad Request'' @ crlf)"
| "status_string Unauthorized = Some (''HTTP/1.0 401 Unauthorized'' @ crlf)"
| "status_string Forbidden = Some (''HTTP/1.0 403 Forbidden'' @ crlf)"
| "status_string Not_found = Some (''HTTP/1.0 404 Not Found'' @ crlf)"
| "status_string Internal_server_error = Some (''HTTP/1.0 500 Internal Server Error'' @ crlf)"
| "status_string Not_implemented = Some (''HTTP/1.0 501 Not Implemented'' @ crlf)"
| "status_string Bad_gateway = Some (''HTTP/1.0 502 Bad Gateway'' @ crlf)"
| "status_string Service_unavailable = Some (''HTTP/1.0 503 Service Unavailable'' @ crlf)"
| "status_string Undefined = None"

text \<open>Namespace \<open>StockReply\<close>: the HTML body named after each status, if there is one.\<close>

definition stock_html :: "string \<Rightarrow> string \<Rightarrow> string" where
  "stock_html title heading =
     ''<html>'' @ ''<head><title>'' @ title @ ''</title></head>''
     @ ''<body><h1>'' @ heading @ ''</h1></body>'' @ ''</html>''"

fun stock_reply_text :: "status_code \<Rightarrow> string option" where
  "stock_reply_text Ok = Some ''''"
| "stock_reply_text Created = Some (stock_html ''Created'' ''201 Created'')"
| "stock_reply_text Accepted = Some (stock_html ''Accepted'' ''202 Accepted'')"
| "stock_reply_text No_content = Some (stock_html ''No Content'' ''204 Content'')"
| "stock_reply_text Multiple_choices = Some (stock_html ''Multiple Choices'' ''300 Multiple Choices'')"
| "stock_reply_text Moved_permanently = Some (stock_html ''Moved Permanently'' ''301 Moved Permanently'')"
| "stock_reply_text Moved_temporarily = Some (stock_html ''Moved Temporarily'' ''302 Moved Temporarily'')"
| "stock_reply_text Not_modified = Some (stock_html ''Not Modified'' ''304 Not Modified'')"
| "stock_reply_text Bad_request = Some (stock_html ''Bad Request'' ''400 Bad Request'')"
| "stock_reply_text Unauthorized = Some (stock_html ''Unauthorized'' ''401 Unauthorized'')"
| "stock_reply_text Forbidden = Some (stock_html ''Forbidden'' ''403 Forbidden'')"
| "stock_reply_text Not_found = Some (stock_html ''Not Found'' ''404 Not Found'')"
| "stock_reply_text Internal_server_error =
     Some (stock_html ''Internal Server Error'' ''500 Internal Server Error'')"
| "stock_reply_text Not_implemented = Some (stock_html ''Not Implemented'' ''501 Not Implemented'')"
| "stock_reply_text Bad_gateway = Some (stock_html ''Bad Gateway'' ''502 Bad Gateway'')"
| "stock_reply_text Service_unavailable = Some (stock_html ''Service Unavailable'' ''503 Service Unavailable'')"
| "stock_reply_text Websocket_handshake = None"
| "stock_reply_text Undefined = None"

record http_response =
  rs_status :: status_code
  rs_headers :: "string \<rightharpoonup> string"
  rs_content :: string

definition empty_response :: http_response where
  "empty_response = \<lparr>rs_status = Undefined, rs_headers = Map.empty, rs_content = []\<rparr>"

text \<open>
  \<open>status_str_to_buffer\<close> and \<open>stock_reply_str\<close>: a \<open>switch\<close> over the status
  with one \<open>case\<close> per constant and the \<open>internal_server_error\<close> text by default.
\<close>

definition status_str_to_buffer :: "status_code \<Rightarrow> string" where
  "status_str_to_buffer status =
     (case status_string status of Some s \<Rightarrow> s | None \<Rightarrow> the (status_string Internal_server_error))"

definition stock_reply_str :: "status_code \<Rightarrow> string" where
  "stock_reply_str status =
     (case stock_reply_text status of Some s \<Rightarrow> s | None \<Rightarrow> the (stock_reply_text Internal_server_error))"

text \<open>\<open>setCookie\<close>: \<open>headers.insert({set_cookie, c.toString()})\<close>, no overwrite.\<close>

definition setCookie :: "(real \<Rightarrow> string) \<Rightarrow> cookie \<Rightarrow> http_response \<Rightarrow> http_response" where
  "setCookie fmt c r = r\<lparr>rs_headers := map_insert (rs_headers r) hdr_set_cookie (toString fmt c)\<rparr>"

definition stock_reply :: "status_code \<Rightarrow> http_response" where
  "stock_reply status =
     (let rep = empty_response\<lparr>rs_status := status, rs_content := stock_reply_str status\<rparr>;
          rep = rep\<lparr>rs_headers := (rs_headers rep)(''Content-Length'' \<mapsto> nat_to_string (length (rs_content rep)))\<rparr>
      in rep\<lparr>rs_headers := (rs_headers rep)(''Content-Type'' \<mapsto> ''text/html'')\<rparr>)"

text \<open>\<open>to_buffers\<close>, the headers visited in the order \<open>ks\<close>.\<close>

definition to_buffers :: "string list \<Rightarrow> http_response \<Rightarrow> string" where
  "to_buffers ks r =
     status_str_to_buffer (rs_status r)
     @ concat (map (\<lambda>k. k @ name_value_separator @ the (rs_headers r k) @ crlf) ks)
     @ crlf @ rs_content r"

subsection \<open>Reading a response\<close>

fun split_crlf :: "string \<Rightarrow> (string \<times> string) option" where
  "split_crlf [] = None"
| "split_crlf [c] = None"
| "split_crlf (c # d # s) =
     (if c = CHR 0x0D \<and> d = CHR 0x0A then Some ([], s)
      else (case split_crlf (d # s) of None \<Rightarrow> None | Some (l, r) \<Rightarrow> Some (c # l, r)))"

definition split_header :: "string \<Rightarrow> string \<times> string" where
  "split_header l = (takeWhile (\<lambda>c. c \<noteq> CHR '':'') l, drop 2 (dropWhile (\<lambda>c. c \<noteq> CHR '':'') l))"

function read_headers :: "string \<Rightarrow> ((string \<times> string) list \<times> string) option" where
  "read_headers s =
     (case split_crlf s of
        None \<Rightarrow> None
      | Some (l, r) \<Rightarrow>
          if l = [] then Some ([], r)
          else (case read_headers r of None \<Rightarrow> None | Some (hs, body) \<Rightarrow> Some (split_header l # hs, body)))"
  by pat_completeness auto
termination
proof (relation "measure length")
  have shorter: "split_crlf s = Some (l, r) \<Longrightarrow> length r < length s" for s l r
    by (induction s arbitrary: l rule: split_crlf.induct) (auto split: if_splits option.splits)
  show "wf (measure length)" by simp
  show "\<And>s x l r. split_crlf s = Some x \<Longrightarrow> (l, r) = x \<Longrightarrow> l \<noteq> [] \<Longrightarrow> (r, s) \<in> measure length"
    using shorter by auto
qed

declare read_headers.simps [simp del]

definition read_response :: "string \<Rightarrow> (string \<times> (string \<times> string) list \<times> string) option" where
  "read_response s =
     (case split_crlf s of
        None \<Rightarrow> None
      | Some (st, r) \<Rightarrow> (case read_headers r of None \<Rightarrow> None | Some (hs, body) \<Rightarrow> Some (st, hs, body)))"

abbreviation CRc :: char where "CRc \<equiv> CHR 0x0D"

text \<open>A header the reader splits back: no carriage return, no colon in the name.\<close>

definition header_ok :: "string \<times> string \<Rightarrow> bool" where
  "header_ok kv \<longleftrightarrow> CRc \<notin> set (fst kv) \<and> CHR '':'' \<notin> set (fst kv) \<and> CRc \<notin> set (snd kv)"

declare status_value.simps [model_simps] crlf_def [model_simps] name_value_separator_def [model_simps]
  status_string.simps [model_simps] stock_html_def [model_simps] stock_reply_text.simps [model_simps]
  empty_response_def [model_simps] status_str_to_buffer_def [model_simps] stock_reply_str_def [model_simps]
  setCookie_def [model_simps] stock_reply_def [model_simps] to_buffers_def [model_simps]
  split_header_def [model_simps] read_response_def [model_simps]

subsection \<open>Lemmas\<close>

lemma split_crlf_append: "CRc \<notin> set l \<Longrightarrow> split_crlf (l @ crlf @ s) = Some (l, s)"
proof (induction l)
  case Nil
  then show ?case by (simp add: crlf_def)
next
  case (Cons x xs)
  then show ?case by (cases xs) (auto simp: crlf_def)
qed

lemma split_header_line: "CHR '':'' \<notin> set k \<Longrightarrow> split_header (k @ CHR '':'' # CHR '' '' # v) = (k, v)"
  by (simp add: split_header_def takeWhile_append dropWhile_append takeWhile_eq_all_conv dropWhile_eq_Nil_conv)

lemma read_headers_lines:
  "list_all header_ok hs \<Longrightarrow>
   read_headers (concat (map (\<lambda>(k, v). k @ name_value_separator @ v @ crlf) hs) @ crlf @ body) = Some (hs, body)"
proof (induction hs)
  case Nil
  then show ?case by (subst read_headers.simps) (simp add: crlf_def)
next
  case (Cons kv hs)
  obtain k v where kv: "kv = (k, v)" by fastforce
  have ok: "CRc \<notin> set k" "CHR '':'' \<notin> set k" "CRc \<notin> set v" using Cons.prems kv by (simp_all add: header_ok_def)
  then have "CRc \<notin> set (k @ name_value_separator @ v)" by (simp add: name_value_separator_def)
  then have "split_crlf ((k @ name_value_separator @ v) @ crlf @
      (concat (map (\<lambda>(k, v). k @ name_value_separator @ v @ crlf) hs) @ crlf @ body))
    = Some (k @ name_value_separator @ v, concat (map (\<lambda>(k, v). k @ name_value_separator @ v @ crlf) hs) @ crlf @ body)"
    by (rule split_crlf_append)
  then show ?case using Cons ok kv
    by (subst read_headers.simps) (simp add: split_header_line name_value_separator_def)
qed

lemma status_str_line: "\<exists>x. status_str_to_buffer st = x @ crlf \<and> CRc \<notin> set x"
  by (cases st) (simp_all add: status_str_to_buffer_def crlf_def)

lemma map_of_keys: "set ks = dom h \<Longrightarrow> map_of (map (\<lambda>k. (k, the (h k))) ks) = h"
proof (rule ext)
  fix x
  assume d: "set ks = dom h"
  show "map_of (map (\<lambda>k. (k, the (h k))) ks) x = h x"
  proof (cases "x \<in> set ks")
    case True
    then show ?thesis using d by (auto simp: map_of_map_restrict restrict_map_def)
  next
    case False
    then show ?thesis using d by (auto simp: map_of_map_restrict restrict_map_def)
  qed
qed

lemma stock_reply_str_short: "length (stock_reply_str st) \<le> 200"
  by (cases st) (simp_all add: stock_reply_str_def stock_html_def)

lemma stock_reply_fields:
  "rs_status (stock_reply st) = st" "rs_content (stock_reply st) = stock_reply_str st"
  "rs_headers (stock_reply st) = [''Content-Length'' \<mapsto> nat_to_string (length (stock_reply_str st)),
                                 ''Content-Type'' \<mapsto> ''text/html'']"
  by (simp_all add: stock_reply_def empty_response_def)

subsection \<open>Properties of the response\<close>

text \<open>
  C31: the \<open>Content-Length\<close> of every stock reply, read back with \<open>std::stoi\<close> as
  the parser reads it, is the length of the body, and its \<open>Content-Type\<close> is
  \<open>text/html\<close>.
\<close>

theorem stock_reply_content_length:
  "stoi (the (rs_headers (stock_reply st) ''Content-Length'')) = Inr (int (length (rs_content (stock_reply st))))
   \<and> rs_headers (stock_reply st) ''Content-Type'' = Some ''text/html''"
proof -
  have "int (length (stock_reply_str st)) \<le> int_max"
    using stock_reply_str_short [of st] by (simp add: int_max_def)
  then show ?thesis by (simp add: stock_reply_fields stoi_nat_to_string)
qed

text \<open>
  C32: \<open>setCookie\<close> inserts into the header map without overwriting, so of two cookies
  set on one response only the first reaches the client.
\<close>

theorem setCookie_first_wins:
  "rs_headers r ''set-cookie'' = None \<Longrightarrow>
   rs_headers (setCookie fmt c2 (setCookie fmt c1 r)) ''set-cookie'' = Some (toString fmt c1)"
  by (simp add: setCookie_def)

text \<open>
  C33: whatever order the \<open>unordered_map\<close> visits the headers in, the bytes written by
  \<open>to_buffers\<close> are read back as the status line, exactly the response's headers, and
  its body, for headers without carriage returns and names without colons.
\<close>

theorem to_buffers_roundtrip:
  assumes "distinct ks" and "set ks = dom (rs_headers r)"
    and "\<forall>k \<in> set ks. header_ok (k, the (rs_headers r k))"
  shows "\<exists>st hs. read_response (to_buffers ks r) = Some (st, hs, rs_content r)
           \<and> st @ crlf = status_str_to_buffer (rs_status r) \<and> map_of hs = rs_headers r"
proof -
  obtain x where x: "status_str_to_buffer (rs_status r) = x @ crlf" "CRc \<notin> set x"
    using status_str_line by blast
  let ?hs = "map (\<lambda>k. (k, the (rs_headers r k))) ks"
  have ok: "list_all header_ok ?hs" using assms(3) by (simp add: list_all_iff)
  let ?rest = "concat (map (\<lambda>(k, v). k @ name_value_separator @ v @ crlf) ?hs) @ crlf @ rs_content r"
  have h: "read_headers ?rest = Some (?hs, rs_content r)" using ok by (rule read_headers_lines)
  have t: "to_buffers ks r = x @ crlf @ ?rest" by (simp add: to_buffers_def x(1) comp_def)
  have "read_response (to_buffers ks r) = Some (x, ?hs, rs_content r)"
    unfolding t read_response_def split_crlf_append [OF x(2)] using h by simp
  then show ?thesis using x(1) map_of_keys [OF assms(2)] by auto
qed

text \<open>
  A response whose handler set nothing goes out as a 500 status line, no header and
  an empty body: the \<open>undefined\<close> status falls to the default of the \<open>switch\<close>.
\<close>

theorem untouched_response_is_500:
  "to_buffers [] empty_response = ''HTTP/1.0 500 Internal Server Error'' @ crlf @ crlf"
  by (simp add: to_buffers_def empty_response_def status_str_to_buffer_def)

subsection \<open>Witnesses\<close>

lemma setCookie_first_wins_witness:
  "rs_headers empty_response ''set-cookie'' = None
   \<and> rs_headers (setCookie (\<lambda>_. ''never'') (make_cookie ''b'' ''2'') (setCookie (\<lambda>_. ''never'') (make_cookie ''a'' ''1'') empty_response))
       ''set-cookie'' = Some (toString (\<lambda>_. ''never'') (make_cookie ''a'' ''1''))"
proof -
  have h: "rs_headers empty_response ''set-cookie'' = None" by (simp add: empty_response_def)
  show ?thesis using setCookie_first_wins [OF h] h by simp
qed

lemma to_buffers_roundtrip_witness:
  "distinct [''Content-Length'', ''Content-Type'']
   \<and> set [''Content-Length'', ''Content-Type''] = dom (rs_headers (stock_reply Not_found))
   \<and> header_ok (''Content-Length'', the (rs_headers (stock_reply Not_found) ''Content-Length''))
   \<and> header_ok (''Content-Type'', the (rs_headers (stock_reply Not_found) ''Content-Type''))
   \<and> (\<exists>st hs. read_response (to_buffers [''Content-Length'', ''Content-Type''] (stock_reply Not_found))
         = Some (st, hs, rs_content (stock_reply Not_found))
       \<and> st = ''HTTP/1.0 404 Not Found'' \<and> map_of hs = rs_headers (stock_reply Not_found))"
proof -
  have d: "distinct [''Content-Length'', ''Content-Type'']" by simp
  have s: "set [''Content-Length'', ''Content-Type''] = dom (rs_headers (stock_reply Not_found))"
    by (auto simp: stock_reply_fields)
  have o1: "header_ok (''Content-Length'', the (rs_headers (stock_reply Not_found) ''Content-Length''))"
    and o2: "header_ok (''Content-Type'', the (rs_headers (stock_reply Not_found) ''Content-Type''))"
    by (simp_all add: stock_reply_fields header_ok_def stock_reply_str_def stock_html_def nat_to_string.simps
        eq_char_of_iff)
  have o: "\<forall>k \<in> set [''Content-Length'', ''Content-Type'']. header_ok (k, the (rs_headers (stock_reply Not_found) k))"
    using o1 o2 by simp
  have l: "status_str_to_buffer (rs_status (stock_reply Not_found)) = ''HTTP/1.0 404 Not Found'' @ crlf"
    by (simp add: stock_reply_fields status_str_to_buffer_def)
  have ex: "\<exists>st hs. read_response (to_buffers [''Content-Length'', ''Content-Type''] (stock_reply Not_found))
         = Some (st, hs, rs_content (stock_reply Not_found))
       \<and> st = ''HTTP/1.0 404 Not Found'' \<and> map_of hs = rs_headers (stock_reply Not_found)"
    using to_buffers_roundtrip [OF d s o] l by auto
  show ?thesis using d s o1 o2 ex by blast
qed

end
