(* ===== verification/Ws_Frame.thy ===== *)
theory Ws_Frame
  imports Prelude
begin

text \<open>
  The outbound WebSocket codec of \<open>src/ws/ws_proto_impl.cpp\<close> and the constants of
  \<open>src/ws/ws_protocol.h\<close>. Frames are \<open>std::string\<close>s, so bytes are \<open>char\<close>s;
  the payload length is the \<open>size_t\<close> of the message, widened to \<open>uint64_t\<close>
  (\<open>64 word\<close>), and each length byte is \<open>(long_length >> (8 * c)) % 256\<close>.
  The frame reader \<open>decode_frame\<close> is RFC 6455's (server-to-client, unmasked)
  reading of a frame; only the proofs use it. \<open>ws_frame_kind\<close> is the test that
  \<open>WSConnection::handle_read\<close> applies to the two bytes a client sends.
\<close>

text \<open>\<open>Schema::WSFinRsvOpcode\<close> and \<open>Schema::WSClosureStatus\<close>\<close>

definition one_fragment_text :: "8 word" where "one_fragment_text = 129"
definition one_fragment_binary :: "8 word" where "one_fragment_binary = 130"
definition close_connection :: "8 word" where "close_connection = 136"

definition status_normal :: "32 word" where "status_normal = 1000"
definition status_protocol_error :: "32 word" where "status_protocol_error = 1002"
definition status_timeout :: "32 word" where "status_timeout = 4020"

definition be_bytes :: "nat \<Rightarrow> 64 word \<Rightarrow> string" where
  "be_bytes n w = map (\<lambda>c. char_of (unat (drop_bit (8 * c) w))) (rev [0..<n])"

definition fill_text_frame :: "string \<Rightarrow> 8 word \<Rightarrow> string" where
  "fill_text_frame message opcode =
     (let len = length message; long_length = (word_of_nat len :: 64 word)
      in [char_of (unat opcode)]
         @ (if 126 \<le> len then
              (if 0xffff < len then [char_of (127::nat)] @ be_bytes 8 long_length
               else [char_of (126::nat)] @ be_bytes 2 long_length)
            else [char_of len])
         @ message)"

definition fill_closing_frame :: "32 word \<Rightarrow> string \<Rightarrow> string" where
  "fill_closing_frame status reason =
     [char_of (unat (drop_bit 8 status)), char_of (unat status mod 256)] @ reason"

subsection \<open>The client's two bytes\<close>

datatype frame_kind = Unmasked_frame | Close_frame | Other_masked_frame

text \<open>
  \<open>if (mask < 128) ... else if (8 == opcode & 0x0f) ... else ...\<close>: in C++ \<open>==\<close>
  binds tighter than \<open>&\<close>, so the second test is \<open>(8 == opcode) & 0x0f\<close>.
\<close>

definition ws_frame_kind :: "char \<Rightarrow> char \<Rightarrow> frame_kind" where
  "ws_frame_kind b0 b1 =
     (if (of_char b1 :: nat) < 128 then Unmasked_frame
      else if (of_char b0 :: nat) = 8 then Close_frame
      else Other_masked_frame)"

subsection \<open>Reading a frame (RFC 6455, section 5.2)\<close>

definition be_value :: "string \<Rightarrow> nat" where
  "be_value bs = foldl (\<lambda>acc c. acc * 256 + of_char c) 0 bs"

definition decode_frame :: "string \<Rightarrow> (8 word \<times> string) option" where
  "decode_frame f =
     (case f of
        b0 # b1 # rest \<Rightarrow>
          (let l = (of_char b1 :: nat);
               (n, payload) =
                 (if l < 126 then (l, rest)
                  else if l = 126 then (be_value (take 2 rest), drop 2 rest)
                  else (be_value (take 8 rest), drop 8 rest))
           in if l \<le> 127 \<and> (l = 126 \<longrightarrow> 126 \<le> n \<and> 2 \<le> length rest)
                 \<and> (l = 127 \<longrightarrow> 0xffff < n \<and> 8 \<le> length rest) \<and> length payload = n
              then Some (word_of_nat (of_char b0), payload) else None)
      | _ \<Rightarrow> None)"

definition frame_header_length :: "nat \<Rightarrow> nat" where
  "frame_header_length n = (if n < 126 then 2 else if n \<le> 0xffff then 4 else 10)"

declare one_fragment_text_def [model_simps] one_fragment_binary_def [model_simps]
  close_connection_def [model_simps] status_normal_def [model_simps]
  status_protocol_error_def [model_simps] status_timeout_def [model_simps]
  be_bytes_def [model_simps] fill_text_frame_def [model_simps] fill_closing_frame_def [model_simps]
  ws_frame_kind_def [model_simps] be_value_def [model_simps] decode_frame_def [model_simps]
  frame_header_length_def [model_simps]

subsection \<open>Lemmas\<close>


lemma foldl_be_shift:
  fixes a :: nat
  shows "foldl (\<lambda>acc c. acc * 256 + of_char c) a cs
      = a * 256 ^ length cs + foldl (\<lambda>acc c. acc * 256 + of_char c) 0 cs"
proof (induction cs arbitrary: a)
  case Nil then show ?case by simp
next
  case (Cons d ds)
  let ?F = "foldl (\<lambda>acc c. acc * 256 + (of_char c :: nat))"
  have "?F a (d # ds) = ?F (a * 256 + of_char d) ds" by simp
  also have "\<dots> = (a * 256 + of_char d) * 256 ^ length ds + ?F 0 ds" by (rule Cons.IH)
  also have "\<dots> = a * 256 ^ length (d # ds) + (of_char d * 256 ^ length ds + ?F 0 ds)"
    by (simp add: algebra_simps)
  also have "of_char d * 256 ^ length ds + ?F 0 ds = ?F 0 (d # ds)"
    using Cons.IH [of "of_char d"] by simp
  finally show ?case .
qed

lemma be_value_Cons: "be_value (c # cs) = of_char c * 256 ^ length cs + be_value cs"
  using foldl_be_shift [of "of_char c" cs] by (simp add: be_value_def)

lemma length_be_bytes [simp]: "length (be_bytes n w) = n"
  by (simp add: be_bytes_def)

lemma be_bytes_Suc: "be_bytes (Suc n) w = char_of (unat (drop_bit (8 * n) w)) # be_bytes n w"
  by (simp add: be_bytes_def)

lemma unat_drop_bit_div: "unat (drop_bit k w) = unat w div 2 ^ k"
  by (simp only: unat_drop_bit_eq) (simp add: drop_bit_eq_div)

lemma be_value_be_bytes: "be_value (be_bytes n w) = unat w mod 2 ^ (8 * n)"
proof (induction n)
  case 0 then show ?case by (simp add: be_bytes_def be_value_def)
next
  case (Suc n)
  have "be_value (be_bytes (Suc n) w)
      = (unat w div 2 ^ (8 * n)) mod 256 * 256 ^ n + unat w mod 2 ^ (8 * n)"
    by (simp add: be_bytes_Suc be_value_Cons Suc unat_drop_bit_div)
  also have "\<dots> = unat w mod (2 ^ (8 * n) * 256)"
    by (simp add: mod_mult2_eq power_mult)
  also have "(2::nat) ^ (8 * n) * 256 = 2 ^ (8 * Suc n)"
    by (simp add: power_add)
  finally show ?case .
qed


lemma of_char_char_of_small [simp]: "n < 256 \<Longrightarrow> (of_char (char_of n) :: nat) = n"
  by simp

lemma unat_word_of_nat_small: "n < 2 ^ 64 \<Longrightarrow> unat (word_of_nat n :: 64 word) = n"
  by (simp add: unat_of_nat take_bit_nat_eq_self)

lemma unat_byte_mod [simp]: "unat (w :: 8 word) mod 256 = unat w"
proof -
  have "unat w < 2 ^ LENGTH(8)" by (rule unsigned_less)
  then show ?thesis by simp
qed

text \<open>
  The frame is the message behind a header of 2, 4 or 10 bytes: one length
  byte below 126, 126 and two length bytes up to 65535, 127 and eight length bytes above.
\<close>

lemma fill_text_frame_length:
  "length (fill_text_frame msg op) = frame_header_length (length msg) + length msg"
  by (simp add: fill_text_frame_def frame_header_length_def Let_def)

text \<open>
  C14: an outbound frame is read back by an RFC 6455 frame reader as the opcode
  and the message it was built from, for every message shorter than 2^64 bytes.
\<close>

theorem fill_text_frame_roundtrip:
  assumes "length msg < 2 ^ 64"
  shows "decode_frame (fill_text_frame msg op) = Some (op, msg)"
proof -
  let ?n = "length msg" and ?w = "word_of_nat (length msg) :: 64 word"
  have uw: "unat ?w = ?n" using assms by (rule unat_word_of_nat_small)
  consider (short) "?n < 126" | (mid) "126 \<le> ?n" "?n \<le> 0xffff" | (long) "0xffff < ?n" by linarith
  then show ?thesis
  proof cases
    case short
    then show ?thesis by (simp add: fill_text_frame_def decode_frame_def Let_def)
  next
    case mid
    have "be_value (be_bytes 2 ?w) = ?n"
      using mid by (simp add: be_value_be_bytes uw)
    then show ?thesis using mid by (simp add: fill_text_frame_def decode_frame_def Let_def)
  next
    case long
    have "be_value (be_bytes 8 ?w) = ?n"
      using assms by (simp add: be_value_be_bytes uw)
    then show ?thesis using long by (simp add: fill_text_frame_def decode_frame_def Let_def)
  qed
qed

text \<open>
  For a status code below 65536 the close payload starts with the code in two
  big-endian bytes, followed by the reason.
\<close>

theorem fill_closing_frame_roundtrip:
  assumes "unat status < 65536"
  shows "be_value (take 2 (fill_closing_frame status reason)) = unat status
     \<and> drop 2 (fill_closing_frame status reason) = reason"
proof -
  have "unat status div 256 < 256" using assms by simp
  then show ?thesis
    by (simp add: fill_closing_frame_def be_value_def unat_drop_bit_div)
qed

text \<open>
  C17: the test \<open>8 == opcode & 0x0f\<close> of \<open>handle_read\<close> never recognises a
  final (FIN bit set) frame as a close frame: the comparison is evaluated before the mask.
\<close>

theorem client_close_frame_misread:
  "128 \<le> (of_char b0 :: nat) \<Longrightarrow> ws_frame_kind b0 b1 \<noteq> Close_frame"
  by (simp add: ws_frame_kind_def)

subsection \<open>Witnesses\<close>

lemma fill_text_frame_roundtrip_witness:
  "length ''abc'' < 2 ^ 64 \<and> decode_frame (fill_text_frame ''abc'' one_fragment_text) = Some (one_fragment_text, ''abc'')"
  using fill_text_frame_roundtrip [of "''abc''" one_fragment_text] by simp

lemma frame_header_thresholds:
  "map frame_header_length [0, 125, 126, 65535, 65536] = [2, 2, 4, 4, 10]"
  by (simp add: frame_header_length_def)

lemma fill_closing_frame_roundtrip_witness:
  "unat status_normal < 65536
   \<and> be_value (take 2 (fill_closing_frame status_normal ''bye'')) = 1000
   \<and> drop 2 (fill_closing_frame status_normal ''bye'') = ''bye''"
proof -
  have h: "unat status_normal < 65536" by (simp add: status_normal_def)
  show ?thesis using fill_closing_frame_roundtrip [OF h, of "''bye''"] h by (simp add: status_normal_def)
qed

lemma client_close_frame_misread_witness:
  "128 \<le> (of_char (CHR 0x88) :: nat) \<and> ws_frame_kind (CHR 0x88) (CHR 0x80) \<noteq> Close_frame
   \<and> ws_frame_kind (CHR 0x88) (CHR 0x80) = Other_masked_frame"
proof -
  have h: "128 \<le> (of_char (CHR 0x88) :: nat)" by simp
  show ?thesis using client_close_frame_misread [OF h, of "CHR 0x80"] h by (simp add: ws_frame_kind_def)
qed

end
