(* ===== verification/Ws_Connection.thy ===== *)
theory Ws_Connection
  imports Ws_Frame
begin

text \<open>
  The push-only WebSocket connection of \<open>src/ws/ws_connection.cpp\<close>. The state
  is the record \<open>ws_conn\<close>: the \<open>closed_\<close> flag, the send queue \<open>send_q_\<close>,
  the outstanding asynchronous operations (the two-byte read issued by \<open>Start\<close>,
  the writes issued by \<open>write\<close> and \<open>handle_write\<close>), whether the socket is
  still open, the frames the socket has completely written (\<open>wire\<close>), and the
  ordered log of what the connection does outside itself: the \<open>WebServer::ws_on*\<close>
  notifications and the three socket calls of the teardown.

  Each operation is one function, the whole body of the C++ method. The
  environment's part (when a completion arrives and with which error code, when
  \<open>WSPush\<close> or \<open>WSClose\<close> are called) is the inductive relation \<open>ws_step\<close>:
  any enabled operation may come next, which covers every interleaving of the
  completion handlers, since the queue is under a mutex and \<open>stop\<close> is guarded by
  a compare-and-swap, so each operation acts atomically on the state it changes.
\<close>

datatype io_result = Io_ok | Io_aborted | Io_error

datatype ws_event =
    On_open | On_error | On_close | On_message_out string
  | Sock_cancel | Sock_shutdown | Sock_close

record ws_conn =
  ws_closed :: bool
  send_q :: "string list"
  read_pending :: bool
  writes_pending :: nat
  sock_open :: bool
  wire :: "string list"
  ws_log :: "ws_event list"

text \<open>The constructor: \<open>closed_(false)\<close>, an empty queue, the socket taken over open.\<close>

definition ws_new :: ws_conn where
  "ws_new = \<lparr>ws_closed = False, send_q = [], read_pending = False, writes_pending = 0,
     sock_open = True, wire = [], ws_log = []\<rparr>"

text \<open>\<open>Start\<close>: \<open>ws_onopen\<close>, then the read of a two-byte frame header.\<close>

definition ws_start :: "ws_conn \<Rightarrow> ws_conn" where
  "ws_start c = c\<lparr>ws_log := ws_log c @ [On_open], read_pending := True\<rparr>"

text \<open>
  \<open>stop\<close>: only the caller that turns \<open>closed_\<close> from false to true goes on; it
  notifies \<open>ws_onclose\<close> and runs \<open>_cancel\<close>, \<open>_shutdown\<close>, \<open>_close\<close>.
\<close>

definition ws_stop :: "ws_conn \<Rightarrow> ws_conn" where
  "ws_stop c =
     (if ws_closed c then c
      else c\<lparr>ws_closed := True, sock_open := False,
             ws_log := ws_log c @ [On_close, Sock_cancel, Sock_shutdown, Sock_close]\<rparr>)"

text \<open>
  \<open>write\<close>: encode, notify \<open>ws_onmessageout\<close>, append under the lock, stop on
  more than 100 entries, and start a write when the queue holds exactly one entry.
\<close>

definition ws_write :: "string \<Rightarrow> 8 word \<Rightarrow> ws_conn \<Rightarrow> ws_conn" where
  "ws_write message opcode c =
     (let result = fill_text_frame message opcode;
          c1 = c\<lparr>ws_log := ws_log c @ [On_message_out result], send_q := send_q c @ [result]\<rparr>;
          c2 = (if 100 < length (send_q c1) then ws_stop c1 else c1)
      in if length (send_q c2) = 1 then c2\<lparr>writes_pending := Suc (writes_pending c2)\<rparr> else c2)"

text \<open>
  \<open>handle_write\<close>: the completion of the write of the front entry. On an error,
  \<open>ws_onerror\<close> unless the operation was aborted, the queue is cleared and the
  connection stopped; otherwise the front entry has been written, it is erased, and
  the next one is written if there is one.
\<close>

definition ws_handle_write :: "io_result \<Rightarrow> ws_conn \<Rightarrow> ws_conn" where
  "ws_handle_write r c =
     (let c0 = c\<lparr>writes_pending := writes_pending c - 1\<rparr> in
      if r \<noteq> Io_ok then
        ws_stop ((c0\<lparr>ws_log := ws_log c0 @ (if r = Io_aborted then [] else [On_error])\<rparr>)\<lparr>send_q := []\<rparr>)
      else
        (let c1 = c0\<lparr>wire := wire c0 @ [hd (send_q c0)], send_q := tl (send_q c0)\<rparr> in
         if send_q c1 \<noteq> [] then c1\<lparr>writes_pending := Suc (writes_pending c1)\<rparr> else c1))"

text \<open>
  \<open>handle_read\<close>: any completion of the two-byte read (a client frame, an error or
  the abort caused by a teardown) stops the connection, after \<open>ws_onerror\<close> for a
  real error. What the two bytes hold only changes the log message.
\<close>

definition ws_handle_read :: "io_result \<Rightarrow> ws_conn \<Rightarrow> ws_conn" where
  "ws_handle_read r c =
     ws_stop (c\<lparr>read_pending := False,
                ws_log := ws_log c @ (if r = Io_error then [On_error] else [])\<rparr>)"

text \<open>\<open>~WSConnection\<close>: stop if the connection was not closed.\<close>

definition ws_destroy :: "ws_conn \<Rightarrow> ws_conn" where
  "ws_destroy c = (if \<not> ws_closed c then ws_stop c else c)"

text \<open>\<open>Forward(uint)\<close> stops the connection, \<open>Forward(string)\<close> writes a text frame.\<close>

datatype forward_arg = Fwd_close "32 word" | Fwd_push string

definition Forward :: "forward_arg \<Rightarrow> ws_conn \<Rightarrow> ws_conn" where
  "Forward a c = (case a of Fwd_close _ \<Rightarrow> ws_stop c | Fwd_push m \<Rightarrow> ws_write m one_fragment_text c)"

subsection \<open>Runs\<close>

text \<open>
  What may happen next to a started connection: a forwarded push or close, or the
  completion of an outstanding write or read. A completion without error needs an
  open socket; after the teardown, outstanding operations complete aborted or with
  an error.
\<close>

inductive ws_step :: "ws_conn \<Rightarrow> ws_conn \<Rightarrow> bool" where
  forward: "ws_step c (Forward a c)"
| write_done: "0 < writes_pending c \<Longrightarrow> (r = Io_ok \<longrightarrow> sock_open c) \<Longrightarrow> ws_step c (ws_handle_write r c)"
| read_done: "read_pending c \<Longrightarrow> (r = Io_ok \<longrightarrow> sock_open c) \<Longrightarrow> ws_step c (ws_handle_read r c)"

inductive ws_reachable :: "ws_conn \<Rightarrow> bool" where
  start: "ws_reachable (ws_start ws_new)"
| step: "ws_reachable c \<Longrightarrow> ws_step c c' \<Longrightarrow> ws_reachable c'"

text \<open>The frames handed to \<open>ws_onmessageout\<close>, in order: every frame accepted by \<open>write\<close>.\<close>

fun messages_out :: "ws_event list \<Rightarrow> string list" where
  "messages_out [] = []"
| "messages_out (On_message_out f # es) = f # messages_out es"
| "messages_out (_ # es) = messages_out es"

subsection \<open>The invariant of a started connection\<close>

text \<open>
  At most one write is in flight, and one exactly when the queue is not empty; the
  queue is the tail of the frames reported to \<open>ws_onmessageout\<close>; the frames
  written and queued are, in order, among the reported ones, and all of them while the
  connection is open; the close notification and the socket's \<open>close\<close> happened
  once if the connection is closed and never otherwise; the socket is open exactly
  while the connection is.
\<close>

definition ws_inv :: "ws_conn \<Rightarrow> bool" where
  "ws_inv c \<longleftrightarrow>
     writes_pending c = (if send_q c = [] then 0 else 1)
   \<and> suffix (send_q c) (messages_out (ws_log c))
   \<and> subseq (wire c @ send_q c) (messages_out (ws_log c))
   \<and> count_list (ws_log c) On_close = (if ws_closed c then 1 else 0)
   \<and> count_list (ws_log c) Sock_close = (if ws_closed c then 1 else 0)
   \<and> (sock_open c \<longleftrightarrow> \<not> ws_closed c)
   \<and> (\<not> ws_closed c \<longrightarrow> wire c @ send_q c = messages_out (ws_log c))"

declare ws_new_def [model_simps] ws_start_def [model_simps] ws_stop_def [model_simps]
  ws_write_def [model_simps] ws_handle_write_def [model_simps] ws_handle_read_def [model_simps]
  ws_destroy_def [model_simps] Forward_def [model_simps]

subsection \<open>Lemmas\<close>

lemma messages_out_append [simp]: "messages_out (xs @ ys) = messages_out xs @ messages_out ys"
  by (induction xs rule: messages_out.induct) auto

lemma messages_out_replicate [simp]:
  "messages_out (replicate n (On_message_out f)) = replicate n f"
  by (induction n) simp_all

lemma ws_stop_fields [simp]:
  "send_q (ws_stop c) = send_q c" "writes_pending (ws_stop c) = writes_pending c"
  "wire (ws_stop c) = wire c" "read_pending (ws_stop c) = read_pending c"
  "ws_closed (ws_stop c)"
  "messages_out (ws_log (ws_stop c)) = messages_out (ws_log c)"
  by (simp_all add: ws_stop_def)

lemma ws_stop_inv: "ws_inv c \<Longrightarrow> ws_inv (ws_stop c)"
  by (auto simp: ws_inv_def ws_stop_def)

lemma ws_inv_start: "ws_inv (ws_start ws_new)"
  by (simp add: ws_inv_def ws_start_def ws_new_def)

lemma ws_write_inv: "ws_inv c \<Longrightarrow> ws_inv (ws_write m op c)"
proof -
  assume inv: "ws_inv c"
  let ?f = "fill_text_frame m op"
  have sub: "subseq ((wire c @ send_q c) @ [?f]) (messages_out (ws_log c) @ [?f])"
    using inv by (intro list_emb_append_mono) (simp_all add: ws_inv_def)
  have suf: "suffix (send_q c @ [?f]) (messages_out (ws_log c) @ [?f])"
    using inv by (simp add: ws_inv_def)
  show ?thesis
  proof (cases "send_q c = []")
    case True
    then show ?thesis using inv sub suf by (simp add: ws_write_def Let_def ws_inv_def)
  next
    case False
    let ?c1 = "c\<lparr>ws_log := ws_log c @ [On_message_out ?f], send_q := send_q c @ [?f]\<rparr>"
    have i1: "ws_inv ?c1" using inv sub suf False by (simp add: ws_inv_def)
    have "length (send_q c @ [?f]) \<noteq> 1" using False by simp
    then have "ws_write m op c = (if 100 < length (send_q ?c1) then ws_stop ?c1 else ?c1)"
      by (simp add: ws_write_def Let_def)
    then show ?thesis using i1 ws_stop_inv by simp
  qed
qed

lemma ws_stop_inv_closed:
  assumes "writes_pending d = (if send_q d = [] then 0 else 1)"
    "suffix (send_q d) (messages_out (ws_log d))"
    "subseq (wire d @ send_q d) (messages_out (ws_log d))"
    "count_list (ws_log d) On_close = (if ws_closed d then 1 else 0)"
    "count_list (ws_log d) Sock_close = (if ws_closed d then 1 else 0)"
    "sock_open d \<longleftrightarrow> \<not> ws_closed d"
  shows "ws_inv (ws_stop d)"
proof (cases "ws_closed d")
  case True
  then show ?thesis using assms by (simp add: ws_inv_def ws_stop_def)
next
  case False
  then show ?thesis using assms by (simp add: ws_inv_def ws_stop_def)
qed

lemma ws_invD:
  assumes "ws_inv c"
  shows "writes_pending c = (if send_q c = [] then 0 else 1)"
    "suffix (send_q c) (messages_out (ws_log c))"
    "subseq (wire c @ send_q c) (messages_out (ws_log c))"
    "count_list (ws_log c) On_close = (if ws_closed c then 1 else 0)"
    "count_list (ws_log c) Sock_close = (if ws_closed c then 1 else 0)"
    "sock_open c \<longleftrightarrow> \<not> ws_closed c"
    "\<not> ws_closed c \<Longrightarrow> wire c @ send_q c = messages_out (ws_log c)"
  using assms by (simp_all add: ws_inv_def)

lemma ws_handle_write_inv:
  assumes inv: "ws_inv c" and pend: "0 < writes_pending c"
  shows "ws_inv (ws_handle_write r c)"
proof -
  note I = ws_invD [OF inv]
  obtain x xs where qx: "send_q c = x # xs"
    using I(1) pend by (cases "send_q c") auto
  have p1: "writes_pending c = 1" using I(1) qx by simp
  show ?thesis
  proof (cases "r = Io_ok")
    case True
    have "suffix xs (messages_out (ws_log c))" using I(2) qx by (simp add: suffix_ConsD)
    moreover have "ws_handle_write r c
        = c\<lparr>writes_pending := (if xs = [] then 0 else 1), wire := wire c @ [x], send_q := xs\<rparr>"
      using True qx p1 by (simp add: ws_handle_write_def Let_def)
    ultimately show ?thesis using I qx by (simp add: ws_inv_def)
  next
    case False
    have "subseq (wire c) (messages_out (ws_log c))" using I(3) by (rule subseq_append_left)
    moreover have eq: "ws_handle_write r c
        = ws_stop (c\<lparr>writes_pending := 0, ws_log := ws_log c @ (if r = Io_aborted then [] else [On_error]),
                     send_q := []\<rparr>)"
      using False p1 by (simp add: ws_handle_write_def Let_def)
    ultimately show ?thesis using I
      unfolding eq by (intro ws_stop_inv_closed) simp_all
  qed
qed

lemma ws_handle_read_inv: "ws_inv c \<Longrightarrow> ws_inv (ws_handle_read r c)"
  by (auto simp: ws_handle_read_def ws_inv_def ws_stop_def)

lemma Forward_inv: "ws_inv c \<Longrightarrow> ws_inv (Forward a c)"
  by (cases a) (simp_all add: Forward_def ws_stop_inv ws_write_inv)

lemma ws_step_inv: "ws_step c c' \<Longrightarrow> ws_inv c \<Longrightarrow> ws_inv c'"
  by (induction rule: ws_step.induct) (simp_all add: Forward_inv ws_handle_write_inv ws_handle_read_inv)

lemma ws_reachable_inv: "ws_reachable c \<Longrightarrow> ws_inv c"
  by (induction rule: ws_reachable.induct) (simp_all add: ws_inv_start ws_step_inv)

lemma ws_step_closed_mono: "ws_step c c' \<Longrightarrow> ws_closed c \<Longrightarrow> ws_closed c'"
  by (induction rule: ws_step.induct)
     (auto simp: Forward_def ws_write_def ws_handle_write_def ws_handle_read_def Let_def ws_stop_def
           split: forward_arg.splits)

lemma ws_drain:
  "ws_inv c \<Longrightarrow> \<not> ws_closed c \<Longrightarrow> length (send_q c) = n \<Longrightarrow>
   ws_step\<^sup>*\<^sup>* c ((ws_handle_write Io_ok ^^ n) c)
   \<and> send_q ((ws_handle_write Io_ok ^^ n) c) = []
   \<and> wire ((ws_handle_write Io_ok ^^ n) c) = wire c @ send_q c
   \<and> ws_log ((ws_handle_write Io_ok ^^ n) c) = ws_log c"
proof (induction n arbitrary: c)
  case 0
  then show ?case by simp
next
  case (Suc n)
  note I = ws_invD [OF Suc.prems(1)]
  obtain x xs where qx: "send_q c = x # xs" using Suc.prems(3) by (cases "send_q c") auto
  let ?c1 = "ws_handle_write Io_ok c"
  have pend: "0 < writes_pending c" using I(1) qx by simp
  have step: "ws_step c ?c1" using pend I(6) Suc.prems(2) by (intro ws_step.write_done) simp_all
  have c1: "send_q ?c1 = xs" "wire ?c1 = wire c @ [x]" "ws_log ?c1 = ws_log c" "\<not> ws_closed ?c1"
    using qx I(1) Suc.prems(2) by (simp_all add: ws_handle_write_def Let_def)
  have "ws_inv ?c1" using Suc.prems(1) pend by (rule ws_handle_write_inv)
  then have IH: "ws_step\<^sup>*\<^sup>* ?c1 ((ws_handle_write Io_ok ^^ n) ?c1)
     \<and> send_q ((ws_handle_write Io_ok ^^ n) ?c1) = []
     \<and> wire ((ws_handle_write Io_ok ^^ n) ?c1) = wire ?c1 @ send_q ?c1
     \<and> ws_log ((ws_handle_write Io_ok ^^ n) ?c1) = ws_log ?c1"
    using Suc.IH c1 qx Suc.prems(3) by simp
  have "(ws_handle_write Io_ok ^^ Suc n) c = (ws_handle_write Io_ok ^^ n) ?c1"
    by (simp only: funpow_Suc_right comp_def)
  then show ?case using IH step c1 qx by (simp add: converse_rtranclp_into_rtranclp)
qed

lemma ws_writes_fresh:
  "n \<le> 100 \<Longrightarrow> (ws_write m op ^^ n) (ws_start ws_new)
     = \<lparr>ws_closed = False, send_q = replicate n (fill_text_frame m op), read_pending = True,
        writes_pending = (if n = 0 then 0 else 1), sock_open = True, wire = [],
        ws_log = On_open # replicate n (On_message_out (fill_text_frame m op))\<rparr>"
proof (induction n)
  case 0
  then show ?case by (simp add: ws_start_def ws_new_def)
next
  case (Suc n)
  have "(ws_write m op ^^ Suc n) (ws_start ws_new) = ws_write m op ((ws_write m op ^^ n) (ws_start ws_new))"
    by simp
  also have "\<dots> = ws_write m op \<lparr>ws_closed = False, send_q = replicate n (fill_text_frame m op),
        read_pending = True, writes_pending = (if n = 0 then 0 else 1), sock_open = True, wire = [],
        ws_log = On_open # replicate n (On_message_out (fill_text_frame m op))\<rparr>"
    using Suc by simp
  also have "\<dots> = \<lparr>ws_closed = False, send_q = replicate (Suc n) (fill_text_frame m op),
        read_pending = True, writes_pending = 1, sock_open = True, wire = [],
        ws_log = On_open # replicate (Suc n) (On_message_out (fill_text_frame m op))\<rparr>"
    using Suc.prems by (simp add: ws_write_def Let_def replicate_append_same)
  finally show ?case by simp
qed

lemma ws_reachable_push:
  "ws_reachable c \<Longrightarrow> ws_reachable (Forward (Fwd_push m) c)"
  by (rule ws_reachable.step) (assumption, rule ws_step.forward)

lemma ws_destroy_stop: "ws_destroy c = ws_stop c"
  by (simp add: ws_destroy_def ws_stop_def)

subsection \<open>Properties of the connection\<close>

text \<open>
  C18: frames reach the socket in the order \<open>write\<close> accepted them: what has been
  written is always a subsequence of what was reported to \<open>ws_onmessageout\<close>, and while
  the connection is open, the written frames followed by the queued ones are exactly the
  reported frames, in order.
\<close>

theorem ws_fifo_delivery:
  "ws_reachable c \<Longrightarrow> subseq (wire c) (messages_out (ws_log c))
     \<and> (\<not> ws_closed c \<longrightarrow> wire c @ send_q c = messages_out (ws_log c))"
  using ws_invD [OF ws_reachable_inv] subseq_append_left by blast

text \<open>
  C19: at most one write is in flight, and one is in flight exactly when the queue
  is not empty: \<open>write\<close> starts one only on the first entry, \<open>handle_write\<close> only
  while entries remain.
\<close>

theorem ws_single_write_in_flight:
  "ws_reachable c \<Longrightarrow> writes_pending c \<le> 1 \<and> (0 < writes_pending c \<longleftrightarrow> send_q c \<noteq> [])"
  using ws_invD(1) [OF ws_reachable_inv] by simp

text \<open>
  C20: the teardown runs at most once: \<open>ws_onclose\<close> has been called and the socket
  closed once if the connection is closed and never otherwise, and the socket is open
  exactly while the connection is.
\<close>

theorem ws_close_once:
  "ws_reachable c \<Longrightarrow>
     count_list (ws_log c) On_close = (if ws_closed c then 1 else 0)
   \<and> count_list (ws_log c) Sock_close = (if ws_closed c then 1 else 0)
   \<and> (sock_open c \<longleftrightarrow> \<not> ws_closed c)"
  using ws_invD [OF ws_reachable_inv] by blast

text \<open>
  C21: with no write completing, a fresh connection accepts 100 frames and stays open;
  the 101st is still appended and reported to \<open>ws_onmessageout\<close> before the overflow
  check closes the connection, so the queue then holds 101 frames.
\<close>

theorem ws_overflow_at_101:
  "\<not> ws_closed ((ws_write m op ^^ 100) (ws_start ws_new))
   \<and> ws_closed ((ws_write m op ^^ 101) (ws_start ws_new))
   \<and> length (send_q ((ws_write m op ^^ 101) (ws_start ws_new))) = 101
   \<and> length (messages_out (ws_log ((ws_write m op ^^ 101) (ws_start ws_new)))) = 101
   \<and> count_list (ws_log ((ws_write m op ^^ 101) (ws_start ws_new))) On_close = 1"
proof -
  have "(ws_write m op ^^ 101) (ws_start ws_new) = ws_write m op ((ws_write m op ^^ 100) (ws_start ws_new))"
    by (simp add: numeral_eq_Suc del: funpow.simps)
       (simp only: funpow.simps comp_def)
  then show ?thesis
    by (simp add: ws_writes_fresh ws_write_def ws_stop_def Let_def replicate_append_same)
qed

text \<open>
  C22: on an open connection every queued frame reaches the socket when the writes
  complete without error: a run of \<open>handle_write\<close> completions empties the queue and
  leaves on the socket exactly the frames reported to \<open>ws_onmessageout\<close>.
\<close>

theorem ws_queue_drains:
  "ws_reachable c \<Longrightarrow> \<not> ws_closed c \<Longrightarrow>
     \<exists>d. ws_step\<^sup>*\<^sup>* c d \<and> send_q d = [] \<and> ws_log d = ws_log c \<and> wire d = messages_out (ws_log c)"
proof -
  assume r: "ws_reachable c" and o: "\<not> ws_closed c"
  note inv = ws_reachable_inv [OF r]
  let ?d = "(ws_handle_write Io_ok ^^ length (send_q c)) c"
  have "ws_step\<^sup>*\<^sup>* c ?d \<and> send_q ?d = [] \<and> wire ?d = wire c @ send_q c \<and> ws_log ?d = ws_log c"
    using inv o by (rule ws_drain) simp
  moreover have "wire c @ send_q c = messages_out (ws_log c)" using ws_invD(7) [OF inv o] .
  ultimately show ?thesis by auto
qed

text \<open>
  \<open>write\<close> does not look at \<open>closed_\<close>: on a closed connection the frame is
  still reported to \<open>ws_onmessageout\<close> and appended to the queue.
\<close>

theorem ws_write_after_close:
  "ws_closed c \<Longrightarrow>
     ws_closed (ws_write m op c)
   \<and> send_q (ws_write m op c) = send_q c @ [fill_text_frame m op]
   \<and> messages_out (ws_log (ws_write m op c)) = messages_out (ws_log c) @ [fill_text_frame m op]"
  by (simp add: ws_write_def ws_stop_def Let_def)

text \<open>
  C24: destroying a connection that was never closed runs the teardown, so every
  connection, however it ends, notifies \<open>ws_onclose\<close> and closes its socket exactly once.
\<close>

theorem ws_destroy_closes_once:
  "ws_reachable c \<Longrightarrow> ws_closed (ws_destroy c)
     \<and> count_list (ws_log (ws_destroy c)) On_close = 1
     \<and> count_list (ws_log (ws_destroy c)) Sock_close = 1"
  using ws_invD(4,5) [OF ws_stop_inv [OF ws_reachable_inv]] by (simp add: ws_destroy_stop)

subsection \<open>Witnesses\<close>

lemma ws_fifo_delivery_witness:
  "ws_reachable (Forward (Fwd_push ''hi'') (ws_start ws_new))
   \<and> \<not> ws_closed (Forward (Fwd_push ''hi'') (ws_start ws_new))
   \<and> wire (Forward (Fwd_push ''hi'') (ws_start ws_new)) @ send_q (Forward (Fwd_push ''hi'') (ws_start ws_new))
       = [fill_text_frame ''hi'' one_fragment_text]
   \<and> subseq (wire (Forward (Fwd_push ''hi'') (ws_start ws_new)))
       (messages_out (ws_log (Forward (Fwd_push ''hi'') (ws_start ws_new))))"
proof -
  have r: "ws_reachable (Forward (Fwd_push ''hi'') (ws_start ws_new))"
    by (rule ws_reachable_push [OF ws_reachable.start])
  show ?thesis using ws_fifo_delivery [OF r] r
    by (simp add: Forward_def ws_write_def ws_start_def ws_new_def Let_def)
qed

lemma ws_single_write_in_flight_witness:
  "ws_reachable (Forward (Fwd_push ''hi'') (ws_start ws_new))
   \<and> writes_pending (Forward (Fwd_push ''hi'') (ws_start ws_new)) = 1
   \<and> send_q (Forward (Fwd_push ''hi'') (ws_start ws_new)) \<noteq> []"
proof -
  have r: "ws_reachable (Forward (Fwd_push ''hi'') (ws_start ws_new))"
    by (rule ws_reachable_push [OF ws_reachable.start])
  show ?thesis using ws_single_write_in_flight [OF r] r
    by (simp add: Forward_def ws_write_def ws_start_def ws_new_def Let_def)
qed

lemma ws_close_once_witness:
  "ws_reachable (Forward (Fwd_close status_normal) (ws_start ws_new))
   \<and> count_list (ws_log (Forward (Fwd_close status_normal) (ws_start ws_new))) On_close = 1
   \<and> \<not> sock_open (Forward (Fwd_close status_normal) (ws_start ws_new))"
proof -
  have r: "ws_reachable (Forward (Fwd_close status_normal) (ws_start ws_new))"
    by (rule ws_reachable.step [OF ws_reachable.start ws_step.forward])
  show ?thesis using ws_close_once [OF r] r
    by (simp add: Forward_def ws_stop_def ws_start_def ws_new_def)
qed

lemma ws_queue_drains_witness:
  "ws_reachable (Forward (Fwd_push ''hi'') (ws_start ws_new))
   \<and> \<not> ws_closed (Forward (Fwd_push ''hi'') (ws_start ws_new))
   \<and> (\<exists>d. ws_step\<^sup>*\<^sup>* (Forward (Fwd_push ''hi'') (ws_start ws_new)) d
          \<and> send_q d = [] \<and> ws_log d = ws_log (Forward (Fwd_push ''hi'') (ws_start ws_new))
          \<and> wire d = [fill_text_frame ''hi'' one_fragment_text])"
proof -
  have r: "ws_reachable (Forward (Fwd_push ''hi'') (ws_start ws_new))"
    by (rule ws_reachable_push [OF ws_reachable.start])
  have o: "\<not> ws_closed (Forward (Fwd_push ''hi'') (ws_start ws_new))"
    by (simp add: Forward_def ws_write_def ws_start_def ws_new_def Let_def)
  have l: "messages_out (ws_log (Forward (Fwd_push ''hi'') (ws_start ws_new)))
      = [fill_text_frame ''hi'' one_fragment_text]"
    by (simp add: Forward_def ws_write_def ws_start_def ws_new_def Let_def)
  show ?thesis using ws_queue_drains [OF r o] r o unfolding l by blast
qed

lemma ws_write_after_close_witness:
  "ws_closed (ws_stop (ws_start ws_new))
   \<and> send_q (ws_write ''late'' one_fragment_text (ws_stop (ws_start ws_new))) = [fill_text_frame ''late'' one_fragment_text]
   \<and> messages_out (ws_log (ws_write ''late'' one_fragment_text (ws_stop (ws_start ws_new))))
       = [fill_text_frame ''late'' one_fragment_text]"
proof -
  have h: "ws_closed (ws_stop (ws_start ws_new))" by simp
  show ?thesis using ws_write_after_close [OF h, of "''late''" one_fragment_text] h
    by (simp add: ws_stop_def ws_start_def ws_new_def)
qed

lemma ws_destroy_closes_once_witness:
  "ws_reachable (Forward (Fwd_push ''hi'') (ws_start ws_new))
   \<and> ws_closed (ws_destroy (Forward (Fwd_push ''hi'') (ws_start ws_new)))
   \<and> count_list (ws_log (ws_destroy (Forward (Fwd_push ''hi'') (ws_start ws_new)))) On_close = 1"
proof -
  have r: "ws_reachable (Forward (Fwd_push ''hi'') (ws_start ws_new))"
    by (rule ws_reachable_push [OF ws_reachable.start])
  show ?thesis using ws_destroy_closes_once [OF r] r by simp
qed

end
