(* ===== verification/Ws_Registry.thy ===== *)
theory Ws_Registry
  imports Ws_Connection
begin

text \<open>
  The WebSocket session registry of \<open>src/webserver.cpp\<close>: the two \<open>std::map\<close>s
  \<open>ws_conns_\<close> and \<open>ws_secure_conns_\<close> from connection ids to
  \<open>std::weak_ptr<WSConnection>\<close>, \<open>ws_forward\<close> with its lazy erasure of dead
  handles, \<open>WSPush\<close>, \<open>WSClose\<close>, \<open>WSAddSession\<close>, and the creation of a
  connection by \<open>HTTPConnection::_create_ws_connection\<close>.

  A weak pointer is a handle (a \<open>nat\<close>) into the heap \<open>conn_heap\<close> of live
  connections; a handle is never reused (\<open>next_handle\<close> counts the allocations), as
  the control block of a \<open>shared_ptr\<close> is never shared by two objects, so \<open>lock()\<close>
  succeeds exactly when the heap holds the handle. A connection leaves the heap when its
  last owner, an outstanding completion handler, is gone: after its teardown, once no
  read or write is outstanding. The registry lock \<open>ws_conns_mx_\<close> makes each of
  \<open>WSPush\<close>, \<open>WSClose\<close>, \<open>WSAddSession\<close> one atomic step.
\<close>

datatype socket_kind = TCP | SSL

record 'id ws_server =
  ws_conns :: "'id \<rightharpoonup> nat"
  ws_secure_conns :: "'id \<rightharpoonup> nat"
  conn_heap :: "nat \<rightharpoonup> ws_conn"
  next_handle :: nat

definition ws_server_init :: "'id ws_server" where
  "ws_server_init = \<lparr>ws_conns = Map.empty, ws_secure_conns = Map.empty, conn_heap = Map.empty,
     next_handle = 0\<rparr>"

text \<open>
  \<open>ws_forward(conn_id, ws_map, a)\<close>: find the id; if the weak handle locks, forward
  the argument to the connection and answer true, otherwise erase the entry.
\<close>

definition ws_forward :: "'id \<Rightarrow> ('id \<rightharpoonup> nat) \<Rightarrow> forward_arg \<Rightarrow> (nat \<rightharpoonup> ws_conn)
    \<Rightarrow> bool \<times> ('id \<rightharpoonup> nat) \<times> (nat \<rightharpoonup> ws_conn)" where
  "ws_forward conn_id ws_map a heap =
     (case ws_map conn_id of
        None \<Rightarrow> (False, ws_map, heap)
      | Some h \<Rightarrow>
          (case heap h of
             Some c \<Rightarrow> (True, ws_map, heap(h \<mapsto> Forward a c))
           | None \<Rightarrow> (False, ws_map(conn_id := None), heap)))"

text \<open>
  \<open>ws_forward(conn_id, ws_conns_, a) || ws_forward(conn_id, ws_secure_conns_, a)\<close>,
  the body shared by \<open>WSPush\<close> and \<open>WSClose\<close>: the secure map is searched only when
  the plain one did not forward.
\<close>

definition forward_either :: "'id \<Rightarrow> forward_arg \<Rightarrow> 'id ws_server \<Rightarrow> bool \<times> 'id ws_server" where
  "forward_either conn_id a s =
     (let (ok, m, heap) = ws_forward conn_id (ws_conns s) a (conn_heap s);
          s1 = s\<lparr>ws_conns := m, conn_heap := heap\<rparr>
      in if ok then (True, s1)
         else (let (ok2, m2, heap2) = ws_forward conn_id (ws_secure_conns s1) a (conn_heap s1)
               in (ok2, s1\<lparr>ws_secure_conns := m2, conn_heap := heap2\<rparr>)))"

definition WSPush :: "'id \<Rightarrow> string \<Rightarrow> 'id ws_server \<Rightarrow> bool \<times> 'id ws_server" where
  "WSPush conn_id str s = forward_either conn_id (Fwd_push str) s"

definition WSClose :: "'id \<Rightarrow> 32 word \<Rightarrow> 'id ws_server \<Rightarrow> bool \<times> 'id ws_server" where
  "WSClose conn_id status_code s = forward_either conn_id (Fwd_close status_code) s"

text \<open>The two specialisations of \<open>WSAddSession\<close>: \<open>std::map::insert\<close>, no overwrite.\<close>

definition WSAddSession :: "socket_kind \<Rightarrow> 'id \<Rightarrow> nat \<Rightarrow> 'id ws_server \<Rightarrow> 'id ws_server" where
  "WSAddSession k conn_id wp s =
     (case k of
        TCP \<Rightarrow> s\<lparr>ws_conns := map_insert (ws_conns s) conn_id wp\<rparr>
      | SSL \<Rightarrow> s\<lparr>ws_secure_conns := map_insert (ws_secure_conns s) conn_id wp\<rparr>)"

text \<open>
  \<open>_create_ws_connection\<close>: \<open>make_shared<WSConnection>\<close> (a fresh handle holding the
  constructed connection), \<open>WSAddSession\<close> with the weak pointer, then \<open>Start\<close>.
\<close>

definition create_ws_connection :: "socket_kind \<Rightarrow> 'id \<Rightarrow> 'id ws_server \<Rightarrow> 'id ws_server" where
  "create_ws_connection k conn_id s =
     (let h = next_handle s;
          s1 = s\<lparr>conn_heap := (conn_heap s)(h \<mapsto> ws_new), next_handle := Suc h\<rparr>;
          s2 = WSAddSession k conn_id h s1
      in s2\<lparr>conn_heap := (conn_heap s2)(h \<mapsto> ws_start (the (conn_heap s2 h)))\<rparr>)"

text \<open>The destruction of a connection whose last \<open>shared_ptr\<close> is gone.\<close>

definition release :: "nat \<Rightarrow> 'id ws_server \<Rightarrow> 'id ws_server" where
  "release h s = s\<lparr>conn_heap := (conn_heap s)(h := None)\<rparr>"

subsection \<open>Runs of the server\<close>

text \<open>
  Any interleaving of pushes and closes from the application, creations of connections
  with a fresh id (\<open>uuid_generate\<close>), steps of the live connections, and the release
  of a connection that is closed and has no outstanding operation.
\<close>

inductive srv_step :: "'id ws_server \<Rightarrow> 'id ws_server \<Rightarrow> bool" where
  push: "srv_step s (snd (WSPush i m s))"
| close: "srv_step s (snd (WSClose i st s))"
| create: "i \<notin> dom (ws_conns s) \<Longrightarrow> i \<notin> dom (ws_secure_conns s) \<Longrightarrow> srv_step s (create_ws_connection k i s)"
| conn: "conn_heap s h = Some c \<Longrightarrow> ws_step c c' \<Longrightarrow> srv_step s (s\<lparr>conn_heap := (conn_heap s)(h \<mapsto> c')\<rparr>)"
| free: "conn_heap s h = Some c \<Longrightarrow> ws_closed c \<Longrightarrow> \<not> read_pending c \<Longrightarrow> writes_pending c = 0
    \<Longrightarrow> srv_step s (release h s)"

inductive srv_reachable :: "'id ws_server \<Rightarrow> bool" where
  init: "srv_reachable ws_server_init"
| step: "srv_reachable s \<Longrightarrow> srv_step s s' \<Longrightarrow> srv_reachable s'"

subsection \<open>The registry as the application sees it\<close>

text \<open>
  What \<open>WSPush\<close> and \<open>WSClose\<close> promise: an id names at most one live connection,
  the plain one first; forwarding reaches exactly that connection and answers whether
  there was one. Dead entries are not part of this view.
\<close>

definition live_handle :: "('id \<rightharpoonup> nat) \<Rightarrow> (nat \<rightharpoonup> ws_conn) \<Rightarrow> 'id \<Rightarrow> nat option" where
  "live_handle m heap i = (case m i of Some h \<Rightarrow> if h \<in> dom heap then Some h else None | None \<Rightarrow> None)"

definition target :: "'id ws_server \<Rightarrow> 'id \<Rightarrow> nat option" where
  "target s i =
     (case live_handle (ws_conns s) (conn_heap s) i of
        Some h \<Rightarrow> Some h
      | None \<Rightarrow> live_handle (ws_secure_conns s) (conn_heap s) i)"

definition abs_forward :: "'id \<Rightarrow> forward_arg \<Rightarrow> 'id ws_server \<Rightarrow> bool \<times> (nat \<rightharpoonup> ws_conn)" where
  "abs_forward i a s =
     (case target s i of
        None \<Rightarrow> (False, conn_heap s)
      | Some h \<Rightarrow> (True, (conn_heap s)(h \<mapsto> Forward a (the (conn_heap s h)))))"

definition srv_inv :: "'id ws_server \<Rightarrow> bool" where
  "srv_inv s \<longleftrightarrow>
     (\<forall>h \<in> dom (conn_heap s). h < next_handle s \<and> ws_inv (the (conn_heap s h)))
   \<and> (\<forall>h \<in> ran (ws_conns s) \<union> ran (ws_secure_conns s). h < next_handle s)"

text \<open>
  Every live connection is registered under some id, no id is in both maps, and a live
  connection is registered under one id only.
\<close>

definition registered :: "'id ws_server \<Rightarrow> 'id \<Rightarrow> nat \<Rightarrow> bool" where
  "registered s i h \<longleftrightarrow> ws_conns s i = Some h \<or> ws_secure_conns s i = Some h"

definition reg_inv :: "'id ws_server \<Rightarrow> bool" where
  "reg_inv s \<longleftrightarrow> (\<forall>h \<in> dom (conn_heap s). \<exists>i. registered s i h)
     \<and> dom (ws_conns s) \<inter> dom (ws_secure_conns s) = {}
     \<and> (\<forall>i j h. registered s i h \<longrightarrow> registered s j h \<longrightarrow> h \<in> dom (conn_heap s) \<longrightarrow> i = j)"

declare ws_server_init_def [model_simps] ws_forward_def [model_simps] forward_either_def [model_simps]
  WSPush_def [model_simps] WSClose_def [model_simps] WSAddSession_def [model_simps]
  create_ws_connection_def [model_simps] release_def [model_simps] live_handle_def [model_simps]
  target_def [model_simps] abs_forward_def [model_simps]

subsection \<open>Lemmas\<close>

lemma ws_forward_none: "m i = None \<Longrightarrow> ws_forward i m a heap = (False, m, heap)"
  by (simp add: ws_forward_def)

lemma ws_forward_live: "m i = Some h \<Longrightarrow> heap h = Some c \<Longrightarrow> ws_forward i m a heap = (True, m, heap(h \<mapsto> Forward a c))"
  by (simp add: ws_forward_def)

lemma ws_forward_dead: "m i = Some h \<Longrightarrow> heap h = None \<Longrightarrow> ws_forward i m a heap = (False, m(i := None), heap)"
  by (simp add: ws_forward_def)

lemma live_handle_prune: "heap h = None \<Longrightarrow> m i = Some h \<Longrightarrow> live_handle (m(i := None)) heap = live_handle m heap"
  by (auto simp: live_handle_def fun_eq_iff)

lemma live_handle_upd: "h \<in> dom heap \<Longrightarrow> live_handle m (heap(h \<mapsto> c)) = live_handle m heap"
  by (auto simp: live_handle_def fun_eq_iff split: option.splits)

lemma live_handle_Some: "live_handle m heap i = Some h \<longleftrightarrow> m i = Some h \<and> h \<in> dom heap"
  by (auto simp: live_handle_def split: option.splits)

lemma live_handle_None: "live_handle m heap i = None \<longleftrightarrow> (\<forall>h. m i = Some h \<longrightarrow> heap h = None)"
  by (auto simp: live_handle_def split: option.splits)

lemmas ws_forward_simps = ws_forward_none ws_forward_live ws_forward_dead live_handle_prune live_handle_upd

text \<open>\<open>forward_either\<close>, case by case on the two maps.\<close>

lemma forward_either_plain:
  "ws_conns s i = Some h \<Longrightarrow> conn_heap s h = Some c \<Longrightarrow>
   forward_either i a s = (True, s\<lparr>conn_heap := (conn_heap s)(h \<mapsto> Forward a c)\<rparr>)"
  by (simp add: forward_either_def ws_forward_live)

lemma forward_either_secure:
  "live_handle (ws_conns s) (conn_heap s) i = None \<Longrightarrow>
   forward_either i a s
   = (let s1 = s\<lparr>ws_conns := (case ws_conns s i of None \<Rightarrow> ws_conns s | Some _ \<Rightarrow> (ws_conns s)(i := None))\<rparr>;
          (ok2, m2, heap2) = ws_forward i (ws_secure_conns s) a (conn_heap s)
      in (ok2, s1\<lparr>ws_secure_conns := m2, conn_heap := heap2\<rparr>))"
  by (cases "ws_conns s i")
     (auto simp: forward_either_def live_handle_None ws_forward_none ws_forward_dead split: prod.splits)

lemma target_eq:
  "live_handle (ws_conns s') (conn_heap s') = live_handle (ws_conns s) (conn_heap s) \<Longrightarrow>
   live_handle (ws_secure_conns s') (conn_heap s') = live_handle (ws_secure_conns s) (conn_heap s) \<Longrightarrow>
   target s' = target s"
  by (intro ext) (simp add: target_def split: option.split)

lemma forward_either_refines:
  "fst (forward_either i a s) = fst (abs_forward i a s)
   \<and> conn_heap (snd (forward_either i a s)) = snd (abs_forward i a s)
   \<and> target (snd (forward_either i a s)) = target s
   \<and> next_handle (snd (forward_either i a s)) = next_handle s"
proof (cases "live_handle (ws_conns s) (conn_heap s) i")
  case (Some h)
  then obtain c where c: "ws_conns s i = Some h" "conn_heap s h = Some c"
    by (auto simp: live_handle_Some)
  then have d: "h \<in> dom (conn_heap s)" by blast
  have "target (s\<lparr>conn_heap := (conn_heap s)(h \<mapsto> Forward a c)\<rparr>) = target s"
    by (rule target_eq) (simp_all add: live_handle_upd [OF d])
  then show ?thesis using Some c
    by (simp add: forward_either_plain abs_forward_def target_def)
next
  case None
  let ?m1 = "case ws_conns s i of None \<Rightarrow> ws_conns s | Some _ \<Rightarrow> (ws_conns s)(i := None)"
  have pl: "live_handle ?m1 (conn_heap s) = live_handle (ws_conns s) (conn_heap s)"
    using None by (cases "ws_conns s i") (auto simp: live_handle_None live_handle_prune)
  have tgt: "target s i = live_handle (ws_secure_conns s) (conn_heap s) i"
    using None by (simp add: target_def)
  show ?thesis
  proof (cases "ws_secure_conns s i")
    case n2: None
    have "target (s\<lparr>ws_conns := ?m1\<rparr>) = target s" by (rule target_eq) (simp_all add: pl)
    moreover have "target s i = None" using tgt n2 by (simp add: live_handle_def)
    ultimately show ?thesis using None n2
      by (simp add: forward_either_secure ws_forward_none abs_forward_def)
  next
    case (Some h)
    show ?thesis
    proof (cases "conn_heap s h")
      case d: None
      have "target (s\<lparr>ws_conns := ?m1, ws_secure_conns := (ws_secure_conns s)(i := None)\<rparr>) = target s"
        by (rule target_eq) (simp_all add: pl live_handle_prune [where m = "ws_secure_conns s" and i = i and heap = "conn_heap s" and h = h, OF d Some])
      moreover have "target s i = None" using tgt Some d by (simp add: live_handle_def domIff)
      ultimately show ?thesis using None Some d
        by (simp add: forward_either_secure ws_forward_dead abs_forward_def)
    next
      case (Some c)
      then have dh: "h \<in> dom (conn_heap s)" by blast
      have "target (s\<lparr>ws_conns := ?m1, conn_heap := (conn_heap s)(h \<mapsto> Forward a c)\<rparr>) = target s"
        by (rule target_eq) (simp_all add: pl live_handle_upd [OF dh])
      moreover have "target s i = Some h" using tgt dh \<open>ws_secure_conns s i = Some h\<close>
        by (simp add: live_handle_def)
      ultimately show ?thesis using None Some \<open>ws_secure_conns s i = Some h\<close>
        by (simp add: forward_either_secure ws_forward_live abs_forward_def)
    qed
  qed
qed

lemma ran_upd_None_subset: "ran (m(i := None)) \<subseteq> ran m"
  by (auto simp: ran_def)

lemma forward_either_ran:
  "ran (ws_conns (snd (forward_either i a s))) \<subseteq> ran (ws_conns s)
   \<and> ran (ws_secure_conns (snd (forward_either i a s))) \<subseteq> ran (ws_secure_conns s)"
  using ran_upd_None_subset [of "ws_conns s" i] ran_upd_None_subset [of "ws_secure_conns s" i]
  by (auto simp: forward_either_def ws_forward_def split: option.splits)

lemma target_live: "target s i = Some h \<Longrightarrow> \<exists>c. conn_heap s h = Some c"
  by (auto simp: target_def live_handle_def split: option.splits if_splits)

lemma abs_forward_heap:
  "snd (abs_forward i a s) = conn_heap s
   \<or> (\<exists>h c. conn_heap s h = Some c \<and> snd (abs_forward i a s) = (conn_heap s)(h \<mapsto> Forward a c))"
proof (cases "target s i")
  case (Some h)
  then obtain c where c: "conn_heap s h = Some c" using target_live [OF Some] by blast
  then have "snd (abs_forward i a s) = (conn_heap s)(h \<mapsto> Forward a c)"
    using Some by (simp add: abs_forward_def)
  then show ?thesis using c by blast
qed (simp add: abs_forward_def)

lemma srv_invD: "srv_inv s \<Longrightarrow> conn_heap s h = Some c \<Longrightarrow> ws_inv c \<and> h < next_handle s"
  unfolding srv_inv_def by (metis domI option.sel)

lemma srv_inv_init: "srv_inv ws_server_init"
  by (simp add: srv_inv_def ws_server_init_def)

lemma srv_inv_heap_upd:
  "srv_inv s \<Longrightarrow> conn_heap s h = Some c \<Longrightarrow> ws_inv c' \<Longrightarrow> srv_inv (s\<lparr>conn_heap := (conn_heap s)(h \<mapsto> c')\<rparr>)"
  by (auto simp: srv_inv_def)

lemma srv_inv_forward: "srv_inv s \<Longrightarrow> srv_inv (snd (forward_either i a s))"
proof -
  assume inv: "srv_inv s"
  let ?s' = "snd (forward_either i a s)"
  have nx: "next_handle ?s' = next_handle s" using forward_either_refines [of i a s] by simp
  have maps: "\<forall>h \<in> ran (ws_conns ?s') \<union> ran (ws_secure_conns ?s'). h < next_handle ?s'"
    using inv forward_either_ran [of i a s] nx unfolding srv_inv_def by auto
  have heap: "conn_heap ?s' = snd (abs_forward i a s)" "next_handle ?s' = next_handle s"
    using forward_either_refines [of i a s] by simp_all
  from abs_forward_heap [of i a s] show ?thesis
  proof
    assume "snd (abs_forward i a s) = conn_heap s"
    then show ?thesis using inv maps heap by (simp add: srv_inv_def)
  next
    assume "\<exists>h c. conn_heap s h = Some c \<and> snd (abs_forward i a s) = (conn_heap s)(h \<mapsto> Forward a c)"
    then obtain h c where hc: "conn_heap s h = Some c" "snd (abs_forward i a s) = (conn_heap s)(h \<mapsto> Forward a c)"
      by blast
    have "ws_inv c" using srv_invD [OF inv hc(1)] by blast
    then have "ws_inv (Forward a c)" by (rule Forward_inv)
    then show ?thesis using inv maps heap hc by (auto simp: srv_inv_def)
  qed
qed

lemma create_ws_connection_eq:
  "create_ws_connection k i s = (WSAddSession k i (next_handle s) s)
     \<lparr>conn_heap := (conn_heap s)(next_handle s \<mapsto> ws_start ws_new), next_handle := Suc (next_handle s)\<rparr>"
  by (cases k) (simp_all add: create_ws_connection_def WSAddSession_def Let_def)

lemma srv_inv_create: "srv_inv s \<Longrightarrow> srv_inv (create_ws_connection k i s)"
proof -
  assume inv: "srv_inv s"
  have maps: "ran (ws_conns (WSAddSession k i (next_handle s) s)) \<subseteq> insert (next_handle s) (ran (ws_conns s))"
    "ran (ws_secure_conns (WSAddSession k i (next_handle s) s)) \<subseteq> insert (next_handle s) (ran (ws_secure_conns s))"
    by (cases k; auto simp: WSAddSession_def dest: subsetD [OF ran_map_insert])+
  have "\<forall>h\<in>dom (conn_heap s). h < next_handle s \<and> ws_inv (the (conn_heap s h))"
    "\<forall>h\<in>ran (ws_conns s) \<union> ran (ws_secure_conns s). h < next_handle s"
    using inv by (simp_all add: srv_inv_def)
  then show ?thesis using maps ws_inv_start
    by (auto simp: srv_inv_def create_ws_connection_eq WSAddSession_def less_Suc_eq split: socket_kind.splits)
qed

lemma srv_inv_release: "srv_inv s \<Longrightarrow> srv_inv (release h s)"
  by (auto simp: srv_inv_def release_def)

lemma srv_step_inv: "srv_step s s' \<Longrightarrow> srv_inv s \<Longrightarrow> srv_inv s'"
proof (induction rule: srv_step.induct)
  case (conn s h c c')
  have "ws_inv c" using srv_invD [OF conn.prems conn.hyps(1)] by blast
  then show ?case using conn srv_inv_heap_upd ws_step_inv by blast
qed (simp_all add: WSPush_def WSClose_def srv_inv_forward srv_inv_create srv_inv_release)

lemma srv_reachable_inv: "srv_reachable s \<Longrightarrow> srv_inv s"
  by (induction rule: srv_reachable.induct) (simp_all add: srv_inv_init srv_step_inv)

lemma target_registered:
  "dom (ws_conns s) \<inter> dom (ws_secure_conns s) = {} \<Longrightarrow>
     target s i = Some h \<longleftrightarrow> registered s i h \<and> h \<in> dom (conn_heap s)"
  by (auto simp: target_def live_handle_def registered_def split: option.splits)

lemma ws_forward_maps:
  "ws_forward i m a heap = (ok, m', heap') \<Longrightarrow>
     dom heap' = dom heap \<and> (\<forall>j h. h \<in> dom heap \<longrightarrow> (m' j = Some h \<longleftrightarrow> m j = Some h)) \<and> dom m' \<subseteq> dom m"
  by (auto simp: ws_forward_def split: option.splits if_splits)

lemma forward_either_maps:
  "dom (conn_heap (snd (forward_either i a s))) = dom (conn_heap s)
   \<and> (\<forall>j h. h \<in> dom (conn_heap s) \<longrightarrow> (registered (snd (forward_either i a s)) j h \<longleftrightarrow> registered s j h))
   \<and> dom (ws_conns (snd (forward_either i a s))) \<subseteq> dom (ws_conns s)
   \<and> dom (ws_secure_conns (snd (forward_either i a s))) \<subseteq> dom (ws_secure_conns s)"
proof -
  obtain ok m heap where f1: "ws_forward i (ws_conns s) a (conn_heap s) = (ok, m, heap)"
    by (cases "ws_forward i (ws_conns s) a (conn_heap s)") auto
  obtain ok2 m2 heap2 where f2: "ws_forward i (ws_secure_conns s) a heap = (ok2, m2, heap2)"
    by (cases "ws_forward i (ws_secure_conns s) a heap") auto
  note A = ws_forward_maps [OF f1] and B = ws_forward_maps [OF f2]
  show ?thesis
  proof (cases ok)
    case True
    then show ?thesis using f1 A by (auto simp: forward_either_def registered_def)
  next
    case False
    then show ?thesis using f1 f2 A B by (auto simp: forward_either_def registered_def)
  qed
qed

lemma reg_inv_init: "reg_inv ws_server_init"
  by (simp add: reg_inv_def ws_server_init_def registered_def)

lemma reg_inv_forward:
  assumes "reg_inv s" shows "reg_inv (snd (forward_either i a s))"
proof -
  let ?s = "snd (forward_either i a s)"
  have d: "dom (conn_heap ?s) = dom (conn_heap s)"
    and r: "\<And>j h. h \<in> dom (conn_heap s) \<Longrightarrow> registered ?s j h \<longleftrightarrow> registered s j h"
    and m: "dom (ws_conns ?s) \<subseteq> dom (ws_conns s)" "dom (ws_secure_conns ?s) \<subseteq> dom (ws_secure_conns s)"
    using forward_either_maps [of i a s] by blast+
  have I: "\<forall>h \<in> dom (conn_heap s). \<exists>i. registered s i h" "dom (ws_conns s) \<inter> dom (ws_secure_conns s) = {}"
    "\<forall>i j h. registered s i h \<longrightarrow> registered s j h \<longrightarrow> h \<in> dom (conn_heap s) \<longrightarrow> i = j"
    using assms unfolding reg_inv_def by blast+
  have "\<forall>h \<in> dom (conn_heap ?s). \<exists>j. registered ?s j h" unfolding d using I(1) r by blast
  moreover have "dom (ws_conns ?s) \<inter> dom (ws_secure_conns ?s) = {}" using I(2) m by blast
  moreover have "\<forall>j j' h. registered ?s j h \<longrightarrow> registered ?s j' h \<longrightarrow> h \<in> dom (conn_heap ?s) \<longrightarrow> j = j'"
    unfolding d using I(3) r by blast
  ultimately show ?thesis unfolding reg_inv_def by blast
qed

lemma reg_inv_create:
  assumes "i \<notin> dom (ws_conns s)" "i \<notin> dom (ws_secure_conns s)" "srv_inv s" "reg_inv s"
  shows "reg_inv (create_ws_connection k i s)"
proof -
  let ?n = "next_handle s"
  have n: "?n \<notin> dom (conn_heap s)" "\<forall>j. ws_conns s j \<noteq> Some ?n \<and> ws_secure_conns s j \<noteq> Some ?n"
    using assms(3) unfolding srv_inv_def by (auto simp: ranI)
  have r: "registered (create_ws_connection k i s) j h \<longleftrightarrow> registered s j h \<or> (j = i \<and> h = ?n)" for j h
    using assms(1,2) by (cases k) (auto simp: registered_def create_ws_connection_eq WSAddSession_def)
  have d: "dom (conn_heap (create_ws_connection k i s)) = insert ?n (dom (conn_heap s))"
    by (simp add: create_ws_connection_eq WSAddSession_def split: socket_kind.split)
  have m: "dom (ws_conns (create_ws_connection k i s)) \<subseteq> insert i (dom (ws_conns s))"
    "dom (ws_secure_conns (create_ws_connection k i s)) \<subseteq> insert i (dom (ws_secure_conns s))"
    "i \<notin> dom (ws_conns (create_ws_connection k i s)) \<or> i \<notin> dom (ws_secure_conns (create_ws_connection k i s))"
    using assms(1,2) by (cases k; auto simp: create_ws_connection_eq WSAddSession_def)+
  have reg_old: "registered s j h \<Longrightarrow> h \<noteq> ?n" for j h using n(2) by (auto simp: registered_def)
  have I: "\<forall>h \<in> dom (conn_heap s). \<exists>i. registered s i h" "dom (ws_conns s) \<inter> dom (ws_secure_conns s) = {}"
    "\<forall>i j h. registered s i h \<longrightarrow> registered s j h \<longrightarrow> h \<in> dom (conn_heap s) \<longrightarrow> i = j"
    using assms(4) unfolding reg_inv_def by blast+
  have p1: "\<forall>h \<in> dom (conn_heap (create_ws_connection k i s)). \<exists>j. registered (create_ws_connection k i s) j h"
    unfolding d r using I(1) by blast
  have p2: "dom (ws_conns (create_ws_connection k i s)) \<inter> dom (ws_secure_conns (create_ws_connection k i s)) = {}"
    using I(2) m by blast
  have p3: "\<forall>j j' h. registered (create_ws_connection k i s) j h \<longrightarrow> registered (create_ws_connection k i s) j' h
      \<longrightarrow> h \<in> dom (conn_heap (create_ws_connection k i s)) \<longrightarrow> j = j'"
    unfolding d r using I(3) reg_old by blast
  show ?thesis using p1 p2 p3 unfolding reg_inv_def by blast
qed

lemma reg_inv_heap_upd: "reg_inv s \<Longrightarrow> h \<in> dom (conn_heap s) \<Longrightarrow> reg_inv (s\<lparr>conn_heap := (conn_heap s)(h \<mapsto> c)\<rparr>)"
  by (auto simp: reg_inv_def registered_def insert_absorb)

lemma reg_inv_release: "reg_inv s \<Longrightarrow> reg_inv (release h s)"
  by (auto simp: reg_inv_def registered_def release_def)

lemma srv_step_reg: "srv_step s s' \<Longrightarrow> srv_inv s \<Longrightarrow> reg_inv s \<Longrightarrow> reg_inv s'"
proof (induction rule: srv_step.induct)
  case (create i s k)
  then show ?case by (rule reg_inv_create)
next
  case (conn s h c c')
  then show ?case by (intro reg_inv_heap_upd) auto
qed (simp_all add: WSPush_def WSClose_def reg_inv_forward reg_inv_release)

lemma srv_reachable_reg: "srv_reachable s \<Longrightarrow> reg_inv s"
  by (induction rule: srv_reachable.induct) (simp_all add: reg_inv_init srv_step_reg srv_reachable_inv)

subsection \<open>Properties of the registry\<close>

text \<open>
  C25: \<open>WSPush\<close> refines the registry as the application sees it: it answers true
  exactly when the id names a live connection (the plain one first), the message goes to
  that connection and to no other, and the lazy erasure of dead entries changes nothing
  the application can observe.
\<close>

theorem WSPush_refines:
  "fst (WSPush i m s) = fst (abs_forward i (Fwd_push m) s)
   \<and> conn_heap (snd (WSPush i m s)) = snd (abs_forward i (Fwd_push m) s)
   \<and> target (snd (WSPush i m s)) = target s"
  using forward_either_refines [of i "Fwd_push m" s] by (simp add: WSPush_def)

text \<open>
  \<open>WSClose\<close> on an id with a live connection answers true and leaves that
  connection closed.
\<close>

theorem WSClose_closes_target:
  "target s i = Some h \<Longrightarrow> fst (WSClose i st s) \<and> ws_closed (the (conn_heap (snd (WSClose i st s)) h))"
proof -
  assume t: "target s i = Some h"
  then obtain c where "conn_heap s h = Some c" using target_live [OF t] by blast
  then show ?thesis using t forward_either_refines [of i "Fwd_close st" s]
    by (simp add: WSClose_def abs_forward_def Forward_def)
qed

text \<open>
  A push to an id whose plain entry is dead erases that entry and no other entry of
  the plain map.
\<close>

theorem WSPush_prunes_dead:
  "ws_conns s i = Some h \<Longrightarrow> conn_heap s h = None \<Longrightarrow> ws_conns (snd (WSPush i m s)) = (ws_conns s)(i := None)"
proof -
  assume e: "ws_conns s i = Some h" and d: "conn_heap s h = None"
  then have "live_handle (ws_conns s) (conn_heap s) i = None" by (simp add: live_handle_def domIff)
  then show ?thesis using e by (simp add: WSPush_def forward_either_secure split: prod.splits)
qed

text \<open>
  A push or close to an id that names no live connection answers false and
  changes no connection.
\<close>

theorem WSPush_unknown:
  "target s i = None \<Longrightarrow> \<not> fst (WSPush i m s) \<and> conn_heap (snd (WSPush i m s)) = conn_heap s
     \<and> \<not> fst (WSClose i st s) \<and> conn_heap (snd (WSClose i st s)) = conn_heap s"
  using forward_either_refines [of i "Fwd_push m" s] forward_either_refines [of i "Fwd_close st" s]
  by (simp add: WSPush_def WSClose_def abs_forward_def)

text \<open>
  C29: in every reachable state of the registry each live WebSocket connection is
  addressed by exactly one id: \<open>_create_ws_connection\<close> registers it under a fresh id
  in the map of its transport, \<open>ws_forward\<close> erases only entries whose connection is
  gone, and a handle is registered once.
\<close>

theorem live_connection_addressable:
  "srv_reachable s \<Longrightarrow> h \<in> dom (conn_heap s) \<Longrightarrow> \<exists>!i. target s i = Some h"
proof -
  assume r: "srv_reachable s" and h: "h \<in> dom (conn_heap s)"
  have I: "\<forall>h \<in> dom (conn_heap s). \<exists>i. registered s i h" "dom (ws_conns s) \<inter> dom (ws_secure_conns s) = {}"
    "\<forall>i j h. registered s i h \<longrightarrow> registered s j h \<longrightarrow> h \<in> dom (conn_heap s) \<longrightarrow> i = j"
    using srv_reachable_reg [OF r] unfolding reg_inv_def by blast+
  show ?thesis unfolding target_registered [OF I(2)] using I(1,3) h by blast
qed

text \<open>
  C30: a connection created under a fresh id is registered in the map of its transport
  (\<open>ws_conns_\<close> for TCP, \<open>ws_secure_conns_\<close> for TLS), the id addresses it, and a
  push to that id answers true and queues the frame on that connection.
\<close>

theorem create_then_push:
  assumes "i \<notin> dom (ws_conns s)" and "i \<notin> dom (ws_secure_conns s)"
  shows "(case k of TCP \<Rightarrow> ws_conns | SSL \<Rightarrow> ws_secure_conns) (create_ws_connection k i s) i = Some (next_handle s)
    \<and> target (create_ws_connection k i s) i = Some (next_handle s)
    \<and> fst (WSPush i m (create_ws_connection k i s))
    \<and> conn_heap (snd (WSPush i m (create_ws_connection k i s))) (next_handle s)
        = Some (ws_write m one_fragment_text (ws_start ws_new))"
  using assms
  by (cases k) (auto simp: create_ws_connection_eq WSAddSession_def target_def live_handle_def WSPush_def
      forward_either_def ws_forward_def Forward_def)

subsection \<open>Witnesses\<close>

lemma srv_reachable_one: "srv_reachable (create_ws_connection TCP (7::nat) ws_server_init)"
  by (rule srv_reachable.step [OF srv_reachable.init srv_step.create]) (simp_all add: ws_server_init_def)

lemma target_one: "target (create_ws_connection TCP (7::nat) ws_server_init) 7 = Some 0"
  by (simp add: target_def live_handle_def create_ws_connection_def WSAddSession_def ws_server_init_def)

lemma WSClose_closes_target_witness:
  "target (create_ws_connection TCP (7::nat) ws_server_init) 7 = Some 0
   \<and> fst (WSClose 7 status_normal (create_ws_connection TCP (7::nat) ws_server_init))
   \<and> ws_closed (the (conn_heap (snd (WSClose 7 status_normal (create_ws_connection TCP (7::nat) ws_server_init))) 0))"
  using WSClose_closes_target [OF target_one, of status_normal] target_one by simp

lemma WSPush_prunes_dead_witness:
  "ws_conns (release 0 (create_ws_connection TCP (7::nat) ws_server_init)) 7 = Some 0
   \<and> conn_heap (release 0 (create_ws_connection TCP (7::nat) ws_server_init)) 0 = None
   \<and> ws_conns (snd (WSPush 7 ''x'' (release 0 (create_ws_connection TCP (7::nat) ws_server_init)))) 7 = None"
proof -
  have e: "ws_conns (release 0 (create_ws_connection TCP (7::nat) ws_server_init)) 7 = Some 0"
    and d: "conn_heap (release 0 (create_ws_connection TCP (7::nat) ws_server_init)) 0 = None"
    by (simp_all add: release_def create_ws_connection_def WSAddSession_def ws_server_init_def)
  show ?thesis using WSPush_prunes_dead [OF e d, of "''x''"] e d by simp
qed

lemma WSPush_unknown_witness:
  "target (ws_server_init :: nat ws_server) 3 = None
   \<and> \<not> fst (WSPush 3 ''x'' (ws_server_init :: nat ws_server))
   \<and> \<not> fst (WSClose 3 status_normal (ws_server_init :: nat ws_server))"
proof -
  have t: "target (ws_server_init :: nat ws_server) 3 = None"
    by (simp add: target_def live_handle_def ws_server_init_def)
  show ?thesis using WSPush_unknown [OF t, of "''x''" status_normal] t by simp
qed


lemma live_connection_addressable_witness:
  "srv_reachable (create_ws_connection TCP (7::nat) ws_server_init)
   \<and> 0 \<in> dom (conn_heap (create_ws_connection TCP (7::nat) ws_server_init))
   \<and> (\<exists>!i. target (create_ws_connection TCP (7::nat) ws_server_init) i = Some 0)"
proof -
  have h: "0 \<in> dom (conn_heap (create_ws_connection TCP (7::nat) ws_server_init))"
    by (simp add: create_ws_connection_def WSAddSession_def ws_server_init_def)
  show ?thesis using live_connection_addressable [OF srv_reachable_one h] srv_reachable_one h by blast
qed

lemma create_then_push_witness:
  "(7::nat) \<notin> dom (ws_conns (ws_server_init :: nat ws_server))
   \<and> (7::nat) \<notin> dom (ws_secure_conns (ws_server_init :: nat ws_server))
   \<and> ws_secure_conns (create_ws_connection SSL (7::nat) ws_server_init) 7 = Some 0
   \<and> fst (WSPush 7 ''x'' (create_ws_connection SSL (7::nat) ws_server_init))"
  using create_then_push [of 7 "ws_server_init :: nat ws_server" SSL "''x''"] by (simp add: ws_server_init_def)

end
