(* ===== verification/Http_Connection.thy ===== *)
theory Http_Connection
  imports Http_Parser Http_Response Ws_Registry
begin

text \<open>
  The life of an \<open>HTTPConnection\<close> (\<open>src/HTTP/http_connection.cpp\<close>): \<open>Start\<close>
  (a read, or first the TLS handshake), the read handler of \<open>do_read\<close> that parses
  the bytes and dispatches the request, \<open>do_write\<close> and its handler, the upgrade of
  \<open>process_ws_handshake\<close> and \<open>_generate_ws_handshake_headers\<close>, the
  \<open>_create_ws_connection\<close> that hands the socket over, and \<open>stop\<close>.

  The state is the record \<open>http_conn\<close>: the parser, request and response members,
  the one asynchronous operation outstanding (\<open>hc_pending\<close>) and the ordered log of
  what the connection does outside itself. Each completion handler is one function;
  its environment (the error code, the bytes read, the response the external handler
  leaves, the SHA-1/Base64 accept hash) comes in as parameters. A C++ exception
  that leaves a handler (\<open>std::stoi\<close> in \<open>Parse\<close> or \<open>isWSHandshake\<close>) ends the
  connection's activity with the event \<open>Hc_exception\<close>.
\<close>

datatype hc_op = Op_none | Op_handshake | Op_read | Op_write | Op_upgrade

datatype hc_event =
    Hc_handshake | Hc_read | Hc_write http_response | Hc_handler http_request
  | Hc_cancel | Hc_shutdown | Hc_close | Hc_exception cpp_exc
  | Hc_create_ws socket_kind string string

record http_conn =
  hc_kind :: socket_kind
  hc_origin :: string
  hc_parser :: http_parser
  hc_request :: http_request
  hc_response :: http_response
  hc_pending :: hc_op
  hc_log :: "hc_event list"

text \<open>\<open>Schema::Magic::ws_token\<close>\<close>

definition ws_token :: string where "ws_token = ''258EAFA5-E914-47DA-95CA-C5AB0DC85B11''"

definition hc_new :: "socket_kind \<Rightarrow> string \<Rightarrow> http_conn" where
  "hc_new k origin = \<lparr>hc_kind = k, hc_origin = origin, hc_parser = parser_reset,
     hc_request = empty_request, hc_response = empty_response, hc_pending = Op_none, hc_log = []\<rparr>"

definition do_read :: "http_conn \<Rightarrow> http_conn" where
  "do_read c = c\<lparr>hc_pending := Op_read, hc_log := hc_log c @ [Hc_read]\<rparr>"

definition do_write :: "http_conn \<Rightarrow> http_conn" where
  "do_write c = c\<lparr>hc_pending := Op_write, hc_log := hc_log c @ [Hc_write (hc_response c)]\<rparr>"

text \<open>\<open>stop\<close>: \<open>_cancel\<close>, \<open>_shutdown\<close>, \<open>_close\<close> of \<open>src/connection.cpp\<close>.\<close>

definition hc_stop :: "http_conn \<Rightarrow> http_conn" where
  "hc_stop c = c\<lparr>hc_pending := Op_none, hc_log := hc_log c @ [Hc_cancel, Hc_shutdown, Hc_close]\<rparr>"

text \<open>The two specialisations of \<open>Start\<close>.\<close>

definition hc_start :: "http_conn \<Rightarrow> http_conn" where
  "hc_start c =
     (case hc_kind c of
        TCP \<Rightarrow> do_read c
      | SSL \<Rightarrow> c\<lparr>hc_pending := Op_handshake, hc_log := hc_log c @ [Hc_handshake]\<rparr>)"

definition hc_handshake_done :: "io_result \<Rightarrow> http_conn \<Rightarrow> http_conn" where
  "hc_handshake_done r c = (if r = Io_ok then do_read c else c\<lparr>hc_pending := Op_none\<rparr>)"

text \<open>
  \<open>_generate_ws_handshake_headers\<close>: the two \<open>request_.headers[...]\<close> reads insert an
  empty value when the key is absent; the three response headers are inserted without
  overwriting; the subprotocol is assigned.
\<close>

definition generate_ws_handshake_headers :: "(string \<Rightarrow> string) \<Rightarrow> http_conn \<Rightarrow> http_conn" where
  "generate_ws_handshake_headers base64SHA1 c =
     (let (hs1, key) = subscript (rq_headers (hc_request c)) ''sec-websocket-key'';
          hash = base64SHA1 (key @ ws_token);
          rsp = hc_response c;
          h = map_insert (map_insert (map_insert (rs_headers rsp) ''Upgrade'' ''websocket'')
                ''Connection'' ''Upgrade'') ''Sec-WebSocket-Accept'' hash;
          (hs2, proto) = subscript hs1 ''sec-websocket-protocol'';
          h = (if proto = ''chat, superchat'' then h(''Sec-WebSocket-Protocol'' \<mapsto> ''chat'') else h)
      in c\<lparr>hc_request := (hc_request c)\<lparr>rq_headers := hs2\<rparr>,
           hc_response := rsp\<lparr>rs_status := Websocket_handshake, rs_headers := h\<rparr>\<rparr>)"

text \<open>\<open>process_ws_handshake\<close>: cancel, build the 101 response, write it.\<close>

definition process_ws_handshake :: "(string \<Rightarrow> string) \<Rightarrow> http_conn \<Rightarrow> http_conn" where
  "process_ws_handshake base64SHA1 c =
     (let c1 = generate_ws_handshake_headers base64SHA1 (c\<lparr>hc_log := hc_log c @ [Hc_cancel]\<rparr>)
      in c1\<lparr>hc_pending := Op_upgrade, hc_log := hc_log c1 @ [Hc_write (hc_response c1)]\<rparr>)"

text \<open>
  The read handler of \<open>do_read\<close>. \<open>handler_out\<close> is the response as
  \<open>HandleRequest\<close> leaves it, whether it returns or throws (the exception is caught).
\<close>

definition hc_read_done ::
  "(string \<Rightarrow> string) \<Rightarrow> http_response \<Rightarrow> io_result \<Rightarrow> string \<Rightarrow> http_conn \<Rightarrow> http_conn" where
  "hc_read_done base64SHA1 handler_out r bytes c =
     (if r = Io_ok then
        (let req0 = empty_request\<lparr>rq_is_http := (hc_kind c = TCP), rq_origin := hc_origin c\<rparr>;
             (res, p', req', _) = Parse (hc_parser c) req0 bytes;
             c1 = c\<lparr>hc_parser := p', hc_request := req', hc_response := empty_response\<rparr>
         in case res of
              Inl e \<Rightarrow> c1\<lparr>hc_pending := Op_none, hc_log := hc_log c1 @ [Hc_exception e]\<rparr>
            | Inr Good \<Rightarrow>
                (case isWSHandshake req' of
                   Inl e \<Rightarrow> c1\<lparr>hc_pending := Op_none, hc_log := hc_log c1 @ [Hc_exception e]\<rparr>
                 | Inr True \<Rightarrow> process_ws_handshake base64SHA1 c1
                 | Inr False \<Rightarrow>
                     do_write (c1\<lparr>hc_response := handler_out, hc_log := hc_log c1 @ [Hc_handler req']\<rparr>))
            | Inr Bad \<Rightarrow> do_write (c1\<lparr>hc_response := stock_reply Bad_request\<rparr>)
            | Inr Indeterminate \<Rightarrow> do_read c1)
      else if r = Io_error then hc_stop c
      else c\<lparr>hc_pending := Op_none\<rparr>)"

definition hc_write_done :: "io_result \<Rightarrow> http_conn \<Rightarrow> http_conn" where
  "hc_write_done r c =
     (if r = Io_ok then do_read c else if r = Io_error then hc_stop c else c\<lparr>hc_pending := Op_none\<rparr>)"

text \<open>
  \<open>_create_ws_connection\<close>, bound as the handler of the 101 write without the error
  code: it runs whatever the outcome of the write. \<open>pauuid sid = ...\<close> converts the
  value of the \<open>SID\<close> cookie (empty when there is none) with the string constructor of
  the external \<open>pauuid\<close>, which throws \<open>bad_lexical_cast\<close> on a string that is not a
  UUID (\<open>Cookie::is_pauuid\<close>); \<open>uuid_ok\<close> is the set of strings it accepts. The
  exception leaves the handler before the WebSocket connection is created.
\<close>

definition hc_sid :: "http_conn \<Rightarrow> string" where
  "hc_sid c = ck_value (getCookie (hc_request c) ''SID'')"

definition hc_upgrade_done :: "(string \<Rightarrow> bool) \<Rightarrow> io_result \<Rightarrow> http_conn \<Rightarrow> http_conn" where
  "hc_upgrade_done uuid_ok r c =
     (if uuid_ok (hc_sid c) then
        c\<lparr>hc_pending := Op_none, hc_log := hc_log c @ [Hc_create_ws (hc_kind c) (hc_sid c) (rq_uri (hc_request c))]\<rparr>
      else c\<lparr>hc_pending := Op_none, hc_log := hc_log c @ [Hc_exception Bad_lexical_cast]\<rparr>)"

subsection \<open>Runs of a connection\<close>

text \<open>
  The completion of the outstanding operation is the only thing that moves a connection.
  A read completes with 1 to 8192 bytes (\<open>max_buffer_length_\<close>) or an error.
\<close>

inductive hc_step :: "(string \<Rightarrow> string) \<Rightarrow> http_conn \<Rightarrow> http_conn \<Rightarrow> bool" for acc where
  handshake_done: "hc_pending c = Op_handshake \<Longrightarrow> hc_step acc c (hc_handshake_done r c)"
| read_done: "hc_pending c = Op_read \<Longrightarrow> (r = Io_ok \<longrightarrow> 0 < length bytes \<and> length bytes \<le> 8192)
    \<Longrightarrow> hc_step acc c (hc_read_done acc out r bytes c)"
| write_done: "hc_pending c = Op_write \<Longrightarrow> hc_step acc c (hc_write_done r c)"
| upgrade_done: "hc_pending c = Op_upgrade \<Longrightarrow> hc_step acc c (hc_upgrade_done uuid_ok r c)"

inductive hc_reachable :: "(string \<Rightarrow> string) \<Rightarrow> http_conn \<Rightarrow> bool" for acc where
  start: "hc_reachable acc (hc_start (hc_new k origin))"
| step: "hc_reachable acc c \<Longrightarrow> hc_step acc c c' \<Longrightarrow> hc_reachable acc c'"

fun is_create :: "hc_event \<Rightarrow> bool" where
  "is_create (Hc_create_ws _ _ _) = True"
| "is_create _ = False"

fun is_io :: "hc_event \<Rightarrow> bool" where
  "is_io Hc_read = True"
| "is_io (Hc_write _) = True"
| "is_io _ = False"

fun is_write :: "hc_event \<Rightarrow> bool" where
  "is_write (Hc_write _) = True"
| "is_write _ = False"

text \<open>
  Half-duplex use of the socket: a write is issued only right after a read has
  completed, so no two writes follow each other without a read between them.
\<close>

fun writes_after_reads :: "hc_event option \<Rightarrow> hc_event list \<Rightarrow> bool" where
  "writes_after_reads prev [] = True"
| "writes_after_reads prev (e # es) = ((is_write e \<longrightarrow> prev = Some Hc_read) \<and> writes_after_reads (Some e) es)"

definition io_trace :: "http_conn \<Rightarrow> hc_event list" where
  "io_trace c = filter is_io (hc_log c)"

definition pending_ok :: "http_conn \<Rightarrow> bool" where
  "pending_ok c =
     (case hc_pending c of
        Op_read \<Rightarrow> io_trace c \<noteq> [] \<and> last (io_trace c) = Hc_read
      | Op_write \<Rightarrow> io_trace c \<noteq> [] \<and> is_write (last (io_trace c))
      | Op_upgrade \<Rightarrow> io_trace c \<noteq> [] \<and> is_write (last (io_trace c))
      | Op_handshake \<Rightarrow> io_trace c = []
      | Op_none \<Rightarrow> True)"

definition ends_ok :: "http_conn \<Rightarrow> bool" where
  "ends_ok c \<longleftrightarrow>
     length (filter is_create (hc_log c)) + count_list (hc_log c) Hc_close
       \<le> (if hc_pending c = Op_none then 1 else 0)"

definition hc_inv :: "http_conn \<Rightarrow> bool" where
  "hc_inv c \<longleftrightarrow> writes_after_reads None (io_trace c) \<and> pending_ok c \<and> ends_ok c"

declare ws_token_def [model_simps] hc_new_def [model_simps] do_read_def [model_simps]
  do_write_def [model_simps] hc_stop_def [model_simps] hc_start_def [model_simps]
  hc_handshake_done_def [model_simps] generate_ws_handshake_headers_def [model_simps]
  process_ws_handshake_def [model_simps] hc_read_done_def [model_simps] hc_write_done_def [model_simps]
  hc_sid_def [model_simps] hc_upgrade_done_def [model_simps]

subsection \<open>Lemmas\<close>

inductive_cases hc_step_cases: "hc_step acc c c'"

lemma writes_after_reads_snoc:
  "writes_after_reads p (xs @ [e]) \<longleftrightarrow>
   writes_after_reads p xs \<and> (is_write e \<longrightarrow> (if xs = [] then p else Some (last xs)) = Some Hc_read)"
  by (induction xs arbitrary: p) auto

lemma count_list_filter_snoc [simp]:
  "count_list (xs @ ys) e = count_list xs e + count_list ys e"
  by (induction xs) simp_all

lemma hc_inv_start: "hc_inv (hc_start (hc_new k origin))"
  by (cases k) (simp_all add: hc_inv_def hc_start_def hc_new_def do_read_def io_trace_def pending_ok_def ends_ok_def)

lemma ends_ok_active: "ends_ok c \<Longrightarrow> hc_pending c \<noteq> Op_none \<Longrightarrow>
    filter is_create (hc_log c) = [] \<and> count_list (hc_log c) Hc_close = 0"
  by (simp add: ends_ok_def)

text \<open>The effect of the operations on the invariant, for a connection with no teardown yet.\<close>

lemma hc_inv_do_read:
  "writes_after_reads None (io_trace c) \<Longrightarrow> filter is_create (hc_log c) = [] \<Longrightarrow> count_list (hc_log c) Hc_close = 0
   \<Longrightarrow> hc_inv (do_read c)"
  by (simp add: hc_inv_def do_read_def io_trace_def pending_ok_def ends_ok_def writes_after_reads_snoc)

lemma hc_inv_do_write:
  "writes_after_reads None (io_trace c) \<Longrightarrow> io_trace c \<noteq> [] \<Longrightarrow> last (io_trace c) = Hc_read
   \<Longrightarrow> filter is_create (hc_log c) = [] \<Longrightarrow> count_list (hc_log c) Hc_close = 0
   \<Longrightarrow> hc_inv (do_write c)"
  by (simp add: hc_inv_def do_write_def io_trace_def pending_ok_def ends_ok_def writes_after_reads_snoc)

lemma hc_inv_process_ws_handshake:
  "writes_after_reads None (io_trace c) \<Longrightarrow> io_trace c \<noteq> [] \<Longrightarrow> last (io_trace c) = Hc_read
   \<Longrightarrow> filter is_create (hc_log c) = [] \<Longrightarrow> count_list (hc_log c) Hc_close = 0
   \<Longrightarrow> hc_inv (process_ws_handshake acc c)"
  by (simp add: hc_inv_def process_ws_handshake_def generate_ws_handshake_headers_def Let_def io_trace_def
      pending_ok_def ends_ok_def writes_after_reads_snoc split: prod.splits)

lemma hc_inv_stop:
  "writes_after_reads None (io_trace c) \<Longrightarrow> filter is_create (hc_log c) = [] \<Longrightarrow> count_list (hc_log c) Hc_close = 0
   \<Longrightarrow> hc_inv (hc_stop c)"
  by (simp add: hc_inv_def hc_stop_def io_trace_def pending_ok_def ends_ok_def)

lemma hc_inv_idle:
  "writes_after_reads None (io_trace c) \<Longrightarrow> filter is_create (hc_log c) = [] \<Longrightarrow> count_list (hc_log c) Hc_close = 0
   \<Longrightarrow> \<not> is_io e \<Longrightarrow> \<not> is_create e \<Longrightarrow> e \<noteq> Hc_close \<Longrightarrow> hc_inv (c\<lparr>hc_pending := Op_none, hc_log := hc_log c @ [e]\<rparr>)"
  "writes_after_reads None (io_trace c) \<Longrightarrow> filter is_create (hc_log c) = [] \<Longrightarrow> count_list (hc_log c) Hc_close = 0
   \<Longrightarrow> hc_inv (c\<lparr>hc_pending := Op_none\<rparr>)"
  by (simp_all add: hc_inv_def io_trace_def pending_ok_def ends_ok_def)

lemma hc_invD:
  assumes "hc_inv c" "hc_pending c \<noteq> Op_none"
  shows "writes_after_reads None (io_trace c)" "filter is_create (hc_log c) = []" "count_list (hc_log c) Hc_close = 0"
  using assms ends_ok_active by (simp_all add: hc_inv_def)

lemma hc_inv_read_done:
  assumes inv: "hc_inv c" and pend: "hc_pending c = Op_read"
  shows "hc_inv (hc_read_done acc out r bytes c)"
proof -
  note I = hc_invD [OF inv, unfolded pend, simplified]
  have last: "io_trace c \<noteq> []" "last (io_trace c) = Hc_read"
    using inv pend by (simp_all add: hc_inv_def pending_ok_def)
  show ?thesis
  proof (cases "r = Io_ok")
    case False
    then show ?thesis using I by (simp add: hc_read_done_def hc_inv_stop hc_inv_idle)
  next
    case True
    let ?req0 = "empty_request\<lparr>rq_is_http := (hc_kind c = TCP), rq_origin := hc_origin c\<rparr>"
    obtain res p' req' b where P: "Parse (hc_parser c) ?req0 bytes = (res, p', req', b)"
      by (cases "Parse (hc_parser c) ?req0 bytes") auto
    let ?c1 = "c\<lparr>hc_parser := p', hc_request := req', hc_response := empty_response\<rparr>"
    have same: "io_trace ?c1 = io_trace c" "hc_log ?c1 = hc_log c" by (simp_all add: io_trace_def)
    have out: "io_trace (?c1\<lparr>hc_response := x, hc_log := hc_log ?c1 @ [Hc_handler q]\<rparr>) = io_trace c" for x q
      by (simp add: io_trace_def)
    have eq: "hc_read_done acc out r bytes c =
      (case res of
         Inl e \<Rightarrow> ?c1\<lparr>hc_pending := Op_none, hc_log := hc_log ?c1 @ [Hc_exception e]\<rparr>
       | Inr Good \<Rightarrow>
           (case isWSHandshake req' of
              Inl e \<Rightarrow> ?c1\<lparr>hc_pending := Op_none, hc_log := hc_log ?c1 @ [Hc_exception e]\<rparr>
            | Inr True \<Rightarrow> process_ws_handshake acc ?c1
            | Inr False \<Rightarrow> do_write (?c1\<lparr>hc_response := out, hc_log := hc_log ?c1 @ [Hc_handler req']\<rparr>))
       | Inr Bad \<Rightarrow> do_write (?c1\<lparr>hc_response := stock_reply Bad_request\<rparr>)
       | Inr Indeterminate \<Rightarrow> do_read ?c1)"
      using True P by (simp add: hc_read_done_def Let_def)
    show ?thesis
    proof (cases res)
      case (Inl e)
      then show ?thesis using eq I same hc_inv_idle(1) [of ?c1 "Hc_exception e"] by simp
    next
      case (Inr v)
      show ?thesis
      proof (cases v)
        case Good
        show ?thesis
        proof (cases "isWSHandshake req'")
          case (Inl e)
          then show ?thesis using eq I same Inr Good hc_inv_idle(1) [of ?c1 "Hc_exception e"] by simp
        next
          case (Inr hs)
          then show ?thesis using eq I same out last \<open>res = Inr v\<close> Good
            hc_inv_process_ws_handshake [of ?c1 acc]
            hc_inv_do_write [of "?c1\<lparr>hc_response := out, hc_log := hc_log ?c1 @ [Hc_handler req']\<rparr>"]
            by (cases hs) simp_all
        qed
      next
        case Bad
        then show ?thesis using eq I same last Inr hc_inv_do_write [of "?c1\<lparr>hc_response := stock_reply Bad_request\<rparr>"]
          by (simp add: io_trace_def)
      next
        case Indeterminate
        then show ?thesis using eq I same Inr hc_inv_do_read [of ?c1] by simp
      qed
    qed
  qed
qed

lemma hc_inv_step: "hc_step acc c c' \<Longrightarrow> hc_inv c \<Longrightarrow> hc_inv c'"
proof (induction rule: hc_step.induct)
  case (handshake_done c r)
  then have "io_trace c = []" by (simp add: hc_inv_def pending_ok_def)
  then show ?case using handshake_done hc_invD [OF handshake_done.prems] hc_inv_do_read [of c] hc_inv_idle(2) [of c]
    by (simp add: hc_handshake_done_def)
next
  case (read_done c r bytes out)
  then show ?case by (simp add: hc_inv_read_done)
next
  case (write_done c r)
  note I = hc_invD [OF write_done.prems, unfolded write_done.hyps, simplified]
  show ?case using I hc_inv_do_read [of c] hc_inv_stop [of c] hc_inv_idle(2) [of c]
    by (simp add: hc_write_done_def)
next
  case (upgrade_done c uuid_ok r)
  note I = hc_invD [OF upgrade_done.prems, unfolded upgrade_done.hyps, simplified]
  show ?case using I by (simp add: hc_upgrade_done_def hc_inv_def io_trace_def pending_ok_def ends_ok_def)
qed

lemma hc_reachable_inv: "hc_reachable acc c \<Longrightarrow> hc_inv c"
  by (induction rule: hc_reachable.induct) (simp_all add: hc_inv_start hc_inv_step)

lemma hc_step_active: "hc_step acc c c' \<Longrightarrow> hc_pending c \<noteq> Op_none"
  by (induction rule: hc_step.induct) simp_all

lemma hc_read_done_handshake:
  "Parse (hc_parser c) (empty_request\<lparr>rq_is_http := (hc_kind c = TCP), rq_origin := hc_origin c\<rparr>) bytes
     = (Inr Good, p', req', b) \<Longrightarrow> isWSHandshake req' = Inr True \<Longrightarrow>
   hc_read_done acc out Io_ok bytes c
     = process_ws_handshake acc (c\<lparr>hc_parser := p', hc_request := req', hc_response := empty_response\<rparr>)"
  by (simp add: hc_read_done_def Let_def)

lemma generate_ws_handshake_headers_fields:
  "hc_log (generate_ws_handshake_headers acc c) = hc_log c"
  "hc_pending (generate_ws_handshake_headers acc c) = hc_pending c"
  by (simp_all add: generate_ws_handshake_headers_def Let_def split: prod.split)

lemma process_ws_handshake_fields:
  "hc_pending (process_ws_handshake acc c) = Op_upgrade"
  "hc_log (process_ws_handshake acc c) = hc_log c @ [Hc_cancel, Hc_write (hc_response (process_ws_handshake acc c))]"
  by (simp_all add: process_ws_handshake_def Let_def generate_ws_handshake_headers_fields)

lemma process_ws_handshake_status:
  "rs_status (hc_response (process_ws_handshake acc c)) = Websocket_handshake"
  by (simp add: process_ws_handshake_def generate_ws_handshake_headers_def Let_def split: prod.split)

lemma hc_read_done_upgrade:
  assumes "hc_pending (hc_read_done acc out r bytes c) = Op_upgrade"
  shows "\<exists>c1. hc_read_done acc out r bytes c = process_ws_handshake acc c1"
proof (cases "r = Io_ok")
  case True
  let ?req0 = "empty_request\<lparr>rq_is_http := (hc_kind c = TCP), rq_origin := hc_origin c\<rparr>"
  obtain res p' req' b where P: "Parse (hc_parser c) ?req0 bytes = (res, p', req', b)"
    by (cases "Parse (hc_parser c) ?req0 bytes") auto
  show ?thesis using assms True P
    by (auto simp: hc_read_done_def Let_def do_write_def do_read_def split: sum.splits result.splits bool.splits)
next
  case False
  then show ?thesis using assms by (simp add: hc_read_done_def hc_stop_def split: if_splits)
qed

text \<open>While the upgrade is outstanding, the last thing written is the 101 response.\<close>

lemma hc_upgrade_wrote_101:
  "hc_reachable acc c \<Longrightarrow> hc_pending c = Op_upgrade \<Longrightarrow>
     \<exists>rsp. io_trace c \<noteq> [] \<and> last (io_trace c) = Hc_write rsp \<and> rs_status rsp = Websocket_handshake"
proof (induction rule: hc_reachable.induct)
  case (start k origin)
  then show ?case by (cases k) (simp_all add: hc_start_def hc_new_def do_read_def)
next
  case (step c c')
  from step.hyps(2) step.prems show ?case
  proof (cases rule: hc_step.cases)
    case (read_done r bytes out)
    then obtain c1 where e: "c' = process_ws_handshake acc c1" using step.prems hc_read_done_upgrade by blast
    then show ?thesis
      by (simp add: io_trace_def process_ws_handshake_fields(2) [of acc c1] process_ws_handshake_status)
  qed (auto simp: hc_handshake_done_def hc_write_done_def hc_upgrade_done_def do_read_def hc_stop_def)
qed

subsection \<open>Properties of the connection\<close>

text \<open>
  C35: a connection hands its socket over to a WebSocket connection or tears it down
  at most once, never both, and after either it never runs again.
\<close>

theorem hc_terminal_once:
  "hc_reachable acc c \<Longrightarrow>
     length (filter is_create (hc_log c)) + count_list (hc_log c) Hc_close \<le> 1
   \<and> (filter is_create (hc_log c) \<noteq> [] \<or> Hc_close \<in> set (hc_log c) \<longrightarrow> (\<forall>c'. \<not> hc_step acc c c'))"
proof -
  assume "hc_reachable acc c"
  then have e: "ends_ok c" by (simp add: hc_reachable_inv [THEN hc_inv_def [THEN iffD1]])
  then have "length (filter is_create (hc_log c)) + count_list (hc_log c) Hc_close \<le> 1"
    by (simp add: ends_ok_def split: if_splits)
  moreover have "filter is_create (hc_log c) \<noteq> [] \<or> Hc_close \<in> set (hc_log c) \<Longrightarrow> hc_pending c = Op_none"
    using e ends_ok_active [of c] by (auto simp: count_list_0_iff)
  ultimately show ?thesis using hc_step_active by blast
qed

text \<open>
  C36: the socket is used half-duplex: every write the connection issues comes right
  after the completion of a read, never after another write.
\<close>

theorem hc_half_duplex: "hc_reachable acc c \<Longrightarrow> writes_after_reads None (io_trace c)"
  using hc_reachable_inv by (simp add: hc_inv_def)

text \<open>
  C37: bytes that the parser rejects are answered with the stock 400 reply, and the
  connection then waits for that write.
\<close>

theorem bad_request_reply:
  "fst (Parse (hc_parser c) (empty_request\<lparr>rq_is_http := (hc_kind c = TCP), rq_origin := hc_origin c\<rparr>) bytes)
     = Inr Bad \<Longrightarrow>
   hc_response (hc_read_done acc out Io_ok bytes c) = stock_reply Bad_request
   \<and> hc_pending (hc_read_done acc out Io_ok bytes c) = Op_write
   \<and> last (hc_log (hc_read_done acc out Io_ok bytes c)) = Hc_write (stock_reply Bad_request)"
  by (auto simp: hc_read_done_def Let_def do_write_def split: prod.splits)

text \<open>
  C38: the handshake answer is a 101 response with \<open>Upgrade: websocket\<close>,
  \<open>Connection: Upgrade\<close> and \<open>Sec-WebSocket-Accept\<close> the hash of the client key
  and the RFC 6455 GUID, with the subprotocol \<open>chat\<close> exactly when the client offered
  \<open>chat, superchat\<close>; it is the last thing written before the upgrade.
\<close>

theorem ws_handshake_response:
  assumes "rq_headers (hc_request c) ''sec-websocket-key'' = Some k"
    and "rs_headers (hc_response c) = Map.empty"
  shows "hc_pending (process_ws_handshake acc c) = Op_upgrade
   \<and> last (hc_log (process_ws_handshake acc c)) = Hc_write (hc_response (process_ws_handshake acc c))
   \<and> rs_status (hc_response (process_ws_handshake acc c)) = Websocket_handshake
   \<and> rs_headers (hc_response (process_ws_handshake acc c)) ''Upgrade'' = Some ''websocket''
   \<and> rs_headers (hc_response (process_ws_handshake acc c)) ''Connection'' = Some ''Upgrade''
   \<and> rs_headers (hc_response (process_ws_handshake acc c)) ''Sec-WebSocket-Accept'' = Some (acc (k @ ws_token))
   \<and> (rs_headers (hc_response (process_ws_handshake acc c)) ''Sec-WebSocket-Protocol'' = Some ''chat''
      \<longleftrightarrow> rq_headers (hc_request c) ''sec-websocket-protocol'' = Some ''chat, superchat'')"
  using assms
  by (auto simp: process_ws_handshake_def generate_ws_handshake_headers_def subscript_def Let_def
      split: option.splits)

text \<open>
  C15: \<open>isWSHandshake\<close> reads \<open>Sec-WebSocket-Version\<close> with an unguarded
  \<open>std::stoi\<close>: a grammatical WebSocket upgrade request with a non-empty key and a
  version that is not a number makes the read handler throw. The connection then
  neither answers nor reads again, and its socket is not torn down by it.
\<close>

theorem ws_version_stoi_throws:
  assumes "Parse (hc_parser c) (empty_request\<lparr>rq_is_http := (hc_kind c = TCP), rq_origin := hc_origin c\<rparr>) bytes
      = (Inr Good, p', req', b)"
    and "isWSUpgrade req'" and "uri_scheme (rq_uri req') = ''ws'' \<or> uri_scheme (rq_uri req') = ''wss''"
    and "rq_headers req' ''sec-websocket-key'' = Some k" and "k \<noteq> []"
    and "rq_headers req' ''sec-websocket-version'' = Some v" and "stoi v = Inl e"
  shows "hc_pending (hc_read_done acc out Io_ok bytes c) = Op_none
    \<and> hc_log (hc_read_done acc out Io_ok bytes c) = hc_log c @ [Hc_exception e]"
proof -
  have "isWSHandshake req' = Inl e" using assms(2-7) by (auto simp: isWSHandshake_def)
  then show ?thesis using assms(1) by (simp add: hc_read_done_def Let_def)
qed

text \<open>
  C39: \<open>_create_ws_connection\<close> converts the \<open>SID\<close> cookie after the 101 response has
  been written. In a reachable connection waiting for that write, a \<open>SID\<close> that is not
  a UUID makes the completion throw \<open>bad_lexical_cast\<close>: the client has been told
  \<open>101 Switching Protocols\<close>, the last thing the connection wrote, yet no WebSocket
  connection is created and the connection takes no further step.
\<close>

theorem upgrade_sid_throws_after_101:
  assumes "hc_reachable acc c" and "hc_pending c = Op_upgrade" and "\<not> uuid_ok (hc_sid c)"
  shows "hc_step acc c (hc_upgrade_done uuid_ok r c)
    \<and> (\<exists>rsp. last (io_trace (hc_upgrade_done uuid_ok r c)) = Hc_write rsp \<and> rs_status rsp = Websocket_handshake)
    \<and> filter is_create (hc_log (hc_upgrade_done uuid_ok r c)) = []
    \<and> last (hc_log (hc_upgrade_done uuid_ok r c)) = Hc_exception Bad_lexical_cast
    \<and> (\<forall>c'. \<not> hc_step acc (hc_upgrade_done uuid_ok r c) c')"
proof -
  obtain rsp where w: "io_trace c \<noteq> []" "last (io_trace c) = Hc_write rsp" "rs_status rsp = Websocket_handshake"
    using hc_upgrade_wrote_101 [OF assms(1,2)] by blast
  have "filter is_create (hc_log c) = []"
    using hc_invD(2) [OF hc_reachable_inv [OF assms(1)]] assms(2) by simp
  moreover have e: "hc_upgrade_done uuid_ok r c
      = c\<lparr>hc_pending := Op_none, hc_log := hc_log c @ [Hc_exception Bad_lexical_cast]\<rparr>"
    using assms(3) by (simp add: hc_upgrade_done_def)
  moreover have "hc_step acc c (hc_upgrade_done uuid_ok r c)" using assms(2) by (rule hc_step.upgrade_done)
  moreover have "\<forall>c'. \<not> hc_step acc (hc_upgrade_done uuid_ok r c) c'"
    using hc_step_active [of acc "hc_upgrade_done uuid_ok r c"] e by auto
  ultimately show ?thesis using w by (simp add: io_trace_def)
qed

subsection \<open>Witnesses\<close>

lemma hc_reachable_closed:
  "hc_reachable (\<lambda>s. s) (hc_read_done (\<lambda>s. s) empty_response Io_error [] (hc_start (hc_new TCP ''10.0.0.1'')))"
proof (rule hc_reachable.step [OF hc_reachable.start])
  show "hc_step (\<lambda>s. s) (hc_start (hc_new TCP ''10.0.0.1''))
      (hc_read_done (\<lambda>s. s) empty_response Io_error [] (hc_start (hc_new TCP ''10.0.0.1'')))"
    by (rule hc_step.read_done) (simp_all add: hc_start_def hc_new_def do_read_def)
qed

lemma hc_terminal_once_witness:
  "hc_reachable (\<lambda>s. s) (hc_read_done (\<lambda>s. s) empty_response Io_error [] (hc_start (hc_new TCP ''10.0.0.1'')))
   \<and> count_list (hc_log (hc_read_done (\<lambda>s. s) empty_response Io_error [] (hc_start (hc_new TCP ''10.0.0.1'')))) Hc_close = 1
   \<and> (\<forall>c'. \<not> hc_step (\<lambda>s. s) (hc_read_done (\<lambda>s. s) empty_response Io_error [] (hc_start (hc_new TCP ''10.0.0.1''))) c')"
proof -
  have c: "Hc_close \<in> set (hc_log (hc_read_done (\<lambda>s. s) empty_response Io_error [] (hc_start (hc_new TCP ''10.0.0.1''))))"
    and n: "count_list (hc_log (hc_read_done (\<lambda>s. s) empty_response Io_error [] (hc_start (hc_new TCP ''10.0.0.1'')))) Hc_close = 1"
    by (simp_all add: hc_read_done_def hc_stop_def hc_start_def hc_new_def do_read_def)
  show ?thesis using hc_terminal_once [OF hc_reachable_closed] hc_reachable_closed c n by blast
qed

lemma hc_half_duplex_witness:
  "hc_reachable (\<lambda>s. s) (hc_start (hc_new SSL ''10.0.0.1''))
   \<and> writes_after_reads None (io_trace (hc_start (hc_new SSL ''10.0.0.1'')))"
  using hc_half_duplex [OF hc_reachable.start] hc_reachable.start by blast

lemma bad_request_reply_witness:
  "fst (Parse parser_reset (empty_request\<lparr>rq_is_http := True, rq_origin := ''10.0.0.1''\<rparr>) ''G(ET'') = Inr Bad
   \<and> hc_response (hc_read_done (\<lambda>s. s) empty_response Io_ok ''G(ET'' (hc_start (hc_new TCP ''10.0.0.1'')))
       = stock_reply Bad_request
   \<and> hc_pending (hc_read_done (\<lambda>s. s) empty_response Io_ok ''G(ET'' (hc_start (hc_new TCP ''10.0.0.1''))) = Op_write"
proof -
  have e: "fst (Parse parser_reset (empty_request\<lparr>rq_is_http := True, rq_origin := ''10.0.0.1''\<rparr>) ''G(ET'') = Inr Bad"
    by (simp add: model_simps)
  have h: "fst (Parse (hc_parser (hc_start (hc_new TCP ''10.0.0.1'')))
      (empty_request\<lparr>rq_is_http := (hc_kind (hc_start (hc_new TCP ''10.0.0.1'')) = TCP),
         rq_origin := hc_origin (hc_start (hc_new TCP ''10.0.0.1''))\<rparr>) ''G(ET'') = Inr Bad"
    using e by (simp add: hc_start_def hc_new_def do_read_def)
  show ?thesis using bad_request_reply [OF h, of "\<lambda>s. s" empty_response] e by simp
qed

lemma ws_handshake_response_witness:
  "rq_headers (hc_request ((hc_new TCP ''10.0.0.1'')\<lparr>hc_request := empty_request\<lparr>rq_headers :=
       [''sec-websocket-key'' \<mapsto> ''dGhl'', ''sec-websocket-protocol'' \<mapsto> ''chat, superchat'']\<rparr>\<rparr>))
       ''sec-websocket-key'' = Some ''dGhl''
   \<and> rs_headers (hc_response ((hc_new TCP ''10.0.0.1'')\<lparr>hc_request := empty_request\<lparr>rq_headers :=
       [''sec-websocket-key'' \<mapsto> ''dGhl'', ''sec-websocket-protocol'' \<mapsto> ''chat, superchat'']\<rparr>\<rparr>)) = Map.empty
   \<and> rs_headers (hc_response (process_ws_handshake (\<lambda>s. s) ((hc_new TCP ''10.0.0.1'')\<lparr>hc_request := empty_request\<lparr>rq_headers :=
       [''sec-websocket-key'' \<mapsto> ''dGhl'', ''sec-websocket-protocol'' \<mapsto> ''chat, superchat'']\<rparr>\<rparr>)))
       ''Sec-WebSocket-Accept'' = Some (''dGhl'' @ ws_token)
   \<and> rs_headers (hc_response (process_ws_handshake (\<lambda>s. s) ((hc_new TCP ''10.0.0.1'')\<lparr>hc_request := empty_request\<lparr>rq_headers :=
       [''sec-websocket-key'' \<mapsto> ''dGhl'', ''sec-websocket-protocol'' \<mapsto> ''chat, superchat'']\<rparr>\<rparr>)))
       ''Sec-WebSocket-Protocol'' = Some ''chat''"
proof -
  let ?c = "(hc_new TCP ''10.0.0.1'')\<lparr>hc_request := empty_request\<lparr>rq_headers :=
       [''sec-websocket-key'' \<mapsto> ''dGhl'', ''sec-websocket-protocol'' \<mapsto> ''chat, superchat'']\<rparr>\<rparr>"
  have k: "rq_headers (hc_request ?c) ''sec-websocket-key'' = Some ''dGhl''" by simp
  have e: "rs_headers (hc_response ?c) = Map.empty" by (simp add: hc_new_def empty_response_def)
  show ?thesis using ws_handshake_response [OF k e, of "\<lambda>s. s"] k e by simp
qed

lemma ws_version_stoi_throws_witness:
  "\<exists>p' req' b. Parse (hc_parser (hc_start (hc_new TCP ''10.0.0.1'')))
        (empty_request\<lparr>rq_is_http := True, rq_origin := ''10.0.0.1''\<rparr>)
        (''GET /ws HTTP/1.1'' @ [CR, LF] @ ''Host: h'' @ [CR, LF] @ ''Upgrade: websocket'' @ [CR, LF]
         @ ''Connection: Upgrade'' @ [CR, LF] @ ''Sec-WebSocket-Key: k'' @ [CR, LF]
         @ ''Sec-WebSocket-Version: x'' @ [CR, LF, CR, LF]) = (Inr Good, p', req', b)
     \<and> isWSUpgrade req' \<and> uri_scheme (rq_uri req') = ''ws''
     \<and> rq_headers req' ''sec-websocket-key'' = Some ''k'' \<and> rq_headers req' ''sec-websocket-version'' = Some ''x''
     \<and> hc_log (hc_read_done (\<lambda>s. s) empty_response Io_ok
          (''GET /ws HTTP/1.1'' @ [CR, LF] @ ''Host: h'' @ [CR, LF] @ ''Upgrade: websocket'' @ [CR, LF]
           @ ''Connection: Upgrade'' @ [CR, LF] @ ''Sec-WebSocket-Key: k'' @ [CR, LF]
           @ ''Sec-WebSocket-Version: x'' @ [CR, LF, CR, LF]) (hc_start (hc_new TCP ''10.0.0.1'')))
        = [Hc_read, Hc_exception Invalid_argument]"
proof -
  let ?b = "''GET /ws HTTP/1.1'' @ [CR, LF] @ ''Host: h'' @ [CR, LF] @ ''Upgrade: websocket'' @ [CR, LF]
         @ ''Connection: Upgrade'' @ [CR, LF] @ ''Sec-WebSocket-Key: k'' @ [CR, LF]
         @ ''Sec-WebSocket-Version: x'' @ [CR, LF, CR, LF]"
  let ?c = "hc_start (hc_new TCP ''10.0.0.1'')"
  let ?q = "empty_request\<lparr>rq_is_http := True, rq_origin := ''10.0.0.1''\<rparr>"
  have c: "hc_parser ?c = parser_reset" "hc_kind ?c = TCP" "hc_origin ?c = ''10.0.0.1''" "hc_log ?c = [Hc_read]"
    by (simp_all add: hc_start_def hc_new_def do_read_def)
  let ?R = "Parse parser_reset ?q ?b"
  have G: "fst ?R = Inr Good \<and> isWSUpgrade (fst (snd (snd ?R))) \<and> uri_scheme (rq_uri (fst (snd (snd ?R)))) = ''ws''
    \<and> rq_headers (fst (snd (snd ?R))) ''sec-websocket-key'' = Some ''k''
    \<and> rq_headers (fst (snd (snd ?R))) ''sec-websocket-version'' = Some ''x''"
    by (simp add: model_simps)
  obtain res p' req' b where P: "?R = (res, p', req', b)" by (cases ?R) auto
  have g: "res = Inr Good" "isWSUpgrade req'" "uri_scheme (rq_uri req') = ''ws''"
    "rq_headers req' ''sec-websocket-key'' = Some ''k''" "rq_headers req' ''sec-websocket-version'' = Some ''x''"
    using G unfolding P by simp_all
  have s: "stoi ''x'' = Inl Invalid_argument" by (simp add: model_simps)
  have P': "Parse (hc_parser ?c) (empty_request\<lparr>rq_is_http := (hc_kind ?c = TCP), rq_origin := hc_origin ?c\<rparr>) ?b
      = (Inr Good, p', req', b)" using P g(1) c by simp
  have "hc_log (hc_read_done (\<lambda>s. s) empty_response Io_ok ?b ?c) = [Hc_read, Hc_exception Invalid_argument]"
    using ws_version_stoi_throws [OF P' g(2) _ g(4) _ g(5) s, of "\<lambda>s. s" empty_response] g(3) c by simp
  then show ?thesis using P g c by auto
qed

lemma upgrade_sid_throws_after_101_witness:
  "hc_reachable (\<lambda>s. s) (hc_read_done (\<lambda>s. s) empty_response Io_ok
     (''GET /ws HTTP/1.1'' @ [CR, LF] @ ''Host: h'' @ [CR, LF] @ ''Upgrade: websocket'' @ [CR, LF]
      @ ''Connection: Upgrade'' @ [CR, LF] @ ''Cookie: SID=xyz'' @ [CR, LF] @ ''Sec-WebSocket-Key: k'' @ [CR, LF]
      @ ''Sec-WebSocket-Version: 13'' @ [CR, LF, CR, LF])
     (hc_start (hc_new TCP ''10.0.0.1'')))
   \<and> last (hc_log (hc_upgrade_done (\<lambda>v. v = [] \<or> length v = 36) Io_ok (hc_read_done (\<lambda>s. s) empty_response Io_ok
     (''GET /ws HTTP/1.1'' @ [CR, LF] @ ''Host: h'' @ [CR, LF] @ ''Upgrade: websocket'' @ [CR, LF]
      @ ''Connection: Upgrade'' @ [CR, LF] @ ''Cookie: SID=xyz'' @ [CR, LF] @ ''Sec-WebSocket-Key: k'' @ [CR, LF]
      @ ''Sec-WebSocket-Version: 13'' @ [CR, LF, CR, LF])
     (hc_start (hc_new TCP ''10.0.0.1''))))) = Hc_exception Bad_lexical_cast"
proof -
  let ?b = "''GET /ws HTTP/1.1'' @ [CR, LF] @ ''Host: h'' @ [CR, LF] @ ''Upgrade: websocket'' @ [CR, LF]
      @ ''Connection: Upgrade'' @ [CR, LF] @ ''Cookie: SID=xyz'' @ [CR, LF] @ ''Sec-WebSocket-Key: k'' @ [CR, LF]
      @ ''Sec-WebSocket-Version: 13'' @ [CR, LF, CR, LF]"
  let ?c0 = "hc_start (hc_new TCP ''10.0.0.1'')"
  let ?c = "hc_read_done (\<lambda>s. s) empty_response Io_ok ?b ?c0"
  have r: "hc_reachable (\<lambda>s. s) ?c"
    by (rule hc_reachable.step [OF hc_reachable.start], rule hc_step.read_done)
       (simp_all add: hc_start_def hc_new_def do_read_def)
  have p: "hc_pending ?c = Op_upgrade" and sid: "hc_sid ?c = ''xyz''"
    by (simp_all add: model_simps process_ws_handshake_fields process_ws_handshake_def
        generate_ws_handshake_headers_def Let_def getCookie_def cookies_scan.simps split: prod.split)
  have u: "\<not> (hc_sid ?c = [] \<or> length (hc_sid ?c) = 36)" using sid by simp
  show ?thesis
    using upgrade_sid_throws_after_101 [where uuid_ok = "\<lambda>v. v = [] \<or> length v = 36" and r = Io_ok, OF r p u] r
    by simp
qed

end
