(* ===== verification/Server_Setup.thy ===== *)
theory Server_Setup
  imports Prelude
begin

text \<open>
  The configuration of the server: \<open>WebServerParams\<close> of
  \<open>src/webserver_params.h\<close>, and the TLS context that \<open>WebServer::setup_ssl\<close>
  (\<open>src/webserver.cpp\<close>) builds at construction. OpenSSL is external: what its calls
  do is the part of the state they set (options, certificate, key, ECDH curve, cipher
  list), and whether the certificate files exist and load is the environment
  \<open>ssl_env\<close>. The two \<open>use_*_file\<close> calls throw on a broken file; the ECDH and
  cipher-list calls return status codes that the code does not read.
\<close>

record web_server_params =
  local_host :: string
  local_http_port :: "16 word"
  local_https_port :: "16 word"
  remote_ip :: string
  remote_port :: "16 word"
  params_context :: bool

text \<open>
  The constructor \<open>WebServerParams(host, http_port, https_port)\<close>. \<open>remote_ip\<close> is a
  default \<open>IPAddress\<close> (the empty string here); \<open>remote_port\<close> is left
  uninitialised by the C++ constructor and is written by every accept before it is
  copied, so its initial value is never read (0 here); \<open>context\<close> is a null
  \<open>shared_ptr\<close>.
\<close>

definition WebServerParams :: "string \<Rightarrow> 16 word \<Rightarrow> 16 word \<Rightarrow> web_server_params" where
  "WebServerParams host http_port https_port =
     \<lparr>local_host = host, local_http_port = http_port, local_https_port = https_port,
      remote_ip = [], remote_port = 0, params_context = False\<rparr>"

datatype ssl_option = Default_workarounds | No_sslv2 | No_sslv3 | No_tlsv1_1 | Single_ecdh_use

record ssl_context =
  ctx_tlsv12 :: bool
  ctx_options :: "ssl_option list"
  ctx_certificate :: bool
  ctx_private_key :: bool
  ctx_ecdh :: bool
  ctx_ciphers :: "string list"

text \<open>\<open>std::make_shared<SSLContext>(acceptor_service, SSLContext::tlsv12)\<close>\<close>

definition ssl_context_tlsv12 :: ssl_context where
  "ssl_context_tlsv12 = \<lparr>ctx_tlsv12 = True, ctx_options = [], ctx_certificate = False,
     ctx_private_key = False, ctx_ecdh = False, ctx_ciphers = []\<rparr>"

text \<open>
  The environment of \<open>setup_ssl\<close>: whether \<open>server.crt\<close> and \<open>server.key\<close> exist
  beside the process, and whether \<open>use_certificate_chain_file\<close> and
  \<open>use_private_key_file\<close> succeed on them.
\<close>

record ssl_env =
  crt_exists :: bool
  key_exists :: bool
  crt_loads :: bool
  key_loads :: bool

text \<open>
  The cipher list: the four OpenSSL names the \<open>TLS1_TXT_*\<close> macros expand to,
  separated by spaces in one string in the code.
\<close>

definition cipher_list :: "string list" where
  "cipher_list = [''ECDHE-RSA-AES256-GCM-SHA384'', ''ECDHE-RSA-AES128-GCM-SHA256'',
     ''AES256-GCM-SHA384'', ''AES128-GCM-SHA256'']"

text \<open>
  \<open>setup_ssl\<close>: set the options; if both files exist, load the certificate chain and
  the private key (a throw skips the rest of the \<open>try\<close> and logs that TLS is
  broken), then the ECDH curve and the cipher list; otherwise log that the files are
  absent. In every case \<open>params_.context\<close> is set. The result is the context, the
  parameters and the messages logged.
\<close>

definition ssl_broken_msg :: string where
  "ssl_broken_msg = ''SSL certificate and/or private key broken. SSL disabled. Security broken.''"

definition ssl_absent_msg :: string where
  "ssl_absent_msg = ''SSL certificate and/or private key absent. SSL disabled. Security broken.''"

definition setup_ssl :: "ssl_env \<Rightarrow> ssl_context \<Rightarrow> web_server_params
    \<Rightarrow> ssl_context \<times> web_server_params \<times> string list" where
  "setup_ssl env ctx params =
     (let ctx1 = ctx\<lparr>ctx_options := [Default_workarounds, No_sslv2, No_sslv3, No_tlsv1_1, Single_ecdh_use]\<rparr>;
          (ctx2, msgs) =
            (if crt_exists env \<and> key_exists env then
               (if \<not> crt_loads env then (ctx1, [ssl_broken_msg])
                else if \<not> key_loads env then (ctx1\<lparr>ctx_certificate := True\<rparr>, [ssl_broken_msg])
                else (ctx1\<lparr>ctx_certificate := True, ctx_private_key := True, ctx_ecdh := True,
                           ctx_ciphers := cipher_list\<rparr>, []))
             else (ctx1, [ssl_absent_msg]))
      in (ctx2, params\<lparr>params_context := True\<rparr>, msgs))"

text \<open>A context with which the TLS handshake can succeed: a certificate and its private key.\<close>

definition tls_usable :: "ssl_context \<Rightarrow> bool" where
  "tls_usable ctx \<longleftrightarrow> ctx_certificate ctx \<and> ctx_private_key ctx"

subsection \<open>Lemmas\<close>

lemma setup_ssl_params: "fst (snd (setup_ssl env ctx p)) = p\<lparr>params_context := True\<rparr>"
  by (simp add: setup_ssl_def Let_def split: prod.split)

lemma setup_ssl_usable:
  "tls_usable (fst (setup_ssl env ssl_context_tlsv12 p))
     \<longleftrightarrow> crt_exists env \<and> key_exists env \<and> crt_loads env \<and> key_loads env"
  by (auto simp: setup_ssl_def Let_def tls_usable_def ssl_context_tlsv12_def split: prod.split)

lemma setup_ssl_log:
  "snd (snd (setup_ssl env ctx p)) =
     (if crt_exists env \<and> key_exists env then
        (if crt_loads env \<and> key_loads env then [] else [ssl_broken_msg])
      else [ssl_absent_msg])"
  by (simp add: setup_ssl_def Let_def split: prod.split)

end
