(* ===== verification/Web_Server.thy ===== *)
theory Web_Server
  imports Http_Connection Server_Setup
begin

text \<open>
  The server of \<open>src/webserver.cpp\<close> put together: construction with the TLS
  setup, the two acceptors with their accept loops (\<open>Start\<close>, \<open>Stop\<close>,
  \<open>do_accept_http\<close>, \<open>do_accept_https\<close>), the HTTP connections they create, and
  the WebSocket registry of \<open>Ws_Registry\<close> into which an upgrading HTTP connection
  hands its socket.

  The two accept handlers run on the threads of the acceptor's \<open>io_service\<close> and
  share the member \<open>params_\<close>: each writes the peer's address into it and then
  copies it into the new connection. A handler is therefore two steps,
  \<open>accept_begin\<close> (up to the write of \<open>params_\<close>) and \<open>accept_finish\<close> (the
  copy, \<open>Start\<close> and the next \<open>async_accept\<close>), and \<open>sv_handler\<close> holds, per
  acceptor, the peer of a handler between the two. \<open>sys_step\<close> is labelled, so
  that runs can be stated as lists of labels.
\<close>

record 'id web_server =
  sv_http_open :: bool
  sv_https_open :: bool
  sv_http_accepting :: bool
  sv_https_accepting :: bool
  sv_params :: web_server_params
  sv_ctx :: ssl_context
  sv_log :: "string list"
  sv_handler :: "socket_kind \<Rightarrow> (string \<times> 16 word) option"
  sv_http :: "http_conn list"
  sv_peer :: "(string \<times> 16 word) list"
  sv_ws :: "'id ws_server"

text \<open>
  The server once its members are constructed: both acceptors bound and listening,
  no accept issued yet, no connection. \<open>sv_peer\<close> holds the remote endpoint of the
  socket of each HTTP connection, in the order of \<open>sv_http\<close>.
\<close>

definition web_server_new :: "ssl_context \<Rightarrow> web_server_params \<Rightarrow> 'id web_server" where
  "web_server_new ctx p = \<lparr>sv_http_open = True, sv_https_open = True, sv_http_accepting = False,
     sv_https_accepting = False, sv_params = p, sv_ctx = ctx, sv_log = [], sv_handler = (\<lambda>_. None),
     sv_http = [], sv_peer = [], sv_ws = ws_server_init\<rparr>"

datatype system_error = System_error

text \<open>
  The constructor: the acceptors are bound in the member initialisers, and a
  \<open>system_error\<close> there is logged by the function-try-block's handler, which then
  rethrows it (a constructor's handler cannot swallow the exception). Otherwise the
  TLS context is created and \<open>setup_ssl\<close> runs.
\<close>

definition WebServer :: "bool \<Rightarrow> bool \<Rightarrow> ssl_env \<Rightarrow> web_server_params
    \<Rightarrow> string list \<times> (system_error + 'id web_server)" where
  "WebServer bind_http bind_https env params =
     (if bind_http \<and> bind_https then
        (case setup_ssl env ssl_context_tlsv12 params of
           (ctx, p, msgs) \<Rightarrow> (msgs, Inr (web_server_new ctx p)))
      else ([''Error in boost::asio acceptor creation. Error info (code + message) follows.''],
            Inl System_error))"

definition acceptor_open :: "socket_kind \<Rightarrow> 'id web_server \<Rightarrow> bool" where
  "acceptor_open k s = (case k of TCP \<Rightarrow> sv_http_open s | SSL \<Rightarrow> sv_https_open s)"

definition set_accepting :: "socket_kind \<Rightarrow> bool \<Rightarrow> 'id web_server \<Rightarrow> 'id web_server" where
  "set_accepting k b s = (case k of TCP \<Rightarrow> s\<lparr>sv_http_accepting := b\<rparr> | SSL \<Rightarrow> s\<lparr>sv_https_accepting := b\<rparr>)"

definition accepting :: "socket_kind \<Rightarrow> 'id web_server \<Rightarrow> bool" where
  "accepting k s = (case k of TCP \<Rightarrow> sv_http_accepting s | SSL \<Rightarrow> sv_https_accepting s)"

text \<open>\<open>Start\<close>: \<open>do_accept_http(); do_accept_https();\<close>\<close>

definition server_Start :: "'id web_server \<Rightarrow> 'id web_server" where
  "server_Start s = set_accepting SSL True (set_accepting TCP True s)"

text \<open>
  \<open>Stop\<close>: close both acceptors into the same \<open>error_code ec\<close> and log if it is
  set. The second \<open>close\<close> overwrites \<open>ec\<close>, so only its failure is logged.
  Existing connections are left running.
\<close>

definition acceptor_close_msg :: string where
  "acceptor_close_msg = ''Exception happened while closing http(s) acceptor. Error info (code+message) follows.''"

definition server_Stop :: "bool \<Rightarrow> bool \<Rightarrow> 'id web_server \<Rightarrow> 'id web_server" where
  "server_Stop http_close_fails https_close_fails s =
     (let ec = http_close_fails; ec = https_close_fails in
      s\<lparr>sv_http_open := False, sv_https_open := False,
        sv_log := sv_log s @ (if ec then [acceptor_close_msg] else [])\<rparr>)"

text \<open>
  The completion handler of \<open>async_accept\<close> up to the write of \<open>params_\<close>: on a
  closed acceptor the handler returns and the loop ends; on an error the next accept is
  issued; otherwise \<open>remote_endpoint()\<close> of the accepted socket is written into
  \<open>params_\<close>. \<open>peer\<close> is what \<open>remote_endpoint()\<close> returns, \<open>None\<close> when it throws
  \<open>system_error\<close> because the peer has already reset the connection: the exception
  leaves the handler before the next \<open>async_accept\<close> is issued.
\<close>

definition accept_begin ::
  "socket_kind \<Rightarrow> io_result \<Rightarrow> (string \<times> 16 word) option \<Rightarrow> 'id web_server \<Rightarrow> 'id web_server" where
  "accept_begin k r peer s =
     (let s0 = set_accepting k False s in
      if \<not> acceptor_open k s then s0
      else if r \<noteq> Io_ok then set_accepting k True s0
      else case peer of
             None \<Rightarrow> s0
           | Some (ip, port) \<Rightarrow>
               s0\<lparr>sv_params := (sv_params s0)\<lparr>remote_ip := ip, remote_port := port\<rparr>,
                  sv_handler := (sv_handler s0)(k := Some (ip, port))\<rparr>)"

text \<open>
  The rest of the handler: the connection is created with a copy of \<open>params_\<close> (its
  request origin is \<open>params.remote_ip\<close>) and started, and the next accept is issued.
\<close>

definition accept_finish :: "socket_kind \<Rightarrow> 'id web_server \<Rightarrow> 'id web_server" where
  "accept_finish k s =
     (case sv_handler s k of
        None \<Rightarrow> s
      | Some p \<Rightarrow>
          set_accepting k True
            (s\<lparr>sv_http := sv_http s @ [hc_start (hc_new k (remote_ip (sv_params s)))],
               sv_peer := sv_peer s @ [p], sv_handler := (sv_handler s)(k := None)\<rparr>))"

fun handed_over :: "http_conn \<Rightarrow> bool" where
  "handed_over c = (filter is_create (hc_log c) \<noteq> [])"

datatype sys_label =
    L_start | L_stop | L_accept socket_kind | L_finish socket_kind | L_http nat | L_upgrade nat | L_ws

text \<open>
  One step of the server: \<open>Start\<close>, \<open>Stop\<close>, the two parts of an accept handler,
  a step of an HTTP connection, an upgrade (the last HTTP step together with
  \<open>_create_ws_connection\<close> on the registry with a fresh id), or a step of the
  registry and its WebSocket connections.
\<close>

inductive sys_step :: "(string \<Rightarrow> string) \<Rightarrow> sys_label \<Rightarrow> 'id web_server \<Rightarrow> 'id web_server \<Rightarrow> bool"
  for acc where
  start: "sys_step acc L_start s (server_Start s)"
| stop: "sys_step acc L_stop s (server_Stop e1 e2 s)"
| accept: "accepting k s \<Longrightarrow> sv_handler s k = None \<Longrightarrow> sys_step acc (L_accept k) s (accept_begin k r peer s)"
| finish: "sv_handler s k \<noteq> None \<Longrightarrow> sys_step acc (L_finish k) s (accept_finish k s)"
| http: "i < length (sv_http s) \<Longrightarrow> hc_pending (sv_http s ! i) \<noteq> Op_upgrade \<Longrightarrow> hc_step acc (sv_http s ! i) c'
    \<Longrightarrow> sys_step acc (L_http i) s (s\<lparr>sv_http := (sv_http s)[i := c']\<rparr>)"
| upgrade: "i < length (sv_http s) \<Longrightarrow> hc_pending (sv_http s ! i) = Op_upgrade
    \<Longrightarrow> conn_id \<notin> dom (ws_conns (sv_ws s)) \<Longrightarrow> conn_id \<notin> dom (ws_secure_conns (sv_ws s))
    \<Longrightarrow> sys_step acc (L_upgrade i) s (s\<lparr>sv_http := (sv_http s)[i := hc_upgrade_done uuid_ok r (sv_http s ! i)],
          sv_ws := (if uuid_ok (hc_sid (sv_http s ! i))
                    then create_ws_connection (hc_kind (sv_http s ! i)) conn_id (sv_ws s) else sv_ws s)\<rparr>)"
| ws: "srv_step (sv_ws s) w' \<Longrightarrow> next_handle w' = next_handle (sv_ws s) \<Longrightarrow> sys_step acc L_ws s (s\<lparr>sv_ws := w'\<rparr>)"

inductive sys_reachable :: "(string \<Rightarrow> string) \<Rightarrow> 'id web_server \<Rightarrow> bool" for acc where
  init: "snd (WebServer b1 b2 env p) = Inr s \<Longrightarrow> sys_reachable acc s"
| step: "sys_reachable acc s \<Longrightarrow> sys_step acc l s s' \<Longrightarrow> sys_reachable acc s'"

inductive sys_run :: "(string \<Rightarrow> string) \<Rightarrow> sys_label list \<Rightarrow> 'id web_server \<Rightarrow> 'id web_server \<Rightarrow> bool"
  for acc where
  nil: "sys_run acc [] s s"
| cons: "sys_step acc l s s1 \<Longrightarrow> sys_run acc ls s1 s2 \<Longrightarrow> sys_run acc (l # ls) s s2"

text \<open>
  The runs of a server whose acceptor \<open>io_service\<close> has one thread: a handler that
  has begun runs to its end before anything else happens.
\<close>

definition handlers_idle :: "'id web_server \<Rightarrow> bool" where
  "handlers_idle s \<longleftrightarrow> sv_handler s TCP = None \<and> sv_handler s SSL = None"

inductive serial_reachable :: "(string \<Rightarrow> string) \<Rightarrow> 'id web_server \<Rightarrow> bool" for acc where
  init: "snd (WebServer b1 b2 env p) = Inr s \<Longrightarrow> serial_reachable acc s"
| step: "serial_reachable acc s \<Longrightarrow> sys_step acc l s s' \<Longrightarrow> handlers_idle s \<or> handlers_idle s'
    \<Longrightarrow> serial_reachable acc s'"

text \<open>
  The system invariant: the registry has allocated one WebSocket connection per HTTP
  connection that handed its socket over, and every component keeps its own invariant.
\<close>

definition sys_inv :: "'id web_server \<Rightarrow> bool" where
  "sys_inv s \<longleftrightarrow> next_handle (sv_ws s) = length (filter handed_over (sv_http s))
     \<and> srv_inv (sv_ws s) \<and> list_all hc_inv (sv_http s)"

text \<open>
  Every HTTP connection carries the address of its own peer, and a handler between its
  two steps has written its peer's address into \<open>params_\<close>.
\<close>

definition origin_ok :: "'id web_server \<Rightarrow> bool" where
  "origin_ok s \<longleftrightarrow> map hc_origin (sv_http s) = map fst (sv_peer s)
     \<and> (\<forall>k p. sv_handler s k = Some p \<longrightarrow> remote_ip (sv_params s) = fst p)"

declare web_server_new_def [model_simps] acceptor_open_def [model_simps] set_accepting_def [model_simps]
  accepting_def [model_simps] server_Start_def [model_simps] server_Stop_def [model_simps]
  accept_begin_def [model_simps] accept_finish_def [model_simps] WebServer_def [model_simps]

subsection \<open>Lemmas\<close>

lemma hc_read_done_creates:
  "filter is_create (hc_log (hc_read_done acc out r bytes c)) = filter is_create (hc_log c)"
  by (auto simp: hc_read_done_def Let_def process_ws_handshake_def generate_ws_handshake_headers_def
      do_write_def do_read_def hc_stop_def split: prod.splits sum.splits result.splits bool.splits)

lemma hc_step_creates:
  "hc_step acc c c' \<Longrightarrow> hc_pending c \<noteq> Op_upgrade \<Longrightarrow> filter is_create (hc_log c') = filter is_create (hc_log c)"
  by (induction rule: hc_step.induct)
     (simp_all add: hc_read_done_creates hc_handshake_done_def hc_write_done_def do_read_def hc_stop_def)

lemma hc_read_done_origin: "hc_origin (hc_read_done acc out r bytes c) = hc_origin c"
  by (auto simp: hc_read_done_def Let_def process_ws_handshake_def generate_ws_handshake_headers_def
      do_write_def do_read_def hc_stop_def split: prod.splits sum.splits result.splits bool.splits)

lemma hc_step_origin: "hc_step acc c c' \<Longrightarrow> hc_origin c' = hc_origin c"
  by (induction rule: hc_step.induct)
     (simp_all add: hc_read_done_origin hc_handshake_done_def hc_write_done_def hc_upgrade_done_def
        do_read_def hc_stop_def)

lemma WebServer_ok:
  "snd (WebServer True True env p)
     = Inr (web_server_new (fst (setup_ssl env ssl_context_tlsv12 p)) (fst (snd (setup_ssl env ssl_context_tlsv12 p))))"
  by (simp add: WebServer_def split: prod.split)

lemma WebServer_Inr: "snd (WebServer b1 b2 env p) = Inr s \<Longrightarrow> \<exists>ctx q. s = web_server_new ctx q"
  by (auto simp: WebServer_def split: if_splits prod.splits)

lemma set_accepting_fields [simp]:
  "sv_http (set_accepting k b s) = sv_http s" "sv_ws (set_accepting k b s) = sv_ws s"
  "sv_peer (set_accepting k b s) = sv_peer s" "sv_params (set_accepting k b s) = sv_params s"
  "sv_handler (set_accepting k b s) = sv_handler s" "acceptor_open k' (set_accepting k b s) = acceptor_open k' s"
  "accepting k' (set_accepting k b s) = (if k' = k then b else accepting k' s)"
  by (cases k; cases k'; simp add: set_accepting_def acceptor_open_def accepting_def)+

lemma accept_begin_fields:
  "sv_http (accept_begin k r peer s) = sv_http s" "sv_ws (accept_begin k r peer s) = sv_ws s"
  "sv_peer (accept_begin k r peer s) = sv_peer s"
  "k' \<noteq> k \<Longrightarrow> sv_handler (accept_begin k r peer s) k' = sv_handler s k'"
  "k' \<noteq> k \<Longrightarrow> accepting k' (accept_begin k r peer s) = accepting k' s"
  by (cases k; cases k'; auto simp: accept_begin_def Let_def accepting_def set_accepting_def split: option.split)+

lemma accept_finish_fields:
  "sv_handler s k = Some p \<Longrightarrow> sv_http (accept_finish k s) = sv_http s @ [hc_start (hc_new k (remote_ip (sv_params s)))]"
  "sv_handler s k = Some p \<Longrightarrow> sv_peer (accept_finish k s) = sv_peer s @ [p]"
  "sv_ws (accept_finish k s) = sv_ws s" "sv_params (accept_finish k s) = sv_params s"
  "sv_handler s k = Some p \<Longrightarrow> sv_handler (accept_finish k s) = (sv_handler s)(k := None)"
  by (simp_all add: accept_finish_def split: option.split)

lemma sys_inv_new: "sys_inv (web_server_new ctx p)"
  using srv_inv_init by (simp add: sys_inv_def web_server_new_def ws_server_init_def)

lemma sys_inv_flags:
  "sys_inv s \<Longrightarrow> sv_http s' = sv_http s \<Longrightarrow> sv_ws s' = sv_ws s \<Longrightarrow> sys_inv s'"
  by (simp add: sys_inv_def)

lemma sys_inv_finish:
  assumes "sys_inv s" shows "sys_inv (accept_finish k s)"
proof (cases "sv_handler s k")
  case None
  then show ?thesis using assms by (simp add: accept_finish_def)
next
  case (Some p)
  have "\<not> handed_over (hc_start (hc_new k (remote_ip (sv_params s))))"
    by (cases k) (simp_all add: hc_start_def hc_new_def do_read_def)
  then show ?thesis using assms hc_inv_start [of k "remote_ip (sv_params s)"]
    by (simp add: sys_inv_def accept_finish_fields(1) [OF Some] accept_finish_fields(3))
qed

lemma sys_inv_http:
  assumes inv: "sys_inv s" and i: "i < length (sv_http s)" and p: "hc_pending (sv_http s ! i) \<noteq> Op_upgrade"
    and st: "hc_step acc (sv_http s ! i) c'"
  shows "sys_inv (s\<lparr>sv_http := (sv_http s)[i := c']\<rparr>)"
proof -
  have "hc_inv (sv_http s ! i)" using inv i by (simp add: sys_inv_def list_all_length)
  then have "hc_inv c'" by (rule hc_inv_step [OF st])
  moreover have "handed_over c' = handed_over (sv_http s ! i)"
    using hc_step_creates [OF st p] by simp
  ultimately show ?thesis using inv i length_filter_update [OF i, of handed_over c']
    by (auto simp: sys_inv_def list_all_length nth_list_update)
qed

lemma sys_inv_upgrade:
  assumes inv: "sys_inv s" and i: "i < length (sv_http s)" and p: "hc_pending (sv_http s ! i) = Op_upgrade"
  shows "sys_inv (s\<lparr>sv_http := (sv_http s)[i := hc_upgrade_done u r (sv_http s ! i)],
           sv_ws := (if u (hc_sid (sv_http s ! i))
                     then create_ws_connection (hc_kind (sv_http s ! i)) conn_id (sv_ws s) else sv_ws s)\<rparr>)"
proof -
  let ?c = "sv_http s ! i"
  have hi: "hc_inv ?c" using inv i by (simp add: sys_inv_def list_all_length)
  have st: "hc_step acc ?c (hc_upgrade_done u r ?c)" using p by (rule hc_step.upgrade_done)
  have h': "hc_inv (hc_upgrade_done u r ?c)" using hc_inv_step [OF st hi] .
  have n: "\<not> handed_over ?c" using ends_ok_active [of ?c] hi p by (simp add: hc_inv_def)
  have l: "length (filter handed_over ((sv_http s)[i := hc_upgrade_done u r ?c]))
      = length (filter handed_over (sv_http s)) + (if u (hc_sid ?c) then 1 else 0)"
    using length_filter_update [OF i, of handed_over "hc_upgrade_done u r ?c"] n
    by (simp add: hc_upgrade_done_def)
  have w1: "srv_inv (if u (hc_sid ?c) then create_ws_connection (hc_kind ?c) conn_id (sv_ws s) else sv_ws s)"
    using inv by (simp add: sys_inv_def srv_inv_create)
  have w2: "next_handle (if u (hc_sid ?c) then create_ws_connection (hc_kind ?c) conn_id (sv_ws s) else sv_ws s)
        = next_handle (sv_ws s) + (if u (hc_sid ?c) then 1 else 0)"
    by (simp add: create_ws_connection_eq WSAddSession_def split: socket_kind.splits)
  show ?thesis using inv i h' l w1 w2 by (auto simp: sys_inv_def list_all_length nth_list_update)
qed

lemma sys_inv_step: "sys_step acc l s s' \<Longrightarrow> sys_inv s \<Longrightarrow> sys_inv s'"
proof (induction rule: sys_step.induct)
  case (start s)
  then show ?case by (rule sys_inv_flags) (simp_all add: server_Start_def)
next
  case (stop s e1 e2)
  then show ?case by (rule sys_inv_flags) (simp_all add: server_Stop_def)
next
  case (accept k s r peer)
  then show ?case using sys_inv_flags [of s "accept_begin k r peer s"] by (simp add: accept_begin_fields)
next
  case (finish s k)
  then show ?case by (simp add: sys_inv_finish)
next
  case (http i s c')
  then show ?case by (simp add: sys_inv_http)
next
  case (upgrade i s conn_id u r)
  then show ?case by (simp add: sys_inv_upgrade)
next
  case (ws s w')
  then show ?case by (simp add: sys_inv_def srv_step_inv)
qed

lemma sys_reachable_inv: "sys_reachable acc s \<Longrightarrow> sys_inv s"
  by (induction rule: sys_reachable.induct) (auto dest: WebServer_Inr simp: sys_inv_new sys_inv_step)

lemma hc_origin_start [simp]: "hc_origin (hc_start (hc_new k org)) = org"
  by (cases k) (simp_all add: hc_start_def hc_new_def do_read_def)

lemma accept_begin_dead:
  "acceptor_open k s \<Longrightarrow> accept_begin k Io_ok None s = set_accepting k False s"
  by (simp add: accept_begin_def)

lemma WebServer_reachable:
  "sys_reachable acc (web_server_new (fst (setup_ssl env ssl_context_tlsv12 p)) (fst (snd (setup_ssl env ssl_context_tlsv12 p))))"
  "serial_reachable acc (web_server_new (fst (setup_ssl env ssl_context_tlsv12 p)) (fst (snd (setup_ssl env ssl_context_tlsv12 p))))"
  using WebServer_ok by (blast intro: sys_reachable.init serial_reachable.init)+

lemma started_fields:
  "accepting k (server_Start (web_server_new ctx q))" "sv_handler (server_Start (web_server_new ctx q)) k = None"
  "acceptor_open k (server_Start (web_server_new ctx q))"
  by (cases k; simp add: server_Start_def web_server_new_def acceptor_open_def accepting_def set_accepting_def)+

lemma server_Stop_log: "sv_log (server_Stop e1 e2 s) = sv_log s @ (if e2 then [acceptor_close_msg] else [])"
  by (simp add: server_Stop_def)

subsection \<open>The address a connection is given\<close>

lemma accept_flags:
  "acceptor_open k' (accept_begin k r peer s) = acceptor_open k' s"
  "acceptor_open k' (accept_finish k s) = acceptor_open k' s"
  "k' \<noteq> k \<Longrightarrow> accepting k' (accept_finish k s) = accepting k' s"
  by (cases k; cases k'; simp add: accept_begin_def accept_finish_def Let_def acceptor_open_def accepting_def
        set_accepting_def split: option.split)+

lemma origin_ok_new: "origin_ok (web_server_new ctx p)"
  by (simp add: origin_ok_def web_server_new_def)

lemma handlers_idle_None: "handlers_idle s \<Longrightarrow> sv_handler s k = None"
  by (cases k) (simp_all add: handlers_idle_def)

lemma origin_ok_begin:
  assumes "origin_ok s" and "handlers_idle s"
  shows "origin_ok (accept_begin k r peer s)"
proof -
  have n: "sv_handler s k' = None" for k' using assms(2) by (rule handlers_idle_None)
  show ?thesis using assms(1) n
    by (cases k) (auto simp: origin_ok_def accept_begin_def Let_def set_accepting_def split: option.splits)
qed

lemma origin_ok_finish:
  assumes "origin_ok s" shows "origin_ok (accept_finish k s)"
proof (cases "sv_handler s k")
  case None
  then show ?thesis using assms by (simp add: accept_finish_def)
next
  case (Some p)
  then have "remote_ip (sv_params s) = fst p" using assms unfolding origin_ok_def by blast
  then show ?thesis using assms
    by (auto simp: origin_ok_def accept_finish_fields(1,2,5) [OF Some] accept_finish_fields(4))
qed

lemma map_origin_update:
  "i < length cs \<Longrightarrow> hc_origin c' = hc_origin (cs ! i) \<Longrightarrow> map hc_origin (cs[i := c']) = map hc_origin cs"
  by (metis length_map list_update_id map_update nth_map)

lemma hc_upgrade_done_origin: "hc_origin (hc_upgrade_done u r c) = hc_origin c"
  by (simp add: hc_upgrade_done_def hc_stop_def Let_def split: result.split)

lemma origin_ok_update:
  assumes "origin_ok s" "i < length (sv_http s)" "hc_origin c' = hc_origin (sv_http s ! i)"
  shows "origin_ok (s\<lparr>sv_http := (sv_http s)[i := c']\<rparr>)"
  using assms(1) map_origin_update [OF assms(2,3)] by (simp add: origin_ok_def)

lemma origin_ok_ws [simp]: "origin_ok (s\<lparr>sv_ws := w\<rparr>) = origin_ok s"
  by (simp add: origin_ok_def)

lemma origin_ok_accept:
  assumes "origin_ok s" "sv_handler s k = None" "handlers_idle s \<or> handlers_idle (accept_begin k r peer s)"
  shows "origin_ok (accept_begin k r peer s)"
proof (cases "handlers_idle s")
  case True
  then show ?thesis using assms(1) by (rule origin_ok_begin [rotated])
next
  case False
  then obtain k' p where h: "sv_handler s k' = Some p" by (auto simp: handlers_idle_def)
  with assms(2) have "k' \<noteq> k" by auto
  with h have "sv_handler (accept_begin k r peer s) k' = Some p" by (simp add: accept_begin_fields)
  then have "\<not> handlers_idle (accept_begin k r peer s)" using handlers_idle_None by fastforce
  with False assms(3) show ?thesis by blast
qed

text \<open>A step keeps \<open>origin_ok\<close> unless it begins a handler while another one is running.\<close>

lemma origin_ok_step:
  "sys_step acc l s s' \<Longrightarrow> origin_ok s \<Longrightarrow> handlers_idle s \<or> handlers_idle s' \<Longrightarrow> origin_ok s'"
proof (induction rule: sys_step.induct)
  case (accept k s r peer)
  then show ?case by (intro origin_ok_accept)
next
  case (finish s k)
  from finish.prems(1) show ?case by (rule origin_ok_finish)
next
  case (http i s c')
  from http.prems(1) http.hyps(1) hc_step_origin [OF http.hyps(3)] show ?case by (rule origin_ok_update)
next
  case (upgrade i s conn_id u r)
  have "origin_ok (s\<lparr>sv_http := (sv_http s)[i := hc_upgrade_done u r (sv_http s ! i)]\<rparr>)"
    using upgrade.prems(1) upgrade.hyps(1) hc_upgrade_done_origin by (rule origin_ok_update)
  then show ?case by simp
next
  case (start s)
  from start.prems(1) show ?case by (simp add: origin_ok_def server_Start_def)
next
  case (stop s e1 e2)
  from stop.prems(1) show ?case by (simp add: origin_ok_def server_Stop_def)
next
  case (ws s w')
  then show ?case by simp
qed

lemma serial_reachable_origin: "serial_reachable acc s \<Longrightarrow> origin_ok s"
proof (induction rule: serial_reachable.induct)
  case (init b1 b2 env p s)
  then show ?case using WebServer_Inr origin_ok_new by blast
next
  case (step s l s')
  then show ?case using origin_ok_step by blast
qed

subsection \<open>The accept loops\<close>

text \<open>Only \<open>Start\<close> issues an accept on an acceptor with none outstanding and no handler running.\<close>

lemma sys_step_no_accept:
  "sys_step acc l s s' \<Longrightarrow> l \<noteq> L_start \<Longrightarrow> \<not> accepting k s \<Longrightarrow> sv_handler s k = None
   \<Longrightarrow> \<not> accepting k s' \<and> sv_handler s' k = None"
proof (induction rule: sys_step.induct)
  case (accept k' s r peer)
  then have "k' \<noteq> k" by auto
  then show ?case using accept.prems by (simp add: accept_begin_fields)
next
  case (finish s k')
  then have "k' \<noteq> k" by auto
  then obtain p where "sv_handler s k' = Some p" using finish.hyps by auto
  then show ?case using finish.prems \<open>k' \<noteq> k\<close> by (simp add: accept_finish_fields accept_flags)
qed (simp_all add: server_Stop_def accepting_def split: socket_kind.splits)

lemma sys_run_no_accept:
  "sys_run acc ls s s' \<Longrightarrow> L_start \<notin> set ls \<Longrightarrow> \<not> accepting k s \<Longrightarrow> sv_handler s k = None
   \<Longrightarrow> \<not> accepting k s' \<and> sv_handler s' k = None"
proof (induction rule: sys_run.induct)
  case (cons l s s1 ls s2)
  have "l \<noteq> L_start" "L_start \<notin> set ls" using cons.prems(1) by auto
  then have "\<not> accepting k s1 \<and> sv_handler s1 k = None"
    using sys_step_no_accept [OF cons.hyps(1)] cons.prems(2,3) by blast
  then show ?case using cons.IH \<open>L_start \<notin> set ls\<close> by blast
qed simp

lemma sys_step_open:
  "sys_step acc l s s' \<Longrightarrow> l \<noteq> L_stop \<Longrightarrow> acceptor_open k s' = acceptor_open k s"
  by (induction rule: sys_step.induct)
     (simp_all add: server_Start_def accept_flags, simp_all add: acceptor_open_def split: socket_kind.split)

lemma sys_run_open:
  "sys_run acc ls s s' \<Longrightarrow> L_stop \<notin> set ls \<Longrightarrow> acceptor_open k s' = acceptor_open k s"
proof (induction rule: sys_run.induct)
  case (cons l s s1 ls s2)
  then show ?case using sys_step_open [OF cons.hyps(1)] by auto
qed simp

subsection \<open>Properties\<close>

text \<open>
  C16: in every state reached by runs in which a handler that has begun ends before the
  other acceptor's handler begins (one thread on the acceptor \<open>io_service\<close>), each
  HTTP connection's request origin is the remote address of its own socket.
\<close>

theorem serial_origin: "serial_reachable acc s \<Longrightarrow> map hc_origin (sv_http s) = map fst (sv_peer s)"
  using serial_reachable_origin unfolding origin_ok_def by blast

text \<open>
  C26: the two accept handlers share \<open>params_\<close>. When the HTTPS handler writes its
  peer's address between the write and the copy of the HTTP handler, the HTTP connection
  is created with the HTTPS peer's address as its origin: a reachable state has a
  connection whose origin is not the address of its own socket.
\<close>

theorem accept_params_race:
  "\<exists>s. sys_reachable (\<lambda>x. x) (s :: nat web_server) \<and> sv_http s \<noteq> [] \<and> hc_origin (hd (sv_http s)) \<noteq> fst (hd (sv_peer s))"
proof -
  obtain ctx q where r0: "sys_reachable (\<lambda>x. x) (web_server_new ctx q :: nat web_server)"
    using WebServer_reachable(1) by blast
  define s0 :: "nat web_server" where "s0 = web_server_new ctx q"
  let ?s1 = "server_Start s0"
  let ?s2 = "accept_begin TCP Io_ok (Some (''10.0.0.1'', 1000)) ?s1"
  let ?s3 = "accept_begin SSL Io_ok (Some (''10.0.0.2'', 2000)) ?s2"
  let ?s4 = "accept_finish TCP ?s3"
  note defs = s0_def server_Start_def web_server_new_def accept_begin_def set_accepting_def accepting_def
    acceptor_open_def
  have f1: "accepting TCP ?s1" "sv_handler ?s1 TCP = None" by (simp_all add: defs)
  have f2: "accepting SSL ?s2" "sv_handler ?s2 SSL = None" by (simp_all add: defs)
  have f3: "sv_handler ?s3 TCP = Some (''10.0.0.1'', 1000)" "remote_ip (sv_params ?s3) = ''10.0.0.2''"
    by (simp_all add: defs)
  have "sys_step (\<lambda>x. x) (L_start) s0 ?s1" by (rule sys_step.start)
  moreover have "sys_step (\<lambda>x. x) (L_accept TCP) ?s1 ?s2" using f1 by (intro sys_step.accept)
  moreover have "sys_step (\<lambda>x. x) (L_accept SSL) ?s2 ?s3" using f2 by (intro sys_step.accept)
  moreover have "sys_step (\<lambda>x. x) (L_finish TCP) ?s3 ?s4" using f3 by (intro sys_step.finish) simp
  ultimately have "sys_reachable (\<lambda>x. x) ?s4" using r0 unfolding s0_def [symmetric] by (blast intro: sys_reachable.step)
  moreover have "sv_http ?s4 = sv_http s0 @ [hc_start (hc_new TCP ''10.0.0.2'')]" "sv_peer ?s4 = sv_peer s0 @ [(''10.0.0.1'', 1000)]"
    using f3 by (simp_all add: accept_finish_def accept_begin_fields server_Start_def)
  moreover have "sv_http s0 = []" "sv_peer s0 = []" by (simp_all add: s0_def web_server_new_def)
  ultimately show ?thesis by (intro exI [of _ ?s4]) simp
qed

text \<open>
  C23: when \<open>remote_endpoint()\<close> throws on an accepted socket, the handler ends
  before the next \<open>async_accept\<close>: the acceptor stays open but no accept is ever
  outstanding on it again until \<open>Start\<close> is called, and it stays open unless
  \<open>Stop\<close> closes it.
\<close>

theorem accept_loop_dies:
  assumes "acceptor_open k s" "sv_handler s k = None"
    and "sys_run acc ls (accept_begin k Io_ok None s) s'" "L_start \<notin> set ls" "L_stop \<notin> set ls"
  shows "acceptor_open k s' \<and> \<not> accepting k s' \<and> sv_handler s' k = None"
proof -
  have b: "accept_begin k Io_ok None s = set_accepting k False s" using assms(1) by (rule accept_begin_dead)
  have "\<not> accepting k s' \<and> sv_handler s' k = None"
    using sys_run_no_accept [OF assms(3,4)] assms(2) unfolding b by simp
  moreover have "acceptor_open k s'" using sys_run_open [OF assms(3,5), of k] assms(1) unfolding b by simp
  ultimately show ?thesis by blast
qed

text \<open>
  C34: the constructor fails with \<open>system_error\<close> exactly when an acceptor cannot be
  bound; otherwise it returns a server whatever the certificate files, with a TLS context
  that can complete a handshake exactly when both files exist and load, logging which of
  the two failed otherwise, and \<open>params_.context\<close> always set.
\<close>

theorem WebServer_tls_degrades:
  "(snd (WebServer b1 b2 env p) = Inl System_error \<longleftrightarrow> \<not> (b1 \<and> b2))
   \<and> (\<exists>s. snd (WebServer True True env p) = Inr s \<and> params_context (sv_params s)
        \<and> (tls_usable (sv_ctx s) \<longleftrightarrow> crt_exists env \<and> key_exists env \<and> crt_loads env \<and> key_loads env))
   \<and> fst (WebServer True True env p) = (if crt_exists env \<and> key_exists env then
        (if crt_loads env \<and> key_loads env then [] else [ssl_broken_msg]) else [ssl_absent_msg])"
proof -
  have "snd (WebServer b1 b2 env p) = Inl System_error \<longleftrightarrow> \<not> (b1 \<and> b2)"
    by (simp add: WebServer_def split: prod.split)
  moreover have "fst (WebServer True True env p) = snd (snd (setup_ssl env ssl_context_tlsv12 p))"
    by (simp add: WebServer_def split: prod.split)
  moreover have "\<exists>s. snd (WebServer True True env p) = Inr s \<and> params_context (sv_params s)
        \<and> (tls_usable (sv_ctx s) \<longleftrightarrow> crt_exists env \<and> key_exists env \<and> crt_loads env \<and> key_loads env)"
    using WebServer_ok [of env p] setup_ssl_usable [of env p] setup_ssl_params [of env _ p]
    by (intro exI [of _ "web_server_new (fst (setup_ssl env ssl_context_tlsv12 p)) (fst (snd (setup_ssl env ssl_context_tlsv12 p)))"])
       (simp add: web_server_new_def)
  ultimately show ?thesis using setup_ssl_log by simp
qed

lemma serial_origin_witness:
  "\<exists>s. serial_reachable (\<lambda>x. x) (s :: nat web_server) \<and> sv_http s \<noteq> []
     \<and> map hc_origin (sv_http s) = map fst (sv_peer s)"
proof -
  obtain ctx q where r0: "serial_reachable (\<lambda>x. x) (web_server_new ctx q :: nat web_server)"
    using WebServer_reachable(2) by blast
  define s0 :: "nat web_server" where "s0 = web_server_new ctx q"
  let ?s1 = "server_Start s0"
  let ?s2 = "accept_begin TCP Io_ok (Some (''10.0.0.1'', 1000)) ?s1"
  let ?s3 = "accept_finish TCP ?s2"
  note defs = s0_def server_Start_def web_server_new_def accept_begin_def set_accepting_def accepting_def
    acceptor_open_def handlers_idle_def
  have i0: "handlers_idle s0" "handlers_idle ?s1" by (simp_all add: defs)
  have f1: "accepting TCP ?s1" "sv_handler ?s1 TCP = None" by (simp_all add: defs)
  have f2: "sv_handler ?s2 TCP = Some (''10.0.0.1'', 1000)" "sv_handler ?s2 SSL = None" by (simp_all add: defs)
  have i3: "handlers_idle ?s3" using f2 by (simp add: handlers_idle_def accept_finish_fields(5) [OF f2(1)])
  have "serial_reachable (\<lambda>x. x) ?s1" using r0 i0 unfolding s0_def [symmetric]
    by (blast intro: serial_reachable.step sys_step.start)
  then have "serial_reachable (\<lambda>x. x) ?s2" using i0 f1 by (blast intro: serial_reachable.step sys_step.accept)
  then have r: "serial_reachable (\<lambda>x. x) ?s3" using i3 f2 by (blast intro: serial_reachable.step sys_step.finish)
  have "sv_http ?s3 \<noteq> []" using f2 by (simp add: accept_finish_fields(1) [OF f2(1)])
  then show ?thesis using serial_origin [OF r] r by blast
qed

lemma accept_loop_dies_witness:
  "\<exists>s s'. acceptor_open TCP (s :: nat web_server) \<and> sv_handler s TCP = None
     \<and> sys_run (\<lambda>x. x) [L_accept SSL] (accept_begin TCP Io_ok None s) s'
     \<and> acceptor_open TCP s' \<and> \<not> accepting TCP s' \<and> sv_handler s' TCP = None"
proof -
  define s :: "nat web_server" where "s = server_Start (web_server_new ssl_context_tlsv12 (WebServerParams ''0.0.0.0'' 80 443))"
  let ?t = "accept_begin TCP Io_ok None s"
  let ?s' = "accept_begin SSL Io_ok (Some (''10.0.0.2'', 2000)) ?t"
  note defs = s_def server_Start_def web_server_new_def accept_begin_def set_accepting_def accepting_def
    acceptor_open_def
  have h: "acceptor_open TCP s" "sv_handler s TCP = None" by (simp_all add: defs)
  have "accepting SSL ?t" "sv_handler ?t SSL = None" by (simp_all add: defs)
  then have "sys_run (\<lambda>x. x) [L_accept SSL] ?t ?s'" by (blast intro: sys_run.cons sys_run.nil sys_step.accept)
  moreover note accept_loop_dies [OF h this]
  ultimately show ?thesis using h by auto
qed

end
