(* ===== verification/Transport.thy ===== *)
theory Transport
  imports Http_Connection
begin

text \<open>
  The transport layer of \<open>src/connection.h\<close> and \<open>src/connection.cpp\<close>: the
  base class \<open>Connection<TSocket>\<close> holds the socket, and its specialisations for
  \<open>TCPSocket\<close> and \<open>SSLSocket\<close> implement \<open>_cancel\<close>, \<open>_shutdown\<close> and
  \<open>_close\<close> on the socket itself or on the TCP socket under the TLS stream
  (\<open>lowest_layer()\<close>), logging the error code of a call that fails.

  The Boost.Asio calls are modelled by what they do to the TCP socket: on a socket
  that is no longer open \<open>cancel\<close> and \<open>shutdown\<close> fail with
  \<open>bad_descriptor\<close>, \<open>shutdown\<close> fails with \<open>not_connected\<close> when the peer is
  gone, and \<open>close\<close> of a closed socket does nothing. The HTTP and WebSocket
  connections record these calls as events of their logs; replaying a log on the
  socket gives the socket's state and the messages logged by \<open>IFLOG\<close>.
\<close>

datatype asio_error = Bad_descriptor | Not_connected

record tcp_socket =
  sk_open :: bool
  sk_connected :: bool
  sk_shut :: bool

text \<open>\<open>TCPSocket\<close>, and \<open>SSLSocket\<close>, a TLS stream over a TCP socket.\<close>

datatype socket = TCPSocket tcp_socket | SSLSocket tcp_socket

fun lowest_layer :: "socket \<Rightarrow> tcp_socket" where
  "lowest_layer (TCPSocket s) = s"
| "lowest_layer (SSLSocket s) = s"

text \<open>The state of a \<open>Connection<TSocket>\<close> as it concerns the socket: the socket and the log.\<close>

record transport =
  tr_sock :: socket
  tr_log :: "(string \<times> asio_error) list"

text \<open>The socket \<open>async_accept\<close> hands to a new connection: open and connected.\<close>

definition accepted :: "socket_kind \<Rightarrow> bool \<Rightarrow> transport" where
  "accepted k conn =
     (let s = \<lparr>sk_open = True, sk_connected = conn, sk_shut = False\<rparr> in
      \<lparr>tr_sock = (case k of TCP \<Rightarrow> TCPSocket s | SSL \<Rightarrow> SSLSocket s), tr_log = []\<rparr>)"

subsection \<open>Boost.Asio socket calls\<close>

definition tcp_cancel :: "tcp_socket \<Rightarrow> asio_error option \<times> tcp_socket" where
  "tcp_cancel s = (if sk_open s then (None, s) else (Some Bad_descriptor, s))"

definition tcp_shutdown :: "tcp_socket \<Rightarrow> asio_error option \<times> tcp_socket" where
  "tcp_shutdown s =
     (if \<not> sk_open s then (Some Bad_descriptor, s)
      else if \<not> sk_connected s then (Some Not_connected, s)
      else (None, s\<lparr>sk_shut := True\<rparr>))"

definition tcp_close :: "tcp_socket \<Rightarrow> asio_error option \<times> tcp_socket" where
  "tcp_close s = (None, s\<lparr>sk_open := False\<rparr>)"

text \<open>\<open>if (ec) IFLOG(P2, message, ec);\<close>\<close>

definition iflog :: "asio_error option \<Rightarrow> string \<Rightarrow> transport \<Rightarrow> transport" where
  "iflog ec msg t = (case ec of None \<Rightarrow> t | Some e \<Rightarrow> t\<lparr>tr_log := tr_log t @ [(msg, e)]\<rparr>)"

subsection \<open>The teardown calls of \<open>Connection<TSocket>\<close>\<close>

definition conn_cancel :: "transport \<Rightarrow> transport" where
  "conn_cancel t =
     (case tr_sock t of
        TCPSocket s \<Rightarrow> (let (ec, s') = tcp_cancel s in
          iflog ec ''Exception happened while socket cancel'' (t\<lparr>tr_sock := TCPSocket s'\<rparr>))
      | SSLSocket s \<Rightarrow> (let (ec, s') = tcp_cancel s in
          iflog ec ''Exception happened while socket cancel'' (t\<lparr>tr_sock := SSLSocket s'\<rparr>)))"

definition conn_shutdown :: "transport \<Rightarrow> transport" where
  "conn_shutdown t =
     (case tr_sock t of
        TCPSocket s \<Rightarrow> (let (ec, s') = tcp_shutdown s in
          iflog ec ''Exception happened while socket shutdown'' (t\<lparr>tr_sock := TCPSocket s'\<rparr>))
      | SSLSocket s \<Rightarrow> (let (ec, s') = tcp_shutdown s in
          iflog ec ''Exception happened while socket shutdown'' (t\<lparr>tr_sock := SSLSocket s'\<rparr>)))"

definition conn_close :: "transport \<Rightarrow> transport" where
  "conn_close t =
     (case tr_sock t of
        TCPSocket s \<Rightarrow> (let (ec, s') = tcp_close s in
          iflog ec ''Exception happened while socket close'' (t\<lparr>tr_sock := TCPSocket s'\<rparr>))
      | SSLSocket s \<Rightarrow> (let (ec, s') = tcp_close s in
          iflog ec ''Exception happened while socket close'' (t\<lparr>tr_sock := SSLSocket s'\<rparr>)))"

subsection \<open>Replaying the connections' logs on the socket\<close>

fun hc_transport :: "hc_event \<Rightarrow> transport \<Rightarrow> transport" where
  "hc_transport Hc_cancel t = conn_cancel t"
| "hc_transport Hc_shutdown t = conn_shutdown t"
| "hc_transport Hc_close t = conn_close t"
| "hc_transport _ t = t"

fun ws_transport :: "ws_event \<Rightarrow> transport \<Rightarrow> transport" where
  "ws_transport Sock_cancel t = conn_cancel t"
| "ws_transport Sock_shutdown t = conn_shutdown t"
| "ws_transport Sock_close t = conn_close t"
| "ws_transport _ t = t"

fun is_hc_sock :: "hc_event \<Rightarrow> bool" where
  "is_hc_sock Hc_cancel = True"
| "is_hc_sock Hc_shutdown = True"
| "is_hc_sock Hc_close = True"
| "is_hc_sock _ = False"

fun is_ws_sock :: "ws_event \<Rightarrow> bool" where
  "is_ws_sock Sock_cancel = True"
| "is_ws_sock Sock_shutdown = True"
| "is_ws_sock Sock_close = True"
| "is_ws_sock _ = False"

text \<open>
  The socket calls an HTTP connection has made, by its state: none while it reads,
  writes or does the TLS handshake, the \<open>_cancel\<close> of \<open>process_ws_handshake\<close>
  while the 101 response is written, and afterwards also the whole teardown of
  \<open>stop\<close>.
\<close>

definition hc_sock_ok :: "http_conn \<Rightarrow> bool" where
  "hc_sock_ok c =
     (case hc_pending c of
        Op_upgrade \<Rightarrow> filter is_hc_sock (hc_log c) = [Hc_cancel]
      | Op_none \<Rightarrow> filter is_hc_sock (hc_log c) \<in> {[], [Hc_cancel], [Hc_cancel, Hc_shutdown, Hc_close]}
      | _ \<Rightarrow> filter is_hc_sock (hc_log c) = [])"

declare accepted_def [model_simps] tcp_cancel_def [model_simps] tcp_shutdown_def [model_simps]
  tcp_close_def [model_simps] iflog_def [model_simps] conn_cancel_def [model_simps]
  conn_shutdown_def [model_simps] conn_close_def [model_simps]

subsection \<open>Lemmas\<close>

text \<open>The three calls on the socket, whatever its kind.\<close>

lemma conn_cancel_eq:
  "lowest_layer (tr_sock (conn_cancel t)) = lowest_layer (tr_sock t)"
  "tr_log (conn_cancel t) = tr_log t @
     (if sk_open (lowest_layer (tr_sock t)) then [] else [(''Exception happened while socket cancel'', Bad_descriptor)])"
  by (cases "tr_sock t"; simp add: conn_cancel_def tcp_cancel_def iflog_def)+

lemma conn_shutdown_eq:
  "sk_open (lowest_layer (tr_sock (conn_shutdown t))) = sk_open (lowest_layer (tr_sock t))"
  "sk_connected (lowest_layer (tr_sock (conn_shutdown t))) = sk_connected (lowest_layer (tr_sock t))"
  "tr_log (conn_shutdown t) = tr_log t @
     (if \<not> sk_open (lowest_layer (tr_sock t)) then [(''Exception happened while socket shutdown'', Bad_descriptor)]
      else if \<not> sk_connected (lowest_layer (tr_sock t)) then [(''Exception happened while socket shutdown'', Not_connected)]
      else [])"
  by (cases "tr_sock t"; simp add: conn_shutdown_def tcp_shutdown_def iflog_def)+

lemma conn_close_eq:
  "sk_open (lowest_layer (tr_sock (conn_close t))) = False"
  "tr_log (conn_close t) = tr_log t"
  by (cases "tr_sock t"; simp add: conn_close_def tcp_close_def iflog_def)+

lemma hc_transport_other: "\<not> is_hc_sock e \<Longrightarrow> hc_transport e t = t"
  by (cases e) simp_all

lemma ws_transport_other: "\<not> is_ws_sock e \<Longrightarrow> ws_transport e t = t"
  by (cases e) simp_all

lemma fold_hc_transport: "fold hc_transport es t = fold hc_transport (filter is_hc_sock es) t"
  by (induction es arbitrary: t) (simp_all add: hc_transport_other)

lemma fold_ws_transport: "fold ws_transport es t = fold ws_transport (filter is_ws_sock es) t"
  by (induction es arbitrary: t) (simp_all add: ws_transport_other)

text \<open>
  The teardown \<open>_cancel(); _shutdown(); _close();\<close> on an open socket logs at most
  the \<open>not_connected\<close> of a peer that has gone, and closes it.
\<close>

lemma teardown_open:
  assumes "sk_open (lowest_layer (tr_sock t))"
  shows "\<not> sk_open (lowest_layer (tr_sock (conn_close (conn_shutdown (conn_cancel t)))))"
    and "Bad_descriptor \<notin> snd ` set (tr_log (conn_close (conn_shutdown (conn_cancel t))))
         \<longleftrightarrow> Bad_descriptor \<notin> snd ` set (tr_log t)"
  using assms by (auto simp: conn_close_eq conn_shutdown_eq conn_cancel_eq)

lemma cancel_open:
  assumes "sk_open (lowest_layer (tr_sock t))"
  shows "sk_open (lowest_layer (tr_sock (conn_cancel t)))" and "tr_log (conn_cancel t) = tr_log t"
  using assms by (simp_all add: conn_cancel_eq)

text \<open>The socket calls in the log of a running HTTP connection.\<close>

lemma hc_sock_ok_start: "hc_sock_ok (hc_start (hc_new k origin))"
  by (cases k) (simp_all add: hc_sock_ok_def hc_start_def hc_new_def do_read_def)

lemma hc_read_done_sock:
  assumes "filter is_hc_sock (hc_log c) = []"
  shows "hc_sock_ok (hc_read_done acc out r bytes c)"
proof (cases "r = Io_ok")
  case True
  let ?req0 = "empty_request\<lparr>rq_is_http := (hc_kind c = TCP), rq_origin := hc_origin c\<rparr>"
  obtain res p' req' b where P: "Parse (hc_parser c) ?req0 bytes = (res, p', req', b)"
    by (cases "Parse (hc_parser c) ?req0 bytes") auto
  show ?thesis using assms True P
    by (simp add: hc_read_done_def Let_def hc_sock_ok_def process_ws_handshake_fields do_write_def do_read_def
        split: sum.split result.split bool.split)
next
  case False
  then show ?thesis using assms by (simp add: hc_read_done_def hc_sock_ok_def hc_stop_def)
qed

lemma hc_sock_ok_step: "hc_step acc c c' \<Longrightarrow> hc_sock_ok c \<Longrightarrow> hc_sock_ok c'"
proof (induction rule: hc_step.induct)
  case (read_done c r bytes out)
  then show ?case by (intro hc_read_done_sock) (simp add: hc_sock_ok_def)
qed (auto simp: hc_sock_ok_def hc_handshake_done_def hc_write_done_def hc_upgrade_done_def do_read_def
       hc_stop_def)

lemma hc_reachable_sock: "hc_reachable acc c \<Longrightarrow> hc_sock_ok c"
  by (induction rule: hc_reachable.induct) (simp_all add: hc_sock_ok_start hc_sock_ok_step)

lemma hc_sock_cases:
  "hc_sock_ok c \<Longrightarrow> filter is_hc_sock (hc_log c) \<in> {[], [Hc_cancel], [Hc_cancel, Hc_shutdown, Hc_close]}"
  by (cases "hc_pending c") (simp_all add: hc_sock_ok_def)

text \<open>
  Replaying the log of a reachable HTTP connection on an open socket: until the
  teardown the socket stays open and nothing is logged; after it the socket is closed
  and at most a \<open>not_connected\<close> is logged.
\<close>

lemma hc_replay:
  assumes r: "hc_reachable acc c" and o: "sk_open (lowest_layer (tr_sock t))"
  shows "Hc_close \<notin> set (hc_log c) \<Longrightarrow>
           sk_open (lowest_layer (tr_sock (fold hc_transport (hc_log c) t)))
         \<and> tr_log (fold hc_transport (hc_log c) t) = tr_log t"
    and "Hc_close \<in> set (hc_log c) \<Longrightarrow>
           \<not> sk_open (lowest_layer (tr_sock (fold hc_transport (hc_log c) t)))
         \<and> (Bad_descriptor \<notin> snd ` set (tr_log (fold hc_transport (hc_log c) t))
            \<longleftrightarrow> Bad_descriptor \<notin> snd ` set (tr_log t))"
proof -
  have m: "Hc_close \<in> set (hc_log c) \<longleftrightarrow> Hc_close \<in> set (filter is_hc_sock (hc_log c))" by simp
  have f: "fold hc_transport (hc_log c) t = fold hc_transport (filter is_hc_sock (hc_log c)) t"
    by (rule fold_hc_transport)
  consider "filter is_hc_sock (hc_log c) = []" | "filter is_hc_sock (hc_log c) = [Hc_cancel]"
    | "filter is_hc_sock (hc_log c) = [Hc_cancel, Hc_shutdown, Hc_close]"
    using hc_sock_cases [OF hc_reachable_sock [OF r]] by blast
  then show "Hc_close \<notin> set (hc_log c) \<Longrightarrow>
           sk_open (lowest_layer (tr_sock (fold hc_transport (hc_log c) t)))
         \<and> tr_log (fold hc_transport (hc_log c) t) = tr_log t"
    and "Hc_close \<in> set (hc_log c) \<Longrightarrow>
           \<not> sk_open (lowest_layer (tr_sock (fold hc_transport (hc_log c) t)))
         \<and> (Bad_descriptor \<notin> snd ` set (tr_log (fold hc_transport (hc_log c) t))
            \<longleftrightarrow> Bad_descriptor \<notin> snd ` set (tr_log t))"
    using o cancel_open [OF o] teardown_open [OF o] unfolding m f by (cases; simp)+
qed

text \<open>The socket calls in the log of a started WebSocket connection.\<close>

lemma ws_sock_step:
  "ws_step c c' \<Longrightarrow> filter is_ws_sock (ws_log c) = (if ws_closed c then [Sock_cancel, Sock_shutdown, Sock_close] else [])
   \<Longrightarrow> filter is_ws_sock (ws_log c') = (if ws_closed c' then [Sock_cancel, Sock_shutdown, Sock_close] else [])"
  by (induction rule: ws_step.induct)
     (auto simp: Forward_def ws_write_def ws_stop_def ws_handle_write_def ws_handle_read_def Let_def
        split: forward_arg.splits)

lemma ws_reachable_sock:
  "ws_reachable w \<Longrightarrow> filter is_ws_sock (ws_log w) = (if ws_closed w then [Sock_cancel, Sock_shutdown, Sock_close] else [])"
  by (induction rule: ws_reachable.induct) (simp_all add: ws_sock_step ws_start_def ws_new_def)

lemma ws_replay:
  assumes r: "ws_reachable w" and o: "sk_open (lowest_layer (tr_sock t))"
  shows "\<not> ws_closed w \<Longrightarrow> fold ws_transport (ws_log w) t = t"
    and "ws_closed w \<Longrightarrow>
           \<not> sk_open (lowest_layer (tr_sock (fold ws_transport (ws_log w) t)))
         \<and> (Bad_descriptor \<notin> snd ` set (tr_log (fold ws_transport (ws_log w) t))
            \<longleftrightarrow> Bad_descriptor \<notin> snd ` set (tr_log t))"
  using ws_reachable_sock [OF r] teardown_open [OF o] by (subst fold_ws_transport; simp)+

lemma accepted_open: "sk_open (lowest_layer (tr_sock (accepted k conn)))" "tr_log (accepted k conn) = []"
  by (cases k; simp add: accepted_def)+

subsection \<open>Properties of the socket\<close>

text \<open>
  C28: an HTTP connection never cancels or shuts down a socket it has already closed.
  Replaying the socket calls of any reachable connection on the socket that
  \<open>async_accept\<close> gave it logs no \<open>bad_descriptor\<close>, and leaves the socket closed
  exactly when the connection has run \<open>stop\<close>.
\<close>

theorem hc_socket_teardown:
  "hc_reachable acc c \<Longrightarrow>
     Bad_descriptor \<notin> snd ` set (tr_log (fold hc_transport (hc_log c) (accepted (hc_kind c) conn)))
   \<and> (sk_open (lowest_layer (tr_sock (fold hc_transport (hc_log c) (accepted (hc_kind c) conn))))
      \<longleftrightarrow> Hc_close \<notin> set (hc_log c))"
  using hc_replay [of acc c "accepted (hc_kind c) conn"] accepted_open
  by (cases "Hc_close \<in> set (hc_log c)") auto

text \<open>
  C27: the socket of an upgraded connection is torn down once over its whole life.
  The HTTP connection that handed it over only cancelled it, so it is still open; the
  WebSocket connection that takes it over, in any state it can reach, has closed it
  exactly when it is closed, and no call of either connection hit a closed socket.
\<close>

theorem upgraded_socket_closed_once:
  assumes "hc_reachable acc c" and "filter is_create (hc_log c) \<noteq> []" and "ws_reachable w"
  shows "Bad_descriptor \<notin> snd ` set (tr_log (fold ws_transport (ws_log w)
             (fold hc_transport (hc_log c) (accepted (hc_kind c) conn))))
    \<and> (sk_open (lowest_layer (tr_sock (fold ws_transport (ws_log w)
             (fold hc_transport (hc_log c) (accepted (hc_kind c) conn)))))
       \<longleftrightarrow> \<not> ws_closed w)"
proof -
  let ?t = "fold hc_transport (hc_log c) (accepted (hc_kind c) conn)"
  have "ends_ok c" using hc_reachable_inv [OF assms(1)] by (simp add: hc_inv_def)
  then have e: "length (filter is_create (hc_log c)) + count_list (hc_log c) Hc_close \<le> 1"
    by (simp add: ends_ok_def split: if_splits)
  have "0 < length (filter is_create (hc_log c))" using assms(2) by blast
  with e have "count_list (hc_log c) Hc_close = 0" by linarith
  then have "Hc_close \<notin> set (hc_log c)" by (simp add: count_list_0_iff)
  then have o: "sk_open (lowest_layer (tr_sock ?t))" and l: "tr_log ?t = []"
    using hc_replay(1) [OF assms(1) accepted_open(1)] accepted_open(2) by auto
  show ?thesis using ws_replay [OF assms(3) o] l o by (cases "ws_closed w") auto
qed

subsection \<open>Witnesses\<close>

lemma hc_socket_teardown_witness:
  "hc_reachable (\<lambda>s. s) (hc_read_done (\<lambda>s. s) empty_response Io_error [] (hc_start (hc_new TCP ''10.0.0.1'')))
   \<and> Bad_descriptor \<notin> snd ` set (tr_log (fold hc_transport
       (hc_log (hc_read_done (\<lambda>s. s) empty_response Io_error [] (hc_start (hc_new TCP ''10.0.0.1''))))
       (accepted TCP False)))
   \<and> \<not> sk_open (lowest_layer (tr_sock (fold hc_transport
       (hc_log (hc_read_done (\<lambda>s. s) empty_response Io_error [] (hc_start (hc_new TCP ''10.0.0.1''))))
       (accepted TCP False))))"
proof -
  let ?c = "hc_read_done (\<lambda>s. s) empty_response Io_error [] (hc_start (hc_new TCP ''10.0.0.1''))"
  have k: "hc_kind ?c = TCP" and h: "Hc_close \<in> set (hc_log ?c)"
    by (simp_all add: hc_read_done_def hc_stop_def hc_start_def hc_new_def do_read_def)
  show ?thesis using hc_socket_teardown [OF hc_reachable_closed, of False] hc_reachable_closed k h by simp
qed

text \<open>A connection that reads a WebSocket handshake, writes the 101 response and hands the socket over.\<close>

lemma hc_reachable_upgraded:
  "hc_reachable (\<lambda>s. s) (hc_upgrade_done (\<lambda>v. v = []) Io_ok (hc_read_done (\<lambda>s. s) empty_response Io_ok
     (''GET /ws HTTP/1.1'' @ [CR, LF] @ ''Host: h'' @ [CR, LF] @ ''Upgrade: websocket'' @ [CR, LF]
      @ ''Connection: Upgrade'' @ [CR, LF] @ ''Sec-WebSocket-Key: k'' @ [CR, LF]
      @ ''Sec-WebSocket-Version: 13'' @ [CR, LF, CR, LF])
     (hc_start (hc_new TCP ''10.0.0.1''))))"
proof -
  let ?b = "''GET /ws HTTP/1.1'' @ [CR, LF] @ ''Host: h'' @ [CR, LF] @ ''Upgrade: websocket'' @ [CR, LF]
      @ ''Connection: Upgrade'' @ [CR, LF] @ ''Sec-WebSocket-Key: k'' @ [CR, LF]
      @ ''Sec-WebSocket-Version: 13'' @ [CR, LF, CR, LF]"
  let ?c0 = "hc_start (hc_new TCP ''10.0.0.1'')"
  have r1: "hc_reachable (\<lambda>s. s) (hc_read_done (\<lambda>s. s) empty_response Io_ok ?b ?c0)"
    by (rule hc_reachable.step [OF hc_reachable.start], rule hc_step.read_done)
       (simp_all add: hc_start_def hc_new_def do_read_def)
  have "hc_pending (hc_read_done (\<lambda>s. s) empty_response Io_ok ?b ?c0) = Op_upgrade"
    by (simp add: model_simps process_ws_handshake_fields)
  then show ?thesis by (rule hc_reachable.step [OF r1 hc_step.upgrade_done])
qed

lemma upgraded_socket_closed_once_witness:
  "hc_reachable (\<lambda>s. s) (hc_upgrade_done (\<lambda>v. v = []) Io_ok (hc_read_done (\<lambda>s. s) empty_response Io_ok
     (''GET /ws HTTP/1.1'' @ [CR, LF] @ ''Host: h'' @ [CR, LF] @ ''Upgrade: websocket'' @ [CR, LF]
      @ ''Connection: Upgrade'' @ [CR, LF] @ ''Sec-WebSocket-Key: k'' @ [CR, LF]
      @ ''Sec-WebSocket-Version: 13'' @ [CR, LF, CR, LF])
     (hc_start (hc_new TCP ''10.0.0.1''))))
   \<and> filter is_create (hc_log (hc_upgrade_done (\<lambda>v. v = []) Io_ok (hc_read_done (\<lambda>s. s) empty_response Io_ok
     (''GET /ws HTTP/1.1'' @ [CR, LF] @ ''Host: h'' @ [CR, LF] @ ''Upgrade: websocket'' @ [CR, LF]
      @ ''Connection: Upgrade'' @ [CR, LF] @ ''Sec-WebSocket-Key: k'' @ [CR, LF]
      @ ''Sec-WebSocket-Version: 13'' @ [CR, LF, CR, LF])
     (hc_start (hc_new TCP ''10.0.0.1''))))) \<noteq> []
   \<and> ws_reachable (ws_handle_read Io_error (ws_start ws_new))
   \<and> \<not> sk_open (lowest_layer (tr_sock (fold ws_transport (ws_log (ws_handle_read Io_error (ws_start ws_new)))
       (fold hc_transport (hc_log (hc_upgrade_done (\<lambda>v. v = []) Io_ok (hc_read_done (\<lambda>s. s) empty_response Io_ok
     (''GET /ws HTTP/1.1'' @ [CR, LF] @ ''Host: h'' @ [CR, LF] @ ''Upgrade: websocket'' @ [CR, LF]
      @ ''Connection: Upgrade'' @ [CR, LF] @ ''Sec-WebSocket-Key: k'' @ [CR, LF]
      @ ''Sec-WebSocket-Version: 13'' @ [CR, LF, CR, LF])
     (hc_start (hc_new TCP ''10.0.0.1'')))))
       (accepted TCP True)))))"
proof -
  let ?c = "hc_upgrade_done (\<lambda>v. v = []) Io_ok (hc_read_done (\<lambda>s. s) empty_response Io_ok
     (''GET /ws HTTP/1.1'' @ [CR, LF] @ ''Host: h'' @ [CR, LF] @ ''Upgrade: websocket'' @ [CR, LF]
      @ ''Connection: Upgrade'' @ [CR, LF] @ ''Sec-WebSocket-Key: k'' @ [CR, LF]
      @ ''Sec-WebSocket-Version: 13'' @ [CR, LF, CR, LF])
     (hc_start (hc_new TCP ''10.0.0.1'')))"
  let ?w = "ws_handle_read Io_error (ws_start ws_new)"
  have k: "hc_kind ?c = TCP" by (simp add: model_simps process_ws_handshake_def generate_ws_handshake_headers_def Let_def split: prod.split)
  have cr: "filter is_create (hc_log ?c) \<noteq> []"
    by (simp add: model_simps process_ws_handshake_def generate_ws_handshake_headers_def Let_def getCookie_def
        split: prod.split)
  have w: "ws_reachable ?w"
    by (rule ws_reachable.step [OF ws_reachable.start], rule ws_step.read_done) (simp_all add: ws_start_def ws_new_def)
  have cl: "ws_closed ?w" by (simp add: ws_handle_read_def ws_stop_def ws_start_def ws_new_def)
  show ?thesis using upgraded_socket_closed_once [OF hc_reachable_upgraded cr w, of True] hc_reachable_upgraded cr w cl k
    by simp
qed

end
