(* ===== verification/Http_Mime.thy ===== *)
theory Http_Mime
  imports Prelude
begin

text \<open>
  The MIME table of \<open>src/HTTP/http_protocol.h\<close> (\<open>Schema::MIME\<close>): the
  \<open>std::map\<close> \<open>Type\<close> from file extensions to content types, built from its
  initializer list, the constants \<open>json\<close>, \<open>html\<close> and \<open>txt\<close> read with
  \<open>Type.at\<close> (which throws \<open>std::out_of_range\<close> for a missing key), and the two
  helpers \<open>augment_content_type\<close> and \<open>getContentType\<close>.
\<close>

text \<open>The initializer list of \<open>Type\<close>, in the order of the source.\<close>

definition mime_entries :: "(string \<times> string) list" where
  "mime_entries =
    [(''.a'', ''application/octet-stream''),
     (''.aab'', ''application/x-authorware-bin''),
     (''.aam'', ''application/x-authorware-map''),
     (''.aas'', ''application/x-authorware-seg''),
     (''.ai'', ''application/postscript''),
     (''.aif'', ''audio/x-aiff''),
     (''.aifc'', ''audio/x-aiff''),
     (''.aiff'', ''audio/x-aiff''),
     (''.asc'', ''text/plain''),
     (''.asf'', ''video/x-ms-asf''),
     (''.asx'', ''video/x-ms-asf''),
     (''.au'', ''audio/basic''),
     (''.avi'', ''video/x-msvideo''),
     (''.bcpio'', ''application/x-bcpio''),
     (''.bin'', ''application/octet-stream''),
     (''.bmp'', ''image/bmp''),
     (''.cdf'', ''application/x-netcdf''),
     (''.class'', ''application/x-java-vm''),
     (''.cpio'', ''application/x-cpio''),
     (''.cpt'', ''application/mac-compactpro''),
     (''.crl'', ''application/x-pkcs7-crl''),
     (''.crt'', ''application/x-x509-ca-cert''),
     (''.csh'', ''application/x-csh''),
     (''.css'', ''text/css''),
     (''.dcr'', ''application/x-director''),
     (''.dir'', ''application/x-director''),
     (''.djv'', ''image/vnd.djvu''),
     (''.djvu'', ''image/vnd.djvu''),
     (''.dll'', ''application/octet-stream''),
     (''.dms'', ''application/octet-stream''),
     (''.doc'', ''application/msword''),
     (''.dtd'', ''text/xml''),
     (''.dump'', ''application/octet-stream''),
     (''.dvi'', ''application/x-dvi''),
     (''.dxr'', ''application/x-director''),
     (''.eps'', ''application/postscript''),
     (''.etx'', ''text/x-setext''),
     (''.exe'', ''application/octet-stream''),
     (''.ez'', ''application/andrew-inset''),
     (''.fgd'', ''application/x-director''),
     (''.fh'', ''image/x-freehand''),
     (''.fh4'', ''image/x-freehand''),
     (''.fh5'', ''image/x-freehand''),
     (''.fh7'', ''image/x-freehand''),
     (''.fhc'', ''image/x-freehand''),
     (''.gif'', ''image/gif''),
     (''.gtar'', ''application/x-gtar''),
     (''.gz'', ''application/x-gzip''),
     (''.hdf'', ''application/x-hdf''),
     (''.hqx'', ''application/mac-binhex40''),
     (''.htm'', ''text/html''),
     (''.html'', ''text/html''),
     (''.ice'', ''x-conference/x-cooltalk''),
     (''.ief'', ''image/ief''),
     (''.iges'', ''model/iges''),
     (''.igs'', ''model/iges''),
     (''.iv'', ''application/x-inventor''),
     (''.jar'', ''application/x-java-archive''),
     (''.jfif'', ''image/jpeg''),
     (''.jpe'', ''image/jpeg''),
     (''.jpeg'', ''image/jpeg''),
     (''.jpg'', ''image/jpeg''),
     (''.js'', ''application/javascript''),
     (''.json'', ''application/json''),
     (''.kar'', ''audio/midi''),
     (''.latex'', ''application/x-latex''),
     (''.lha'', ''application/octet-stream''),
     (''.lzh'', ''application/octet-stream''),
     (''.m3u'', ''audio/x-mpegurl''),
     (''.man'', ''application/x-troff-man''),
     (''.mathml'', ''application/mathml+xml''),
     (''.me'', ''application/x-troff-me''),
     (''.mesh'', ''model/mesh''),
     (''.mid'', ''audio/midi''),
     (''.midi'', ''audio/midi''),
     (''.mif'', ''application/vnd.mif''),
     (''.mime'', ''message/rfc822''),
     (''.mml'', ''application/mathml+xml''),
     (''.mov'', ''video/quicktime''),
     (''.movie'', ''video/x-sgi-movie''),
     (''.mp2'', ''audio/mpeg''),
     (''.mp3'', ''audio/mpeg''),
     (''.mp4'', ''video/mp4''),
     (''.mpe'', ''video/mpeg''),
     (''.mpeg'', ''video/mpeg''),
     (''.mpg'', ''video/mpeg''),
     (''.mpga'', ''audio/mpeg''),
     (''.ms'', ''application/x-troff-ms''),
     (''.msh'', ''model/mesh''),
     (''.mv'', ''video/x-sgi-movie''),
     (''.mxu'', ''video/vnd.mpegurl''),
     (''.nc'', ''application/x-netcdf''),
     (''.o'', ''application/octet-stream''),
     (''.oda'', ''application/oda''),
     (''.ogg'', ''audio/ogg''),
     (''.pac'', ''application/x-ns-proxy-autoconfig''),
     (''.pbm'', ''image/x-portable-bitmap''),
     (''.pdb'', ''chemical/x-pdb''),
     (''.pdf'', ''application/pdf''),
     (''.pgm'', ''image/x-portable-graymap''),
     (''.pgn'', ''application/x-chess-pgn''),
     (''.png'', ''image/png''),
     (''.pnm'', ''image/x-portable-anymap''),
     (''.ppm'', ''image/x-portable-pixmap''),
     (''.ppt'', ''application/vnd.ms-powerpoint''),
     (''.ps'', ''application/postscript''),
     (''.qt'', ''video/quicktime''),
     (''.ra'', ''audio/x-realaudio''),
     (''.ram'', ''audio/x-pn-realaudio''),
     (''.ras'', ''image/x-cmu-raster''),
     (''.rdf'', ''application/rdf+xml''),
     (''.rgb'', ''image/x-rgb''),
     (''.rm'', ''audio/x-pn-realaudio''),
     (''.roff'', ''application/x-troff''),
     (''.rpm'', ''audio/x-pn-realaudio-plugin''),
     (''.rss'', ''application/rss+xml''),
     (''.rtf'', ''text/rtf''),
     (''.rtx'', ''text/richtext''),
     (''.sgm'', ''text/sgml''),
     (''.sgml'', ''text/sgml''),
     (''.sh'', ''application/x-sh''),
     (''.shar'', ''application/x-shar''),
     (''.silo'', ''model/mesh''),
     (''.sit'', ''application/x-stuffit''),
     (''.skd'', ''application/x-koan''),
     (''.skm'', ''application/x-koan''),
     (''.skp'', ''application/x-koan''),
     (''.skt'', ''application/x-koan''),
     (''.smi'', ''application/smil''),
     (''.smil'', ''application/smil''),
     (''.snd'', ''audio/basic''),
     (''.so'', ''application/octet-stream''),
     (''.spl'', ''application/x-futuresplash''),
     (''.src'', ''application/x-wais-source''),
     (''.stc'', ''application/vnd.sun.xml.calc.template''),
     (''.std'', ''application/vnd.sun.xml.draw.template''),
     (''.sti'', ''application/vnd.sun.xml.impress.template''),
     (''.stw'', ''application/vnd.sun.xml.writer.template''),
     (''.sv4cpio'', ''application/x-sv4cpio''),
     (''.sv4crc'', ''application/x-sv4crc''),
     (''.svg'', ''image/svg+xml''),
     (''.svgz'', ''image/svg+xml''),
     (''.swf'', ''application/x-shockwave-flash''),
     (''.sxc'', ''application/vnd.sun.xml.calc''),
     (''.sxd'', ''application/vnd.sun.xml.draw''),
     (''.sxg'', ''application/vnd.sun.xml.writer.global''),
     (''.sxi'', ''application/vnd.sun.xml.impress''),
     (''.sxm'', ''application/vnd.sun.xml.math''),
     (''.sxw'', ''application/vnd.sun.xml.writer''),
     (''.t'', ''application/x-troff''),
     (''.tar'', ''application/x-tar''),
     (''.tcl'', ''application/x-tcl''),
     (''.tex'', ''application/x-tex''),
     (''.texi'', ''application/x-texinfo''),
     (''.texinfo'', ''application/x-texinfo''),
     (''.tif'', ''image/tiff''),
     (''.tiff'', ''image/tiff''),
     (''.tr'', ''application/x-troff''),
     (''.tsp'', ''application/dsptype''),
     (''.tsv'', ''text/tab-separated-values''),
     (''.txt'', ''text/plain''),
     (''.ustar'', ''application/x-ustar''),
     (''.vcd'', ''application/x-cdlink''),
     (''.uu'', ''text/x-uuencode''),
     (''.vrml'', ''model/vrml''),
     (''.vx'', ''video/x-rad-screenplay''),
     (''.wav'', ''audio/x-wav''),
     (''.wax'', ''audio/x-ms-wax''),
     (''.wbmp'', ''image/vnd.wap.wbmp''),
     (''.wbxml'', ''application/vnd.wap.wbxml''),
     (''.wm'', ''video/x-ms-wm''),
     (''.wma'', ''audio/x-ms-wma''),
     (''.wmd'', ''application/x-ms-wmd''),
     (''.wml'', ''text/vnd.wap.wml''),
     (''.wmlc'', ''application/vnd.wap.wmlc''),
     (''.wmls'', ''text/vnd.wap.wmlscript''),
     (''.wmlsc'', ''application/vnd.wap.wmlscriptc''),
     (''.wmv'', ''video/x-ms-wmv''),
     (''.wmx'', ''video/x-ms-wmx''),
     (''.wmz'', ''application/x-ms-wmz''),
     (''.wrl'', ''model/vrml''),
     (''.wsrc'', ''application/x-wais-source''),
     (''.wvx'', ''video/x-ms-wvx''),
     (''.xbm'', ''image/x-xbitmap''),
     (''.xht'', ''application/xhtml+xml''),
     (''.xhtml'', ''application/xhtml+xml''),
     (''.xls'', ''application/vnd.ms-excel''),
     (''.xml'', ''text/xml''),
     (''.xpm'', ''image/x-xpixmap''),
     (''.xsl'', ''text/xml''),
     (''.xwd'', ''image/x-xwindowdump''),
     (''.xyz'', ''chemical/x-xyz''),
     (''.zip'', ''application/zip'')]"

text \<open>
  \<open>Type\<close>: a \<open>std::map\<close> built from the list; \<open>find\<close> is the lookup of the
  map. \<open>map_of\<close> takes the first entry of a key, as the constructor's insertion does.
\<close>

definition mime_Type :: "string \<rightharpoonup> string" where
  "mime_Type = map_of mime_entries"

text \<open>\<open>Type.at(k)\<close>\<close>

definition mime_at :: "string \<Rightarrow> cpp_exc + string" where
  "mime_at k = (case mime_Type k of Some v \<Rightarrow> Inr v | None \<Rightarrow> Inl Out_of_range)"

text \<open>
  The three constants are initialised with \<open>Type.at\<close> at static initialisation;
  an exception there would end the program before \<open>main\<close>.
\<close>

definition mime_json :: "cpp_exc + string" where "mime_json = mime_at ''.json''"
definition mime_html :: "cpp_exc + string" where "mime_html = mime_at ''.html''"
definition mime_txt :: "cpp_exc + string" where "mime_txt = mime_at ''.txt''"

text \<open>\<open>std::string::find\<close>: the first position of a substring.\<close>

fun str_find :: "string \<Rightarrow> string \<Rightarrow> nat option" where
  "str_find hay needle =
     (if prefix needle hay then Some 0
      else case hay of [] \<Rightarrow> None | _ # hs \<Rightarrow> map_option Suc (str_find hs needle))"

definition augment_content_type :: "string \<Rightarrow> string" where
  "augment_content_type content_type =
     (if str_find content_type ''text/'' \<noteq> None then content_type @ ''; charset=utf-8''
      else content_type)"

text \<open>\<open>getContentType\<close>: the table's type, \<open>txt\<close> for an unknown extension.\<close>

definition getContentType :: "string \<Rightarrow> cpp_exc + string" where
  "getContentType ext =
     (case mime_txt of
        Inl e \<Rightarrow> Inl e
      | Inr txt \<Rightarrow> Inr (case mime_Type ext of None \<Rightarrow> txt | Some v \<Rightarrow> v))"

subsection \<open>Lemmas\<close>

lemma str_find_None: "str_find hay needle = None \<longleftrightarrow> \<not> sublist needle hay"
  by (induction hay needle rule: str_find.induct) (auto simp: sublist_Cons_right split: list.splits)

text \<open>
  No extension is listed twice (the list is not sorted: \<open>.vcd\<close> comes before
  \<open>.uu\<close>, which \<open>std::map\<close> does not mind), so the map holds every entry of the list.
\<close>

lemma mime_entries_distinct: "distinct (map fst mime_entries)"
  by (simp add: mime_entries_def)

lemma mime_Type_entries: "(k, v) \<in> set mime_entries \<Longrightarrow> mime_Type k = Some v"
  by (simp add: mime_Type_def map_of_is_SomeI mime_entries_distinct)

lemma mime_Type_dom: "dom mime_Type = fst ` set mime_entries"
  by (simp add: mime_Type_def dom_map_of_conv_image_fst)

text \<open>The three keys read with \<open>Type.at\<close> are in the table: static initialisation does not throw.\<close>

lemma mime_constants:
  "mime_json = Inr ''application/json''" "mime_html = Inr ''text/html''" "mime_txt = Inr ''text/plain''"
  by (simp_all add: mime_json_def mime_html_def mime_txt_def mime_at_def mime_Type_def mime_entries_def)

lemma getContentType_total:
  "getContentType ext = Inr (case mime_Type ext of None \<Rightarrow> ''text/plain'' | Some v \<Rightarrow> v)"
  by (simp add: getContentType_def mime_constants)

lemma augment_content_type_text:
  "augment_content_type t = (if sublist ''text/'' t then t @ ''; charset=utf-8'' else t)"
  by (simp add: augment_content_type_def str_find_None [symmetric])

end
