(* ===== verification/Spec2Isabelle.thy ===== *)
theory Spec2Isabelle
  imports Web_Server Transport Http_Mime
begin

text \<open>
  \<^bold>\<open>A verification library for the basic HTTP(S)/WebSocket push server.\<close>

  \<^emph>\<open>The program.\<close> The server (\<open>src/\<close>) accepts plain and TLS connections
  (\<open>webserver.cpp\<close>), runs one \<open>HTTPConnection\<close> per socket
  (\<open>HTTP/http_connection.cpp\<close>) that reads bytes, feeds them to an incremental
  parser (\<open>HTTP/http_parser.cpp\<close>), dispatches the parsed \<open>HTTPRequest\<close>
  (\<open>HTTP/http_request.cpp\<close>, with cookies from \<open>HTTP/cookie.cpp\<close>) to an
  external handler and writes the \<open>HTTPResponse\<close> (\<open>HTTP/http_response.cpp\<close>).
  A WebSocket handshake hands the socket to a push-only \<open>WSConnection\<close>
  (\<open>ws/ws_connection.cpp\<close>) whose frames are encoded by \<open>ws/ws_proto_impl.cpp\<close>;
  the server keeps weak handles of these connections in two registries used by
  \<open>WSPush\<close> and \<open>WSClose\<close>.

  \<^emph>\<open>The library.\<close>
  \<^item> \<open>Prelude\<close>: the C++ library behaviour the code relies on: signed \<open>char\<close>
    (\<open>signed_char\<close>), \<open>utflower\<close>/\<open>lexcmpi\<close> as ASCII case folding,
    \<open>std::stoi\<close> (\<open>stoi\<close>, with its two exceptions as \<open>Inl\<close> values),
    \<open>unordered_map::insert\<close> (\<open>map_insert\<close>, no overwrite), \<open>v.back()\<close>
    updates (\<open>upd_last\<close>), the simp collection \<open>model_simps\<close>.
  \<^item> \<open>Cookie\<close>: the \<open>Cookie\<close> struct as a record, \<open>toString\<close> (with the date
    formatter of the external \<open>PADateTime\<close> as a parameter), \<open>fromString\<close> as
    its \<open>while (std::regex_search(...))\<close> loop (\<open>fromString_loop\<close>, a
    \<^theory_text>\<open>partial_function (option)\<close>) over the leftmost match of
    \<open>([\w-_.]+)=([^;]*)\<close> (\<open>cookie_match_at\<close>, \<open>regex_search\<close>), and
    \<open>getInvalidationCookie\<close>, and \<open>is_pauuid\<close> with the string constructor of the
    external \<open>pauuid\<close> as a parameter. The direct scanner \<open>cookies_scan\<close> (a
    \<^theory_text>\<open>function\<close> terminating by input length) is the reference the loop is
    proved equal to. Lemmas: round trip of a client \<open>Cookie\<close> header (C10),
    well-formedness of every parsed cookie (C11), a \<open>Set-Cookie\<close> value read back
    up to its first \<open>;\<close>, since toString does not quote it (C12), the loop ends on every input after at most half as many iterations as the
    string has characters (C13); the repository's unit test is evaluated as a lemma.
  \<^item> \<open>Http_Schema\<close>: the constants of \<open>Schema::Header\<close> and \<open>Schema::URI\<close>
    (\<open>http_protocol.h\<close>) that the code reads, unfolded by the simplifier.
  \<^item> \<open>Http_Request\<close>: \<open>HTTPRequest\<close> as a record whose header and cookie
    \<open>unordered_map\<close>s are maps; \<open>getCookie\<close>, \<open>isWSUpgrade\<close>,
    \<open>isWSHandshake\<close> (its \<open>stoi\<close> exception an \<open>Inl\<close>), \<open>assembleUri\<close>
    (\<open>headers.at("host")\<close> as \<open>Some Out_of_range\<close>). \<open>pa::Uri\<close> is external:
    the URI is the assembled string, its scheme the text before the first colon.
  \<^item> \<open>Http_Parser\<close>: the 21 states of \<open>ParserState\<close>, \<open>HTTPParser::Data\<close> as a
    record, the byte transition \<open>parse_char\<close> (one branch per \<open>case\<close> of the
    \<open>switch\<close>, with \<open>end_of_headers\<close> for the blank line and \<open>body_byte\<close>),
    the loop \<open>parse_impl\<close> (structural recursion over the byte range; it returns
    the unread bytes), \<open>fill_request\<close>, \<open>Parse\<close> (\<open>parse_finish\<close> is its
    result handling: host policy, \<open>Reset\<close>; \<open>zeroout\<close> of the buffer). The
    comparison \<open>content.size() == content_length\<close> is done as the C++ does it,
    in 64-bit unsigned words (\<open>size_eq\<close>). Lemmas: chunking invariance (C1),
    missing host gives \<open>bad\<close> (C2), an invariant of all reachable parser states,
    an \<^theory_text>\<open>inductive\<close> set closed under \<open>Parse\<close> (C3), reset and zeroing
    (C4), the exception path (C5), the request's header map, first header wins and no
    \<open>cookie\<close> entry (C6), body length with a
    negative (C7) and a positive (C8) \<open>Content-Length\<close>, a good request filled in
    (C9).

  \<^item> \<open>Ws_Frame\<close>: \<open>fill_text_frame\<close> and \<open>fill_closing_frame\<close> of
    \<open>ws/ws_proto_impl.cpp\<close> on characters, the payload length a \<open>64 word\<close> whose
    bytes are \<open>(long_length >> 8c) % 256\<close>; the constants of \<open>ws/ws_protocol.h\<close>;
    the opcode/mask test of \<open>WSConnection::handle_read\<close> with the C++ precedence of
    \<open>==\<close> over \<open>&\<close> (\<open>ws_frame_kind\<close>). An RFC 6455 frame reader
    (\<open>decode_frame\<close>) is the specification. Lemmas: the reader reads every frame
    back (C14), a client close frame is never recognised (C17); the header sizes
    2/4/10 and the close payload are lemmas.
  \<^item> \<open>Ws_Connection\<close>: \<open>WSConnection\<close> as the record \<open>ws_conn\<close> (closed flag, send
    queue, outstanding read and writes, socket, bytes written, and a log of the
    \<open>ws_on*\<close> callbacks and socket calls); one function per method (\<open>ws_new\<close>,
    \<open>ws_start\<close>, \<open>ws_handle_read\<close>, \<open>ws_write\<close>, \<open>ws_handle_write\<close>,
    \<open>ws_stop\<close>, \<open>ws_destroy\<close>, \<open>Forward\<close>); the completions in any order as the
    \<^theory_text>\<open>inductive\<close> \<open>ws_step\<close>, and \<open>ws_inv\<close>, proved of every reachable
    state by rule induction. Lemmas: FIFO delivery (C18), one write in flight (C19),
    teardown once (C20), the overflow after 101 frames where the spec says 100 (C21),
    the queue drains when writes succeed (C22, by induction on the queue length with
    \<open>^^\<close>), the destructor's teardown (C24); a write after close is still queued (a
    lemma).
  \<^item> \<open>Ws_Registry\<close>: \<open>WebServer\<close>'s two maps of weak handles, a heap of live
    connections whose handles are never reused, \<open>ws_forward\<close>, \<open>WSPush\<close>,
    \<open>WSClose\<close>, \<open>WSAddSession\<close>, \<open>_create_ws_connection\<close> and the release of a
    closed connection, with the interleaving relation \<open>srv_step\<close>. The abstract view
    \<open>target\<close>/\<open>abs_forward\<close> (one live connection per id, plain map first) is what
    \<open>WSPush\<close> refines (C25); \<open>WSClose\<close> closes the target, dead entries are
    pruned lazily and unknown ids answer false (lemmas); in every reachable state each
    live connection is addressed by exactly one id (C29, with the invariant
    \<open>reg_inv\<close>); a connection created under a fresh id is registered in the map of
    its transport and reached by a push to that id (C30).
  \<^item> \<open>Http_Response\<close>: status codes, the \<open>StatusString\<close> and \<open>StockReply\<close>
    tables, \<open>stock_reply\<close>, \<open>setCookie\<close>, \<open>to_buffers\<close> (the header order of the
    \<open>unordered_map\<close> is a parameter), and a reader of the wire format. Lemmas: the
    stock \<open>Content-Length\<close> read back by \<open>stoi\<close> (C31), \<open>setCookie\<close> keeps only
    the first cookie (C32), the serialisation is read back for every header order (C33);
    an untouched response is a bare 500 (a lemma).
  \<^item> \<open>Http_Connection\<close>: \<open>HTTPConnection\<close> as the record \<open>http_conn\<close> with its
    one outstanding operation and an event log; \<open>hc_start\<close>, the handlers
    \<open>hc_handshake_done\<close>, \<open>hc_read_done\<close> (parse, dispatch, stock 400, upgrade,
    exceptions), \<open>hc_write_done\<close>, \<open>hc_upgrade_done\<close>, and \<open>hc_stop\<close>; the
    relation \<open>hc_step\<close> and the invariant \<open>hc_inv\<close>. Lemmas: handover or teardown
    at most once and terminal (C35), half-duplex (C36), bad bytes get the 400 reply
    (C37), the 101 handshake response (C38), a non-numeric \<open>Sec-WebSocket-Version\<close>
    makes the read handler throw (C15), and a \<open>SID\<close> that is not a UUID makes the
    upgrade throw \<open>bad_lexical_cast\<close> after the 101 response went out, with no WebSocket
    connection created (C39, the accepted strings of the external \<open>pauuid\<close> a
    parameter); \<open>hc_upgrade_done\<close> ignores the error code of the 101 write, as the
    handler bound without it does.
  \<^item> \<open>Transport\<close>: \<open>Connection<TSocket>\<close> of \<open>connection.h\<close> and its
    \<open>_cancel\<close>, \<open>_shutdown\<close>, \<open>_close\<close> for \<open>TCPSocket\<close> and
    \<open>SSLSocket\<close> (\<open>lowest_layer\<close>) of \<open>connection.cpp\<close>, with \<open>IFLOG\<close> of a
    failed call (\<open>iflog\<close>); the Boost.Asio calls by their effect on an open,
    connected or closed TCP socket. The socket calls in the logs of an HTTP and a
    WebSocket connection are replayed on the socket (\<open>hc_transport\<close>,
    \<open>ws_transport\<close>). Lemmas: the socket of an upgraded connection is still open
    after the hand-over and closed exactly when the WebSocket connection is, with no
    call on a closed socket (C27); an HTTP connection closes its socket exactly when it
    has run \<open>stop\<close>, and never calls cancel or shutdown on it afterwards (C28).
  \<^item> \<open>Http_Mime\<close>: the \<open>Schema::MIME\<close> table of \<open>http_protocol.h\<close> as the
    list of its 193 entries, \<open>Type.at\<close>, \<open>augment_content_type\<close> and
    \<open>getContentType\<close>. Lemmas: no key is listed twice, the three constants are
    defined (static initialisation does not throw), \<open>getContentType\<close> never throws
    and falls back to \<open>text/plain\<close>. No code under \<open>src/\<close> calls it.
  \<^item> \<open>Server_Setup\<close>: \<open>WebServerParams\<close> of \<open>webserver_params.h\<close> as a
    record with 16-bit ports, and \<open>WebServer::setup_ssl\<close> as a function of the
    environment \<open>ssl_env\<close> (whether \<open>server.crt\<close> and \<open>server.key\<close> exist and
    load) on a record of what the OpenSSL calls set; a load that throws skips the rest
    of the \<open>try\<close> block. \<open>tls_usable\<close>: certificate and key are both loaded.
  \<^item> \<open>Web_Server\<close>: the constructor \<open>WebServer\<close> (a bind failure is logged and
    rethrown by the function-try-block: \<open>Inl System_error\<close>), \<open>Start\<close>, \<open>Stop\<close>
    (both closes into one \<open>error_code\<close>), and the accept handlers of
    \<open>do_accept_http\<close>/\<open>do_accept_https\<close> split at the write of the shared member
    \<open>params_\<close> into \<open>accept_begin\<close> and \<open>accept_finish\<close>, so that the handlers
    of the two acceptors can interleave; \<open>remote_endpoint()\<close> throwing is the peer
    \<open>None\<close>. The labelled \<^theory_text>\<open>inductive\<close> \<open>sys_step\<close> interleaves them with the
    steps of every HTTP connection, the upgrades and the registry; \<open>sys_reachable\<close>
    starts from every result of the constructor (an upgrade registers a
    WebSocket connection only when the \<open>SID\<close> converts), \<open>serial_reachable\<close> lets a begun
    handler end before the other begins, \<open>sys_run\<close> is a run as a label list.
    Lemmas: one handler at a time gives each connection its own peer's address
    (C16, by rule induction with \<open>origin_ok\<close>), while two interleaved handlers give a
    connection the other peer's address (C26); a throw of \<open>remote_endpoint()\<close> ends
    the accept loop on an open acceptor until \<open>Start\<close> (C23); the constructor fails
    only on a bind error and otherwise degrades TLS as the files allow (C34);
    \<open>Stop\<close> logs only the second close error (\<open>server_Stop_log\<close>); in every
    reachable server state the registry has allocated one WebSocket connection per HTTP
    connection that handed its socket over (\<open>sys_reachable_inv\<close>). This root theory
    holds only this header: the properties that span components are stated in
    \<open>Web_Server\<close> and \<open>Transport\<close>, the theories that compose them.

  \<^emph>\<open>Environment and bounds.\<close> Reads complete with 1 to 8192 bytes
  (\<open>max_buffer_length_\<close>); the external request handler, the SHA-1/Base64 hash and
  the iteration order of \<open>unordered_map\<close> are parameters; connection ids are fresh
  (\<open>uuid_generate\<close>). The five static \<open>WebServer::ws_on*\<close> callbacks are set
  (they start as \<open>nullptr\<close> and the application assigns them before \<open>Start\<close>):
  calling an unset one throws \<open>std::bad_function_call\<close>, and only
  \<open>ws_onmessageout\<close> is tested before the call, so the model logs every notification.
  Messages are shorter than 2^64 bytes (a \<open>size_t\<close>), status
  codes below 65536. No fuel is needed: the loops of the code are structural recursion
  over their input, except the \<open>regex_search\<close> loop of \<open>fromString\<close>, a
  \<^theory_text>\<open>partial_function (option)\<close> proved to return on every input (C13), and
  the loop that runs until completions arrive (the send queue), proved to end by
  induction on the queue length (C22).

  \<^emph>\<open>Assumed of the build.\<close> \<open>connection.h\<close> defines \<open>_cancel\<close>,
  \<open>_shutdown\<close> and \<open>_close\<close> inline with empty bodies in the primary template, and the
  specialisations of \<open>connection.cpp\<close> are not declared where the connections call them,
  which makes the program ill-formed with no diagnostic required. \<open>Transport\<close> models
  the specialisations, the calls the code means; with the empty bodies \<open>stop\<close> would
  leave the socket open.

  \<^emph>\<open>Not modelled.\<close> The \<open>CreatorType\<close> factory of \<open>HTTPRequestHandler\<close> and
  the handlers themselves (outside the repository): a connection takes the response
  \<open>HandleRequest\<close> leaves as a parameter. Boost.Asio beyond the effect of \<open>cancel\<close>,
  \<open>shutdown\<close> and \<open>close\<close> on a socket, and OpenSSL (the TLS handshake; the
  file loads of \<open>setup_ssl\<close> are an environment of four booleans), the logging macros beyond the message
  logged, \<open>pa::Uri\<close>, \<open>IPAddress\<close>, \<open>PADateTime\<close>, \<open>pauuid\<close> (a parameter of
  \<open>Cookie::is_pauuid\<close>), SHA-1 and Base64 (external libraries; the
  handshake hash is a parameter where it is used). Integer arithmetic on the HTTP version
  numbers is unbounded \<open>int\<close>: the C++ \<open>int\<close> overflows there only after nine
  digits, which is undefined behaviour, not a wrap-around to model.
\<close>

end
